(* ===== verification/Sinar_Prelude.thy ===== *)
theory Sinar_Prelude
  imports Main "HOL-Library.AList" "HOL-Library.Word" "HOL-Library.Multiset"
begin

text \<open>
  Shared vocabulary of the development: machine words, Go maps, results of a call, and the
  read-write mutex of Go's \<open>sync\<close> package.

  \<^item> A Go map is an association list with distinct keys; its order stands for the order in
    which one \<open>range\<close> loop meets the entries. Every theorem is about every list, so about
    every order the runtime may pick.
  \<^item> A call either returns, blocks for ever on a mutex, or panics.
  \<^item> A mutex is the pair of its writer flag and its reader count. Go's \<open>RWMutex\<close> is not
    reentrant: a goroutine that holds the write lock and asks for the read lock waits for
    itself. The locale \<open>mutex_field\<close> is the interface between a struct and its mutex field.
\<close>

named_theorems gomap_simps "facts on Go maps"
named_theorems mutex_simps "facts on locking and unlocking"

section \<open>Words and bytes\<close>

type_synonym u64 = "64 word"
type_synonym byte = "8 word"
type_synonym hash32 = "256 word"
type_synonym event_id = hash32
type_synonym address = "160 word"

section \<open>Go maps\<close>

type_synonym ('k, 'v) gomap = "('k \<times> 'v) list"

abbreviation go_get :: "('k, 'v) gomap \<Rightarrow> 'k \<Rightarrow> 'v option" where
  "go_get \<equiv> map_of"

abbreviation go_put :: "'k \<Rightarrow> 'v \<Rightarrow> ('k, 'v) gomap \<Rightarrow> ('k, 'v) gomap" where
  "go_put \<equiv> AList.update"

abbreviation go_del :: "'k \<Rightarrow> ('k, 'v) gomap \<Rightarrow> ('k, 'v) gomap" where
  "go_del \<equiv> AList.delete"

abbreviation go_has :: "('k, 'v) gomap \<Rightarrow> 'k \<Rightarrow> bool" where
  "go_has m k \<equiv> map_of m k \<noteq> None"

definition wf_gomap :: "('k, 'v) gomap \<Rightarrow> bool" where
  "wf_gomap m \<longleftrightarrow> distinct (map fst m)"

lemma go_get_put [gomap_simps, simp]: "go_get (go_put k v m) = (go_get m)(k \<mapsto> v)"
  by (rule update_conv')

lemma go_get_del [gomap_simps, simp]: "go_get (go_del k m) = (go_get m)(k := None)"
  by (rule delete_conv')

lemma wf_gomap_Nil [gomap_simps, simp]: "wf_gomap []"
  by (simp add: wf_gomap_def)

lemma wf_gomap_put [gomap_simps, simp, intro]: "wf_gomap m \<Longrightarrow> wf_gomap (go_put k v m)"
  by (simp add: wf_gomap_def distinct_update)

lemma wf_gomap_del [gomap_simps, simp, intro]: "wf_gomap m \<Longrightarrow> wf_gomap (go_del k m)"
  by (simp add: wf_gomap_def distinct_delete)

lemma go_get_in: "go_get m k = Some v \<Longrightarrow> (k, v) \<in> set m"
  by (rule map_of_SomeD)

lemma go_get_iff: "wf_gomap m \<Longrightarrow> go_get m k = Some v \<longleftrightarrow> (k, v) \<in> set m"
  by (simp add: wf_gomap_def)

lemma go_put_fresh: "go_get m k = None \<Longrightarrow> go_put k v m = m @ [(k, v)]"
  by (induction m) (auto split: if_splits)

lemma length_go_put:
  "length (go_put k v m) = (if go_has m k then length m else Suc (length m))"
  by (induction m) auto

lemma length_go_put_le: "length (go_put k v m) \<le> Suc (length m)"
  by (simp add: length_go_put)

lemma set_go_put_subset: "set (go_put k v m) \<subseteq> insert (k, v) (set m)"
  by (induction m) auto

lemma set_go_put:
  "wf_gomap m \<Longrightarrow> set (go_put k v m) = insert (k, v) {kv \<in> set m. fst kv \<noteq> k}"
proof (induction m)
  case Nil
  then show ?case by simp
next
  case (Cons a m)
  then have wf: "wf_gomap m" and fresh: "fst a \<notin> fst ` set m"
    by (auto simp: wf_gomap_def)
  show ?case
  proof (cases "fst a = k")
    case True
    obtain v' where a: "a = (k, v')" using True by (cases a) auto
    have "kv \<in> set m \<Longrightarrow> fst kv \<noteq> k" for kv using fresh a by (auto simp: image_iff)
    then show ?thesis by (auto simp: a)
  next
    case False
    then show ?thesis using Cons.IH [OF wf] by (cases a) auto
  qed
qed

text \<open>Summing a quantity over a map: an update replaces the old summand.\<close>

lemma sum_list_go_put:
  fixes f :: "'v \<Rightarrow> 'a::ab_group_add"
  assumes "wf_gomap m"
  shows "sum_list (map (f \<circ> snd) (go_put k v m)) =
    sum_list (map (f \<circ> snd) m) - (case go_get m k of None \<Rightarrow> 0 | Some old \<Rightarrow> f old) + f v"
  using assms
proof (induction m)
  case Nil
  then show ?case by simp
next
  case (Cons a m)
  obtain k' v' where a: "a = (k', v')" by (cases a)
  show ?case
  proof (cases "k' = k")
    case True
    then show ?thesis by (simp add: a algebra_simps)
  next
    case False
    then show ?thesis using Cons
      by (auto simp: a wf_gomap_def algebra_simps split: option.splits)
  qed
qed

section \<open>Outcomes of a call\<close>

datatype 'a outcome = Returns 'a | Blocks | Panics

fun and_then :: "'a outcome \<Rightarrow> ('a \<Rightarrow> 'b outcome) \<Rightarrow> 'b outcome" where
  "and_then (Returns a) f = f a"
| "and_then Blocks f = Blocks"
| "and_then Panics f = Panics"

lemma and_then_Returns_iff:
  "and_then m f = Returns b \<longleftrightarrow> (\<exists>a. m = Returns a \<and> f a = Returns b)"
  by (cases m) auto

lemma and_then_assoc: "and_then (and_then m f) g = and_then m (\<lambda>a. and_then (f a) g)"
  by (cases m) auto

section \<open>The read-write mutex\<close>

record rwmutex =
  rw_writer :: bool
  rw_readers :: nat

definition unlocked :: rwmutex where
  "unlocked = \<lparr>rw_writer = False, rw_readers = 0\<rparr>"

definition rw_Lock :: "rwmutex \<Rightarrow> rwmutex outcome" where
  "rw_Lock m = (if rw_writer m \<or> rw_readers m \<noteq> 0 then Blocks else Returns (m\<lparr>rw_writer := True\<rparr>))"

definition rw_Unlock :: "rwmutex \<Rightarrow> rwmutex outcome" where
  "rw_Unlock m = (if rw_writer m then Returns (m\<lparr>rw_writer := False\<rparr>) else Panics)"

definition rw_RLock :: "rwmutex \<Rightarrow> rwmutex outcome" where
  "rw_RLock m = (if rw_writer m then Blocks else Returns (m\<lparr>rw_readers := Suc (rw_readers m)\<rparr>))"

definition rw_RUnlock :: "rwmutex \<Rightarrow> rwmutex outcome" where
  "rw_RUnlock m = (if rw_readers m = 0 then Panics else Returns (m\<lparr>rw_readers := rw_readers m - 1\<rparr>))"

text \<open>
  \<open>mu.Lock(); defer mu.Unlock(); body\<close> and the same with the read lock, for a mutex read by
  \<open>mu\<close> and written by \<open>set_mu\<close>.
\<close>

definition with_Lock ::
  "('s \<Rightarrow> rwmutex) \<Rightarrow> (rwmutex \<Rightarrow> 's \<Rightarrow> 's) \<Rightarrow> ('s \<Rightarrow> ('r \<times> 's) outcome) \<Rightarrow> 's \<Rightarrow> ('r \<times> 's) outcome" where
  "with_Lock mu set_mu body s =
     and_then (rw_Lock (mu s)) (\<lambda>m.
     and_then (body (set_mu m s)) (\<lambda>(r, s').
     and_then (rw_Unlock (mu s')) (\<lambda>m'. Returns (r, set_mu m' s'))))"

definition with_RLock ::
  "('s \<Rightarrow> rwmutex) \<Rightarrow> (rwmutex \<Rightarrow> 's \<Rightarrow> 's) \<Rightarrow> ('s \<Rightarrow> ('r \<times> 's) outcome) \<Rightarrow> 's \<Rightarrow> ('r \<times> 's) outcome" where
  "with_RLock mu set_mu body s =
     and_then (rw_RLock (mu s)) (\<lambda>m.
     and_then (body (set_mu m s)) (\<lambda>(r, s').
     and_then (rw_RUnlock (mu s')) (\<lambda>m'. Returns (r, set_mu m' s'))))"

locale mutex_field =
  fixes mu :: "'s \<Rightarrow> rwmutex"
    and set_mu :: "rwmutex \<Rightarrow> 's \<Rightarrow> 's"
  assumes mu_set [simp]: "mu (set_mu m s) = m"
    and set_mu_same [simp]: "set_mu (mu s) s = s"
    and set_mu_twice [simp]: "set_mu m (set_mu m' s) = set_mu m s"
begin

lemma RLock_under_write:
  "rw_writer (mu s) \<Longrightarrow> with_RLock mu set_mu body s = Blocks"
  by (simp add: with_RLock_def rw_RLock_def)

lemma Lock_when_held:
  "rw_writer (mu s) \<Longrightarrow> with_Lock mu set_mu body s = Blocks"
  by (simp add: with_Lock_def rw_Lock_def)

text \<open>A critical section that reaches a blocking call never leaves.\<close>

lemma Lock_then_blocks:
  assumes "\<And>m. rw_writer m \<Longrightarrow> body (set_mu m s) = Blocks"
  shows "with_Lock mu set_mu body s = Blocks"
  by (simp add: with_Lock_def rw_Lock_def assms)

text \<open>A critical section whose body leaves the mutex alone is the body, run atomically.\<close>

lemma Lock_returns:
  assumes "mu s = unlocked"
    and "body (set_mu (unlocked\<lparr>rw_writer := True\<rparr>) s) = Returns (r, s')"
    and "mu s' = unlocked\<lparr>rw_writer := True\<rparr>"
  shows "with_Lock mu set_mu body s = Returns (r, set_mu unlocked s')"
  using assms by (simp add: with_Lock_def rw_Lock_def rw_Unlock_def unlocked_def)

lemma RLock_pure_read:
  assumes "\<not> rw_writer (mu s)"
  shows "with_RLock mu set_mu (\<lambda>t. Returns (f t, t)) s =
    Returns (f (set_mu ((mu s)\<lparr>rw_readers := Suc (rw_readers (mu s))\<rparr>) s), s)"
proof -
  have "set_mu ((mu s)\<lparr>rw_readers := rw_readers (mu s)\<rparr>) s = s"
    by simp
  then show ?thesis using assms
    by (simp add: with_RLock_def rw_RLock_def rw_RUnlock_def)
qed

end

section \<open>Counting over a list\<close>

text \<open>The shape of every counting loop of the program: \<open>for ... \{ if p \{ n++ \} \}\<close>.\<close>

fun count_if :: "('a \<Rightarrow> bool) \<Rightarrow> 'a list \<Rightarrow> nat" where
  "count_if p [] = 0"
| "count_if p (x # xs) = (if p x then Suc (count_if p xs) else count_if p xs)"

lemma count_if_filter: "count_if p xs = length (filter p xs)"
  by (induction xs) auto

lemma count_if_perm: "mset xs = mset ys \<Longrightarrow> count_if p xs = count_if p ys"
  by (metis count_if_filter mset_filter size_mset)

lemma count_if_le: "(\<And>x. x \<in> set xs \<Longrightarrow> p x \<Longrightarrow> q x) \<Longrightarrow> count_if p xs \<le> count_if q xs"
  by (induction xs) (auto simp: le_SucI)

lemma count_if_le_length: "count_if p xs \<le> length xs"
  by (simp add: count_if_filter)

lemma count_if_cong:
  "(\<And>x. x \<in> set xs \<Longrightarrow> p x = q x) \<Longrightarrow> count_if p xs = count_if q xs"
  by (induction xs) auto

lemma count_if_0_iff: "count_if p xs = 0 \<longleftrightarrow> (\<forall>x \<in> set xs. \<not> p x)"
  by (induction xs) auto

lemma count_if_map: "count_if p (map f xs) = count_if (p \<circ> f) xs"
  by (induction xs) auto

end
