(* ===== verification/Sinar_Event.thy ===== *)
theory Sinar_Event
  imports Sinar_Prelude
begin

text \<open>
  \<open>event.go\<close>: events, their cached hash, signatures and pooling (\<open>Reset\<close>).

  The RLP encoder, Keccak and the ECDSA functions come from other modules: they are the
  fields of \<open>crypto\<close>, a parameter of every operation that calls them. A transaction is
  go-ethereum's: the record holds what its accessors return.
\<close>

section \<open>Data\<close>

record transaction =
  tx_Hash :: hash32
  tx_Gas :: u64
  tx_GasPrice :: int
  tx_Value :: int
  tx_To :: "address option"
  tx_Data :: "byte list"
  tx_Sender :: "address option" \<comment> \<open>what \<open>types.Sender\<close> recovers; None is its error\<close>

record event_header =
  ev_CreatorID :: string
  ev_Parents :: "event_id list"
  ev_Lamport :: u64
  ev_Epoch :: u64
  ev_ExtraData :: "byte list"
  ev_TxHash :: hash32
  ev_TxCount :: int
  ev_Round :: u64
  ev_Frame :: u64
  ev_Height :: u64
  ev_RoundReceived :: u64
  ev_IsFamous :: "bool option"
  ev_Atropos :: event_id
  ev_AtroposTime :: u64
  ev_MedianTime :: u64
  ev_IsRoot :: bool
  ev_IsClotho :: bool

text \<open>
  \<open>Event\<close> embeds its header. The unexported field \<open>hash\<close> of the header (an
  \<open>atomic.Value\<close>) is kept on the event: the encoder never sees it.
\<close>

record event = event_header +
  ev_hash :: "event_id option"
  ev_Transactions :: "transaction list"
  ev_Signature :: "byte list"
  ev_Payload :: "byte list list"

record public_key =
  pk_X :: int
  pk_Y :: int

record private_key =
  sk_D :: int
  sk_Public :: public_key

record rlp_event =
  re_Header :: event_header
  re_Transactions :: "transaction list"
  re_Signature :: "byte list"
  re_Payload :: "byte list list"

record crypto =
  rlp_header :: "event_header \<Rightarrow> byte list option"
  rlp_txs :: "transaction list \<Rightarrow> byte list option"
  rlp_rlpEvent :: "rlp_event \<Rightarrow> byte list option"
  rlp_decode_rlpEvent :: "byte list \<Rightarrow> rlp_event option"
  keccak :: "byte list \<Rightarrow> hash32"
  ecdsa_Sign :: "hash32 \<Rightarrow> private_key \<Rightarrow> byte list option"
  ecdsa_SigToPub :: "hash32 \<Rightarrow> byte list \<Rightarrow> public_key option"

text \<open>The 32 bytes of a hash, most significant first.\<close>

definition hash_bytes :: "hash32 \<Rightarrow> byte list" where
  "hash_bytes h = map (\<lambda>i. ucast (drop_bit (8 * (31 - i)) h)) [0..<32]"

section \<open>Operations\<close>

text \<open>A zeroed \<open>Event\{\}\<close>, as \<open>sync.Pool\<close>'s \<open>New\<close> makes it.\<close>

definition zero_event :: event where
  "zero_event = \<lparr>ev_CreatorID = '''', ev_Parents = [], ev_Lamport = 0, ev_Epoch = 0,
     ev_ExtraData = [], ev_TxHash = 0, ev_TxCount = 0, ev_Round = 0, ev_Frame = 0,
     ev_Height = 0, ev_RoundReceived = 0, ev_IsFamous = None, ev_Atropos = 0,
     ev_AtroposTime = 0, ev_MedianTime = 0, ev_IsRoot = False, ev_IsClotho = False,
     ev_hash = None, ev_Transactions = [], ev_Signature = [], ev_Payload = []\<rparr>"

definition Event_CalculateTxHash :: "crypto \<Rightarrow> event \<Rightarrow> hash32 outcome" where
  "Event_CalculateTxHash x e =
     (case rlp_txs x (ev_Transactions e) of
        None \<Rightarrow> Panics
      | Some txsBytes \<Rightarrow> Returns (keccak x txsBytes))"

definition NewEvent ::
  "crypto \<Rightarrow> string \<Rightarrow> event_id list \<Rightarrow> u64 \<Rightarrow> u64 \<Rightarrow> transaction list \<Rightarrow> u64 \<Rightarrow> event outcome" where
  "NewEvent x creatorID parents epoch lamport txs height =
     (let e = zero_event\<lparr>ev_CreatorID := creatorID, ev_Parents := parents, ev_Epoch := epoch,
                ev_Lamport := lamport, ev_TxCount := int (length txs), ev_Height := height,
                ev_Transactions := txs\<rparr>
      in and_then (Event_CalculateTxHash x e) (\<lambda>h. Returns (e\<lparr>ev_TxHash := h\<rparr>)))"

text \<open>
  \<open>Hash\<close> returns the cached value when there is one; encoding errors are ignored, so a
  failed encoding contributes no bytes. The event comes back with its cache filled.
\<close>

definition Event_Hash :: "crypto \<Rightarrow> event \<Rightarrow> event_id \<times> event" where
  "Event_Hash x e =
     (case ev_hash e of
        Some h \<Rightarrow> (h, e)
      | None \<Rightarrow>
          (let headerBytes = case_option [] id (rlp_header x (event_header.truncate e));
               txsBytes = case_option [] id (rlp_txs x (ev_Transactions e));
               i = keccak x (headerBytes @ txsBytes)
           in (i, e\<lparr>ev_hash := Some i\<rparr>)))"

definition Event_DataToSign :: "crypto \<Rightarrow> event \<Rightarrow> byte list \<times> event" where
  "Event_DataToSign x e = (case Event_Hash x e of (h, e') \<Rightarrow> (hash_bytes h, e'))"

definition Event_Sign :: "crypto \<Rightarrow> private_key \<Rightarrow> event \<Rightarrow> bool \<times> event" where
  "Event_Sign x priv e =
     (case Event_DataToSign x e of (msg, e') \<Rightarrow>
        (case ecdsa_Sign x (keccak x msg) priv of
           None \<Rightarrow> (False, e')
         | Some sig \<Rightarrow> (True, e'\<lparr>ev_Signature := sig\<rparr>)))"

definition Event_VerifySignature :: "crypto \<Rightarrow> public_key \<Rightarrow> event \<Rightarrow> bool \<times> event" where
  "Event_VerifySignature x pub e =
     (case Event_DataToSign x e of (msg, e') \<Rightarrow>
        (case ecdsa_SigToPub x (keccak x msg) (ev_Signature e') of
           None \<Rightarrow> (False, e')
         | Some recovered \<Rightarrow> (pk_X recovered = pk_X pub \<and> pk_Y recovered = pk_Y pub, e')))"

definition Event_EncodeRLP :: "crypto \<Rightarrow> event \<Rightarrow> byte list option" where
  "Event_EncodeRLP x e =
     rlp_rlpEvent x \<lparr>re_Header = event_header.truncate e, re_Transactions = ev_Transactions e,
       re_Signature = ev_Signature e, re_Payload = ev_Payload e\<rparr>"

definition event_of_rlp :: "rlp_event \<Rightarrow> event" where
  "event_of_rlp r =
     event_header.extend (re_Header r)
       (event.fields None (re_Transactions r) (re_Signature r) (re_Payload r))"

definition DecodeRLP :: "crypto \<Rightarrow> byte list \<Rightarrow> event option" where
  "DecodeRLP x bytes = map_option event_of_rlp (rlp_decode_rlpEvent x bytes)"

text \<open>
  \<open>Reset\<close> zeroes every field, then stores the zero \<open>EventID\<close> in the hash cache; the
  cache is left filled.
\<close>

definition Event_Reset :: "event \<Rightarrow> event" where
  "Event_Reset e = zero_event\<lparr>ev_hash := Some 0\<rparr>"

section \<open>The cached hash\<close>

definition hash_of :: "crypto \<Rightarrow> event \<Rightarrow> event_id" where
  "hash_of x e = fst (Event_Hash x e)"

lemma Event_Hash_cached [simp]: "ev_hash e = Some h \<Longrightarrow> Event_Hash x e = (h, e)"
  by (simp add: Event_Hash_def)

lemma Event_Hash_fills [simp]: "ev_hash (snd (Event_Hash x e)) = Some (hash_of x e)"
  by (simp add: hash_of_def Event_Hash_def Let_def split: option.split)

lemma hash_of_cached [simp]: "ev_hash e = Some h \<Longrightarrow> hash_of x e = h"
  by (simp add: hash_of_def)

lemma Event_Hash_pair: "Event_Hash x e = (hash_of x e, e\<lparr>ev_hash := Some (hash_of x e)\<rparr>)"
  by (simp add: hash_of_def Event_Hash_def Let_def split: option.split)

text \<open>Writing any field but the cache never moves the hash.\<close>

lemma hash_of_after_update:
  "ev_hash e' = ev_hash (snd (Event_Hash x e)) \<Longrightarrow> hash_of x e' = hash_of x e"
  by simp

section \<open>Assumptions on the other modules, and a concrete provider\<close>

text \<open>
  go-ethereum's RLP package documents that signed integers cannot be encoded; the header
  has the field \<open>TxCount int\<close>, so encoding a header, or a struct that holds one, fails.
\<close>

definition rlp_rejects_signed_ints :: "crypto \<Rightarrow> bool" where
  "rlp_rejects_signed_ints x \<longleftrightarrow>
     (\<forall>h. rlp_header x h = None) \<and> (\<forall>r. rlp_rlpEvent x r = None)"

text \<open>Recovering from a signature over a digest gives the signer's public key.\<close>

definition ecdsa_correct :: "crypto \<Rightarrow> private_key \<Rightarrow> bool" where
  "ecdsa_correct x priv \<longleftrightarrow>
     (\<forall>d sig. ecdsa_Sign x d priv = Some sig \<longrightarrow> ecdsa_SigToPub x d sig = Some (sk_Public priv))"

text \<open>A provider for the concrete examples: a toy hash, and signatures that name their key.\<close>

definition sample_key :: private_key where
  "sample_key = \<lparr>sk_D = 7, sk_Public = \<lparr>pk_X = 3, pk_Y = 4\<rparr>\<rparr>"

definition sample_crypto :: crypto where
  "sample_crypto = \<lparr>rlp_header = (\<lambda>_. None),
     rlp_txs = (\<lambda>txs. Some (concat (map (\<lambda>t. [ucast (tx_Hash t)]) txs))),
     rlp_rlpEvent = (\<lambda>_. None), rlp_decode_rlpEvent = (\<lambda>_. None),
     keccak = (\<lambda>bs. foldl (\<lambda>a b. a * 257 + ucast b + 1) 5 bs),
     ecdsa_Sign = (\<lambda>d k. Some [1]),
     ecdsa_SigToPub = (\<lambda>d sig. Some (sk_Public sample_key))\<rparr>"

lemma sample_crypto_rejects: "rlp_rejects_signed_ints sample_crypto"
  by (simp add: rlp_rejects_signed_ints_def sample_crypto_def)

lemma sample_crypto_ecdsa: "ecdsa_correct sample_crypto sample_key"
  by (simp add: ecdsa_correct_def sample_crypto_def)

section \<open>Properties\<close>

text \<open>
  C40. Signing round trip: an event signed with a key verifies under that key's public half,
  also after any later write to its other fields (the consensus code fills in round, root and
  finality fields after signing), because the hash is cached. The hypothesis on ECDSA is
  that recovery inverts signing for this key.
\<close>

theorem event_sign_verifies:
  assumes "ecdsa_correct x priv" and "Event_Sign x priv e = (True, e')"
    and "ev_hash e'' = ev_hash e'" and "ev_Signature e'' = ev_Signature e'"
  shows "Event_VerifySignature x (sk_Public priv) e'' = (True, e'') \<and> hash_of x e'' = hash_of x e"
proof -
  have "ev_hash e' = Some (hash_of x e)"
    and "ecdsa_SigToPub x (keccak x (hash_bytes (hash_of x e))) (ev_Signature e') = Some (sk_Public priv)"
    using assms(1,2)
    by (auto simp: Event_Sign_def Event_DataToSign_def Event_Hash_pair [of x e] ecdsa_correct_def
        split: option.splits)
  then show ?thesis using assms(3,4)
    by (simp add: Event_VerifySignature_def Event_DataToSign_def)
qed

theorem event_sign_verifies_witness:
  "Event_VerifySignature sample_crypto (sk_Public sample_key)
     ((snd (Event_Sign sample_crypto sample_key zero_event))\<lparr>ev_Round := 9\<rparr>) =
   (True, (snd (Event_Sign sample_crypto sample_key zero_event))\<lparr>ev_Round := 9\<rparr>)"
proof -
  have "Event_Sign sample_crypto sample_key zero_event =
      (True, snd (Event_Sign sample_crypto sample_key zero_event))"
    by (simp add: Event_Sign_def Event_DataToSign_def sample_crypto_def Event_Hash_pair)
  from event_sign_verifies [OF sample_crypto_ecdsa this, of
      "(snd (Event_Sign sample_crypto sample_key zero_event))\<lparr>ev_Round := 9\<rparr>"]
  show ?thesis by simp
qed

text \<open>
  The identity of an event does not depend on its header: because the RLP encoder refuses the
  signed field \<open>TxCount\<close> and \<open>Hash\<close> drops the error, two events with the same
  transactions have the same hash, whoever created them, whatever parents, time or height they
  have, and no event can be serialised by \<open>EncodeRLP\<close>.
\<close>

theorem event_hash_ignores_header:
  assumes "rlp_rejects_signed_ints x" and "ev_hash a = None" and "ev_hash b = None"
    and "ev_Transactions a = ev_Transactions b"
  shows "hash_of x a = hash_of x b \<and> Event_EncodeRLP x a = None"
  using assms
  by (simp add: hash_of_def Event_Hash_def rlp_rejects_signed_ints_def Event_EncodeRLP_def Let_def)

theorem event_hash_ignores_header_witness:
  "hash_of sample_crypto (zero_event\<lparr>ev_CreatorID := ''NodeA'', ev_Height := 1\<rparr>) =
   hash_of sample_crypto (zero_event\<lparr>ev_CreatorID := ''NodeB'', ev_Lamport := 5, ev_Parents := [8]\<rparr>)"
  using event_hash_ignores_header [OF sample_crypto_rejects,
      of "zero_event\<lparr>ev_CreatorID := ''NodeA'', ev_Height := 1\<rparr>"
         "zero_event\<lparr>ev_CreatorID := ''NodeB'', ev_Lamport := 5, ev_Parents := [8]\<rparr>"]
  by (simp add: zero_event_def)

text \<open>
  A recycled event never gets a hash of its own: \<open>Reset\<close> stores the zero identifier in
  the hash cache instead of emptying it, so whatever is written to the event afterwards its hash
  is the zero identifier, while a newly allocated event with an empty cache gets the Keccak value.
\<close>

theorem event_reset_pins_hash:
  assumes "ev_hash e' = ev_hash (Event_Reset e)"
  shows "hash_of x e' = 0 \<and> hash_of x (e'\<lparr>ev_hash := None\<rparr>) =
     keccak x (case_option [] id (rlp_header x (event_header.truncate e')) @
               case_option [] id (rlp_txs x (ev_Transactions e')))"
  using assms
  by (simp add: Event_Reset_def hash_of_def Event_Hash_def Let_def event_header.truncate_def)

theorem event_reset_pins_hash_witness:
  "hash_of sample_crypto ((Event_Reset zero_event)\<lparr>ev_CreatorID := ''NodeA''\<rparr>) = 0"
  using event_reset_pins_hash [of "(Event_Reset zero_event)\<lparr>ev_CreatorID := ''NodeA''\<rparr>"
      zero_event sample_crypto]
  by simp

end
