(* ===== verification/Ancestry.thy ===== *)
theory Ancestry
  imports Sinar_Prelude
begin

text \<open>
  Ancestor search over the parent links of the event graph: the depth-first search of
  \<open>DAG.IsAncestor\<close> (\<open>dag.go\<close>) and the breadth-first search of
  \<open>Poset.isAncestor\<close> (\<open>poset.go\<close>), both with a visited set. The graph lists, for
  every stored event, the identifiers of its parents; a parent may be missing.

  Specification: the reflexive transitive closure of the parent relation. The locale
  \<open>ancestor_search\<close> is the interface the consensus components use.
\<close>

type_synonym parent_graph = "(event_id \<times> event_id list) list"

definition parent_of :: "parent_graph \<Rightarrow> event_id \<Rightarrow> event_id \<Rightarrow> bool" where
  "parent_of g c p \<longleftrightarrow> (\<exists>ps. map_of g c = Some ps \<and> p \<in> set ps)"

abbreviation reaches_up :: "parent_graph \<Rightarrow> event_id \<Rightarrow> event_id \<Rightarrow> bool" where
  "reaches_up g \<equiv> (parent_of g)\<^sup>*\<^sup>*"

text \<open>The stored events not visited yet: what every search step of either loop uses up.\<close>

definition unvisited :: "parent_graph \<Rightarrow> event_id list \<Rightarrow> nat" where
  "unvisited g vis = card (fst ` set g - set vis)"

lemma unvisited_le: "set vis \<subseteq> set vis' \<Longrightarrow> unvisited g vis' \<le> unvisited g vis"
  by (auto simp: unvisited_def intro: card_mono)

lemma unvisited_visit:
  "map_of g c = Some ps \<Longrightarrow> c \<notin> set vis \<Longrightarrow> unvisited g (c # vis) < unvisited g vis"
  unfolding unvisited_def
proof (rule psubset_card_mono)
  assume "map_of g c = Some ps" and new: "c \<notin> set vis"
  then have "c \<in> fst ` set g" by (auto dest: map_of_SomeD intro: rev_image_eqI)
  then show "fst ` set g - set (c # vis) \<subset> fst ` set g - set vis" using new by auto
qed simp

lemma unvisited_other: "map_of g c = None \<Longrightarrow> unvisited g (c # vis) = unvisited g vis"
  by (auto simp: unvisited_def map_of_eq_None_iff intro: arg_cong [where f = card])

section \<open>Depth-first search\<close>

text \<open>
  The closure \<open>dfs\<close> of \<open>IsAncestor\<close>. The captured \<open>visited\<close> map is threaded through
  the calls; the fuel bounds the depth of the recursion.
\<close>

fun dfs :: "nat \<Rightarrow> parent_graph \<Rightarrow> event_id \<Rightarrow> event_id \<Rightarrow> event_id list \<Rightarrow> (bool \<times> event_id list) option"
and dfs_parents :: "nat \<Rightarrow> parent_graph \<Rightarrow> event_id \<Rightarrow> event_id list \<Rightarrow> event_id list \<Rightarrow> (bool \<times> event_id list) option"
where
  "dfs 0 g aID current visited = None"
| "dfs (Suc fuel) g aID current visited =
     (if current = aID then Some (True, visited)
      else if current \<in> set visited then Some (False, visited)
      else (case map_of g current of
              None \<Rightarrow> Some (False, current # visited)
            | Some parents \<Rightarrow> dfs_parents fuel g aID parents (current # visited)))"
| "dfs_parents fuel g aID [] visited = Some (False, visited)"
| "dfs_parents fuel g aID (p # ps) visited =
     (case dfs fuel g aID p visited of
        None \<Rightarrow> None
      | Some (True, v) \<Rightarrow> Some (True, v)
      | Some (False, v) \<Rightarrow> dfs_parents fuel g aID ps v)"

lemma dfs_visited_grows:
  "dfs n g a c vis = Some (r, v) \<Longrightarrow> set vis \<subseteq> set v"
  "dfs_parents n g a ps vis = Some (r, v) \<Longrightarrow> set vis \<subseteq> set v"
  by (induction n g a c vis and n g a ps vis arbitrary: r v and r v rule: dfs_dfs_parents.induct)
     (fastforce split: if_splits option.splits prod.splits bool.splits)+

text \<open>Enough fuel: one unit more than there are stored events left to visit.\<close>

lemma dfs_enough_fuel:
  "unvisited g vis < n \<Longrightarrow> dfs n g a c vis \<noteq> None"
  "unvisited g vis < n \<Longrightarrow> dfs_parents n g a ps vis \<noteq> None"
proof (induction n g a c vis and n g a ps vis rule: dfs_dfs_parents.induct)
  case (1 g aID current visited)
  then show ?case by simp
next
  case (2 fuel g aID current visited)
  show ?case
  proof (cases "current = aID \<or> current \<in> set visited \<or> map_of g current = None")
    case True
    then show ?thesis by auto
  next
    case False
    then obtain ps where ps: "map_of g current = Some ps" by auto
    then have "unvisited g (current # visited) < fuel"
      using False unvisited_visit [OF ps, of visited] "2.prems" by simp
    then show ?thesis using "2.IH" False ps by simp
  qed
next
  case (3 fuel g aID visited)
  then show ?case by simp
next
  case (4 fuel g aID p ps visited)
  then obtain r v where rv: "dfs fuel g aID p visited = Some (r, v)" by fastforce
  show ?case
  proof (cases r)
    case True
    then show ?thesis using rv by simp
  next
    case False
    have "unvisited g v \<le> unvisited g visited"
      by (rule unvisited_le [OF dfs_visited_grows(1) [OF rv]])
    then show ?thesis using 4 rv False by simp
  qed
qed

text \<open>A search that answers yes has found a path.\<close>

lemma dfs_sound:
  "dfs n g a c vis = Some (True, v) \<Longrightarrow> reaches_up g c a"
  "dfs_parents n g a ps vis = Some (True, v) \<Longrightarrow> \<exists>p \<in> set ps. reaches_up g p a"
proof (induction n g a c vis and n g a ps vis arbitrary: v and v rule: dfs_dfs_parents.induct)
  case (1 g aID current visited)
  then show ?case by simp
next
  case (2 fuel g aID current visited)
  show ?case
  proof (cases "current = aID")
    case True
    then show ?thesis by simp
  next
    case False
    then obtain ps where ps: "current \<notin> set visited" "map_of g current = Some ps"
      and "dfs_parents fuel g aID ps (current # visited) = Some (True, v)"
      using "2.prems" by (auto split: if_splits option.splits)
    then obtain p where "p \<in> set ps" "reaches_up g p aID" using "2.IH" False by blast
    then show ?thesis using ps(2)
      by (meson converse_rtranclp_into_rtranclp parent_of_def)
  qed
next
  case (3 fuel g aID visited)
  then show ?case by simp
next
  case (4 fuel g aID p ps visited)
  then show ?case by (fastforce split: option.splits prod.splits bool.splits)
qed

text \<open>
  A search that answers no has visited its start, has not visited the target, and every
  event it visited newly has all its parents visited.
\<close>

definition closed_visit :: "parent_graph \<Rightarrow> event_id list \<Rightarrow> event_id list \<Rightarrow> bool" where
  "closed_visit g vis v \<longleftrightarrow> set vis \<subseteq> set v \<and>
     (\<forall>x \<in> set v - set vis. \<forall>y. parent_of g x y \<longrightarrow> y \<in> set v)"

lemma closed_visit_trans:
  "closed_visit g u v \<Longrightarrow> closed_visit g v w \<Longrightarrow> closed_visit g u w"
  unfolding closed_visit_def by blast

lemma dfs_complete:
  "dfs n g a c vis = Some (False, v) \<Longrightarrow> a \<notin> set vis \<Longrightarrow>
     a \<notin> set v \<and> c \<in> set v \<and> closed_visit g vis v"
  "dfs_parents n g a ps vis = Some (False, v) \<Longrightarrow> a \<notin> set vis \<Longrightarrow>
     a \<notin> set v \<and> set ps \<subseteq> set v \<and> closed_visit g vis v"
proof (induction n g a c vis and n g a ps vis arbitrary: v and v rule: dfs_dfs_parents.induct)
  case (1 g aID current visited)
  then show ?case by simp
next
  case (2 fuel g aID current visited)
  show ?case
  proof (cases "current \<in> set visited")
    case True
    then show ?thesis using "2.prems" by (auto simp: closed_visit_def split: if_splits)
  next
    case False
    note new = False
    have ne: "current \<noteq> aID" using "2.prems" by auto
    show ?thesis
    proof (cases "map_of g current")
      case None
      then show ?thesis using "2.prems" False ne by (auto simp: closed_visit_def parent_of_def)
    next
      case (Some ps)
      then have run: "dfs_parents fuel g aID ps (current # visited) = Some (False, v)"
        using "2.prems" False ne by simp
      then have "aID \<notin> set v \<and> set ps \<subseteq> set v \<and> closed_visit g (current # visited) v"
        using "2.IH" [OF ne False Some run] "2.prems" ne by simp
      then have parts: "aID \<notin> set v" "set ps \<subseteq> set v" "set visited \<subseteq> set v" "current \<in> set v"
        and closed: "x \<in> set v \<Longrightarrow> x \<notin> set visited \<Longrightarrow> x \<noteq> current \<Longrightarrow> parent_of g x y \<Longrightarrow> y \<in> set v" for x y
        by (auto simp: closed_visit_def)
      have "parent_of g current y \<Longrightarrow> y \<in> set v" for y using Some parts(2) by (auto simp: parent_of_def)
      then have "closed_visit g visited v" using parts(3) closed unfolding closed_visit_def by blast
      then show ?thesis using parts by blast
    qed
  qed
next
  case (3 fuel g aID visited)
  then show ?case by (auto simp: closed_visit_def)
next
  case (4 fuel g aID p ps visited)
  then obtain u where u: "dfs fuel g aID p visited = Some (False, u)"
    and run: "dfs_parents fuel g aID ps u = Some (False, v)"
    by (auto split: option.splits prod.splits bool.splits)
  then have 1: "aID \<notin> set u \<and> p \<in> set u \<and> closed_visit g visited u"
    using "4.IH"(1) "4.prems"(2) by blast
  then have 2: "aID \<notin> set v \<and> set ps \<subseteq> set v \<and> closed_visit g u v"
    by (intro "4.IH"(2) [OF u refl refl run]) blast
  have "closed_visit g visited v" using 1 2 by (blast intro: closed_visit_trans)
  moreover have "set u \<subseteq> set v" using 2 by (simp add: closed_visit_def)
  ultimately show ?case using 1 2 by auto
qed

lemma closed_set_reaches:
  assumes "\<forall>x \<in> S. \<forall>y. parent_of g x y \<longrightarrow> y \<in> S" and "c \<in> S" and "reaches_up g c a"
  shows "a \<in> S"
  using assms(3,2,1) by (induction rule: rtranclp_induct) blast+

text \<open>\<open>IsAncestor\<close>: the search from \<open>bID\<close> with an empty visited map.\<close>

definition dfs_ancestor :: "parent_graph \<Rightarrow> event_id \<Rightarrow> event_id \<Rightarrow> bool" where
  "dfs_ancestor g aID bID =
     (case dfs (Suc (length g)) g aID bID [] of Some (r, _) \<Rightarrow> r | None \<Rightarrow> False)"

lemma dfs_ancestor_terminates: "dfs (Suc (length g)) g a b [] \<noteq> None"
proof (rule dfs_enough_fuel)
  have "card (fst ` set g) \<le> length g"
    by (metis card_length length_map list.set_map)
  then show "unvisited g [] < Suc (length g)" by (simp add: unvisited_def)
qed

lemma dfs_ancestor_iff: "dfs_ancestor g a b \<longleftrightarrow> reaches_up g b a"
proof -
  obtain r v where run: "dfs (Suc (length g)) g a b [] = Some (r, v)"
    using dfs_ancestor_terminates [of g a b] by auto
  show ?thesis
  proof (cases r)
    case True
    then have "dfs (Suc (length g)) g a b [] = Some (True, v)" using run by (simp del: dfs.simps)
    then have "reaches_up g b a" by (rule dfs_sound(1))
    then show ?thesis using run True by (simp add: dfs_ancestor_def del: dfs.simps)
  next
    case False
    then have "a \<notin> set v" "b \<in> set v" "closed_visit g [] v"
      using dfs_complete(1) [of "Suc (length g)" g a b "[]" v] run by auto
    then have "\<not> reaches_up g b a"
      using closed_set_reaches [of "set v" g b a] by (auto simp: closed_visit_def)
    then show ?thesis using run False by (simp add: dfs_ancestor_def del: dfs.simps)
  qed
qed

section \<open>Breadth-first search\<close>

function bfs :: "parent_graph \<Rightarrow> event_id \<Rightarrow> event_id list \<Rightarrow> event_id list \<Rightarrow> bool" where
  "bfs g ancestor [] visited = False"
| "bfs g ancestor (current # queue) visited =
     (if current = ancestor then True
      else if current \<in> set visited then bfs g ancestor queue visited
      else (case map_of g current of
              None \<Rightarrow> bfs g ancestor queue (current # visited)
            | Some parents \<Rightarrow> bfs g ancestor (queue @ parents) (current # visited)))"
  by pat_completeness auto
termination
  by (relation "measures [\<lambda>(g, a, queue, visited). unvisited g visited, \<lambda>(g, a, queue, visited). length queue]")
     (auto simp: unvisited_visit unvisited_other)

text \<open>
  Loop invariant: the target is unvisited, and every parent of a visited event is visited or
  queued.
\<close>

lemma bfs_iff:
  assumes "ancestor \<notin> set visited"
    and "\<forall>x \<in> set visited. \<forall>y. parent_of g x y \<longrightarrow> y \<in> set visited \<union> set queue"
  shows "bfs g ancestor queue visited \<longleftrightarrow> (\<exists>c \<in> set queue \<union> set visited. reaches_up g c ancestor)"
  using assms
proof (induction g ancestor queue visited rule: bfs.induct)
  case (1 g ancestor visited)
  have closed: "\<forall>x \<in> set visited. \<forall>y. parent_of g x y \<longrightarrow> y \<in> set visited" using "1.prems"(2) by simp
  have "a \<in> set visited" if "c \<in> set visited" "reaches_up g c a" for a c
    by (rule closed_set_reaches [OF closed that])
  then show ?case using "1.prems"(1) by (metis Un_iff bfs.simps(1) empty_iff list.set(1))
next
  case (2 g ancestor current queue visited)
  consider (hit) "current = ancestor"
    | (seen) "current \<noteq> ancestor" "current \<in> set visited"
    | (leaf) "current \<noteq> ancestor" "current \<notin> set visited" "map_of g current = None"
    | (node) ps where "current \<noteq> ancestor" "current \<notin> set visited" "map_of g current = Some ps"
    by (cases "map_of g current") auto
  then show ?case
  proof cases
    case hit
    then show ?thesis by auto
  next
    case seen
    then show ?thesis using "2.IH"(1) "2.prems" by auto
  next
    case leaf
    then have "\<forall>y. \<not> parent_of g current y" by (simp add: parent_of_def)
    then show ?thesis using leaf "2.IH"(2) "2.prems" by auto
  next
    case node
    have p: "parent_of g current y \<longleftrightarrow> y \<in> set ps" for y using node(3) by (simp add: parent_of_def)
    have "bfs g ancestor (queue @ ps) (current # visited) \<longleftrightarrow>
        (\<exists>c \<in> set (queue @ ps) \<union> set (current # visited). reaches_up g c ancestor)"
      using node "2.prems" p by (intro "2.IH"(3)) auto
    also have "\<dots> \<longleftrightarrow> (\<exists>c \<in> set (current # queue) \<union> set visited. reaches_up g c ancestor)"
    proof -
      have "c \<in> set ps \<Longrightarrow> reaches_up g c ancestor \<Longrightarrow> reaches_up g current ancestor" for c
        using p by (simp add: converse_rtranclp_into_rtranclp)
      then show ?thesis by auto
    qed
    finally show ?thesis using node by simp
  qed
qed

definition bfs_ancestor :: "parent_graph \<Rightarrow> event_id \<Rightarrow> event_id \<Rightarrow> bool" where
  "bfs_ancestor g ancestor descendant = bfs g ancestor [descendant] []"

lemma bfs_ancestor_iff: "bfs_ancestor g a b \<longleftrightarrow> reaches_up g b a"
  unfolding bfs_ancestor_def by (subst bfs_iff) auto

section \<open>The interface\<close>

locale ancestor_search =
  fixes is_ancestor :: "parent_graph \<Rightarrow> event_id \<Rightarrow> event_id \<Rightarrow> bool"
  assumes is_ancestor_iff: "is_ancestor g a b \<longleftrightarrow> reaches_up g b a"
begin

lemma is_ancestor_refl [simp]: "is_ancestor g a a"
  by (simp add: is_ancestor_iff)

lemma is_ancestor_trans: "is_ancestor g a b \<Longrightarrow> is_ancestor g b c \<Longrightarrow> is_ancestor g a c"
  by (simp add: is_ancestor_iff)

lemma parent_is_ancestor: "parent_of g c p \<Longrightarrow> is_ancestor g p c"
  by (simp add: is_ancestor_iff r_into_rtranclp)

lemma is_ancestor_step: "is_ancestor g a c \<longleftrightarrow> a = c \<or> (\<exists>p. parent_of g c p \<and> is_ancestor g a p)"
  unfolding is_ancestor_iff by (metis converse_rtranclpE converse_rtranclp_into_rtranclp rtranclp.rtrancl_refl)

text \<open>An event that is not stored has no ancestor but itself.\<close>

lemma is_ancestor_unstored: "map_of g c = None \<Longrightarrow> is_ancestor g a c \<longleftrightarrow> a = c"
  by (subst is_ancestor_step) (auto simp: parent_of_def)

text \<open>Storing more events never loses an ancestor.\<close>

lemma is_ancestor_mono:
  assumes "\<And>c p. parent_of g c p \<Longrightarrow> parent_of g' c p" and "is_ancestor g a b"
  shows "is_ancestor g' a b"
proof -
  have "parent_of g \<le> parent_of g'" using assms(1) by auto
  then have "(parent_of g)\<^sup>*\<^sup>* \<le> (parent_of g')\<^sup>*\<^sup>*" by (rule rtranclp_mono)
  then show ?thesis using assms(2) by (auto simp: is_ancestor_iff)
qed

text \<open>The answer depends only on the parent links, not on the order they are stored in.\<close>

lemma is_ancestor_cong: "map_of g = map_of g' \<Longrightarrow> is_ancestor g = is_ancestor g'"
  by (simp add: is_ancestor_iff fun_eq_iff parent_of_def [abs_def])

end

interpretation dag_anc: ancestor_search dfs_ancestor
  by unfold_locales (rule dfs_ancestor_iff)

interpretation poset_anc: ancestor_search bfs_ancestor
  by unfold_locales (rule bfs_ancestor_iff)

lemma dfs_bfs_agree: "dfs_ancestor g a b = bfs_ancestor g a b"
  by (simp add: dag_anc.is_ancestor_iff poset_anc.is_ancestor_iff)

end
