(* ===== verification/Dag.thy ===== *)
theory Dag
  imports Sinar_Event Ancestry
begin

text \<open>
  \<open>dag.go\<close> and \<open>round_assignment.go\<close>: the event graph, its mutex, the assignment of rounds,
  witnesses and roots, and the ancestor test.

  Events are heap objects shared by pointer between \<open>Events\<close>, the round table and the caller:
  \<open>d_heap\<close> is that part of the Go heap, an \<open>eref\<close> is an \<open>*Event\<close>. Round records are
  reached through the round table only and are stored by value. A nil round table behaves as
  an empty one (\<open>ensureRound\<close> allocates it before the first write), so both are \<open>[]\<close>.
  The operations work on every extension of the \<open>dag\<close> record, since the consensus engine
  builds its DAG over the maps of its \<open>Poset\<close>.
\<close>

section \<open>State\<close>

type_synonym eref = nat

record round_info =
  ri_Number :: u64
  ri_Witnesses :: "(event_id, eref) gomap"
  ri_Roots :: "(event_id, eref) gomap"
  ri_Clothos :: "(event_id, eref) gomap"
  ri_Atropos :: "(event_id, eref) gomap"
  ri_Decided :: bool

record vote =
  vt_WitnessID :: event_id
  vt_Round :: u64
  vt_Voter :: event_id
  vt_Choice :: bool
  vt_Decided :: bool
  vt_Timestamp :: u64

record dag =
  d_heap :: "eref \<Rightarrow> event"
  d_Events :: "(event_id, eref) gomap"
  d_Rounds :: "(u64, round_info) gomap"
  d_Votes :: "(string, vote) gomap"
  d_mu :: rwmutex

definition NewDAG :: "(eref \<Rightarrow> event) \<Rightarrow> dag" where
  "NewDAG heap = \<lparr>d_heap = heap, d_Events = [], d_Rounds = [], d_Votes = [], d_mu = unlocked\<rparr>"

text \<open>The mutex interface of the DAG.\<close>

definition set_d_mu :: "rwmutex \<Rightarrow> 'a dag_scheme \<Rightarrow> 'a dag_scheme" where
  "set_d_mu m d = d\<lparr>d_mu := m\<rparr>"

interpretation dag_mu: mutex_field d_mu set_d_mu
  by unfold_locales (simp_all add: set_d_mu_def)

text \<open>Reading the heap: the events in iteration order, and one event by identifier.\<close>

definition events_seq :: "'a dag_scheme \<Rightarrow> event list" where
  "events_seq d = map (\<lambda>(i, p). d_heap d p) (d_Events d)"

definition upd_event :: "eref \<Rightarrow> (event \<Rightarrow> event) \<Rightarrow> 'a dag_scheme \<Rightarrow> 'a dag_scheme" where
  "upd_event p f d = d\<lparr>d_heap := (d_heap d)(p := f (d_heap d p))\<rparr>"

definition parent_graph_of :: "'a dag_scheme \<Rightarrow> parent_graph" where
  "parent_graph_of d = map (\<lambda>(i, p). (i, ev_Parents (d_heap d p))) (d_Events d)"

section \<open>Queries\<close>

definition DAG_GetEvent :: "event_id \<Rightarrow> 'a dag_scheme \<Rightarrow> (eref option \<times> 'a dag_scheme) outcome" where
  "DAG_GetEvent i = with_RLock d_mu set_d_mu (\<lambda>d. Returns (go_get (d_Events d) i, d))"

fun collect_parents :: "(event_id, eref) gomap \<Rightarrow> event_id list \<Rightarrow> string + eref list" where
  "collect_parents evs [] = Inr []"
| "collect_parents evs (pid # pids) =
     (case go_get evs pid of
        None \<Rightarrow> Inl ''parent not found in DAG''
      | Some p \<Rightarrow> (case collect_parents evs pids of Inl e \<Rightarrow> Inl e | Inr ps \<Rightarrow> Inr (p # ps)))"

definition DAG_GetParents ::
  "event \<Rightarrow> 'a dag_scheme \<Rightarrow> ((string + eref list) \<times> 'a dag_scheme) outcome" where
  "DAG_GetParents e =
     with_RLock d_mu set_d_mu (\<lambda>d. Returns (collect_parents (d_Events d) (ev_Parents e), d))"

definition DAG_IsAncestor ::
  "event_id \<Rightarrow> event_id \<Rightarrow> 'a dag_scheme \<Rightarrow> (bool \<times> 'a dag_scheme) outcome" where
  "DAG_IsAncestor aID bID =
     with_RLock d_mu set_d_mu (\<lambda>d. Returns (dfs_ancestor (parent_graph_of d) aID bID, d))"

section \<open>Round assignment\<close>

definition DAG_isWitness :: "event \<Rightarrow> 'a dag_scheme \<Rightarrow> bool" where
  "DAG_isWitness e d \<longleftrightarrow>
     \<not> list_ex (\<lambda>other. ev_CreatorID other = ev_CreatorID e \<and> ev_Round other = ev_Round e \<and>
                 ev_Lamport other < ev_Lamport e) (events_seq d)"

definition new_round_info :: "u64 \<Rightarrow> round_info" where
  "new_round_info n = \<lparr>ri_Number = n, ri_Witnesses = [], ri_Roots = [], ri_Clothos = [],
     ri_Atropos = [], ri_Decided = False\<rparr>"

definition DAG_ensureRound :: "u64 \<Rightarrow> 'a dag_scheme \<Rightarrow> 'a dag_scheme" where
  "DAG_ensureRound r d =
     (if go_has (d_Rounds d) r then d
      else d\<lparr>d_Rounds := go_put r (new_round_info 0) (d_Rounds d)\<rparr>)"

text \<open>\<open>e.Hash()\<close> on a heap event: the cache is filled in place.\<close>

definition hash_ref :: "crypto \<Rightarrow> eref \<Rightarrow> 'a dag_scheme \<Rightarrow> event_id \<times> 'a dag_scheme" where
  "hash_ref x p d = (case Event_Hash x (d_heap d p) of (i, e) \<Rightarrow> (i, upd_event p (\<lambda>_. e) d))"

text \<open>
  \<open>ensureRound(e.Round); Rounds[e.Round].Witnesses[e.Hash()] = e; Rounds[e.Round].Roots[e.Hash()] = e\<close>
\<close>

definition register_root :: "crypto \<Rightarrow> eref \<Rightarrow> 'a dag_scheme \<Rightarrow> 'a dag_scheme" where
  "register_root x p d =
     (let r = ev_Round (d_heap d p);
          d1 = DAG_ensureRound r d;
          (i, d2) = hash_ref x p d1
      in case go_get (d_Rounds d2) r of
           None \<Rightarrow> d2
         | Some ri \<Rightarrow> d2\<lparr>d_Rounds := go_put r
             (ri\<lparr>ri_Witnesses := go_put i p (ri_Witnesses ri), ri_Roots := go_put i p (ri_Roots ri)\<rparr>)
             (d_Rounds d2)\<rparr>)"

fun max_parent_round :: "u64 \<Rightarrow> event list \<Rightarrow> u64" where
  "max_parent_round m [] = m"
| "max_parent_round m (p # ps) = max_parent_round (if ev_Round p > m then ev_Round p else m) ps"

text \<open>The part of \<open>AssignRound\<close> after the parents are known.\<close>

definition assign_with_parents :: "crypto \<Rightarrow> eref list \<Rightarrow> eref \<Rightarrow> 'a dag_scheme \<Rightarrow> 'a dag_scheme" where
  "assign_with_parents x ps p d =
     (if ps = [] then
        register_root x p (upd_event p (\<lambda>e. e\<lparr>ev_Round := 0, ev_IsRoot := True\<rparr>) d)
      else
        let maxParentRound = max_parent_round 0 (map (d_heap d) ps);
            d1 = upd_event p (\<lambda>e. e\<lparr>ev_Round := maxParentRound\<rparr>) d;
            allParentsAreRoot = list_all (\<lambda>q. ev_IsRoot (d_heap d1 q)) ps;
            d2 = (if allParentsAreRoot then upd_event p (\<lambda>e. e\<lparr>ev_Round := ev_Round e + 1\<rparr>) d1 else d1)
        in if DAG_isWitness (d_heap d2 p) d2
           then register_root x p (upd_event p (\<lambda>e. e\<lparr>ev_IsRoot := True\<rparr>) d2)
           else d2)"

definition DAG_AssignRound :: "crypto \<Rightarrow> eref \<Rightarrow> 'a dag_scheme \<Rightarrow> 'a dag_scheme outcome" where
  "DAG_AssignRound x p d =
     and_then (DAG_GetParents (d_heap d p) d) (\<lambda>(res, d').
       case res of Inl err \<Rightarrow> Returns d' | Inr ps \<Rightarrow> Returns (assign_with_parents x ps p d'))"

section \<open>Adding events\<close>

definition DAG_AddEvent ::
  "crypto \<Rightarrow> eref \<Rightarrow> 'a dag_scheme \<Rightarrow> (string option \<times> 'a dag_scheme) outcome" where
  "DAG_AddEvent x p =
     with_Lock d_mu set_d_mu (\<lambda>d.
       let (i, d1) = hash_ref x p d in
       if go_has (d_Events d1) i then Returns (Some ''event already exists'', d1)
       else and_then (DAG_AssignRound x p (d1\<lparr>d_Events := go_put i p (d_Events d1)\<rparr>))
              (\<lambda>d2. Returns (None, d2)))"

fun max_parent_height :: "(event_id, eref) gomap \<Rightarrow> (eref \<Rightarrow> event) \<Rightarrow> u64 \<Rightarrow> event_id list \<Rightarrow> u64" where
  "max_parent_height evs heap h [] = h"
| "max_parent_height evs heap h (pid # pids) =
     max_parent_height evs heap
       (case go_get evs pid of
          Some q \<Rightarrow> if ev_Height (heap q) > h then ev_Height (heap q) else h
        | None \<Rightarrow> h) pids"

text \<open>\<open>p\<close> is the address the allocation of the new event returns.\<close>

definition DAG_CreateAndAddEvent ::
  "crypto \<Rightarrow> eref \<Rightarrow> string \<Rightarrow> event_id list \<Rightarrow> u64 \<Rightarrow> u64 \<Rightarrow> transaction list \<Rightarrow>
   'a dag_scheme \<Rightarrow> ((string + eref) \<times> 'a dag_scheme) outcome" where
  "DAG_CreateAndAddEvent x p creatorID parents epoch lamport txs =
     with_Lock d_mu set_d_mu (\<lambda>d.
       let height = max_parent_height (d_Events d) (d_heap d) 0 parents + 1 in
       and_then (NewEvent x creatorID parents epoch lamport txs height) (\<lambda>e.
         let (i, d1) = hash_ref x p (upd_event p (\<lambda>_. e) d) in
         if go_has (d_Events d1) i then Returns (Inl ''event already exists'', d1)
         else and_then (DAG_AssignRound x p (d1\<lparr>d_Events := go_put i p (d_Events d1)\<rparr>))
                (\<lambda>d2. Returns (Inr p, d2))))"

section \<open>The round-assignment component\<close>

text \<open>
  \<open>round_assignment.go\<close> repeats the DAG's \<open>AssignRound\<close>, \<open>isWitness\<close> and
  \<open>ensureRound\<close> as methods of \<open>RoundAssignment\<close>, which only holds the DAG pointer.
\<close>

text \<open>Its own \<open>isWitness\<close>, a loop that ends at the first earlier event, and \<open>ensureRound\<close>.\<close>

fun RA_first :: "event \<Rightarrow> event list \<Rightarrow> bool" where
  "RA_first e [] = True"
| "RA_first e (other # es) =
     (if ev_CreatorID other = ev_CreatorID e \<and> ev_Round other = ev_Round e \<and> ev_Lamport other < ev_Lamport e
      then False else RA_first e es)"

definition RA_isWitness :: "event \<Rightarrow> 'a dag_scheme \<Rightarrow> bool" where
  "RA_isWitness e d = RA_first e (events_seq d)"

definition RA_ensureRound :: "u64 \<Rightarrow> 'a dag_scheme \<Rightarrow> 'a dag_scheme" where
  "RA_ensureRound r d =
     (if \<not> go_has (d_Rounds d) r then d\<lparr>d_Rounds := go_put r (new_round_info 0) (d_Rounds d)\<rparr> else d)"

lemma RA_same_helpers: "RA_isWitness e d = DAG_isWitness e d" "RA_ensureRound r d = DAG_ensureRound r d"
proof -
  have "RA_first e es = (\<not> list_ex (\<lambda>other. ev_CreatorID other = ev_CreatorID e \<and> ev_Round other = ev_Round e \<and>
      ev_Lamport other < ev_Lamport e) es)" for es
    by (induction es) simp_all
  then show "RA_isWitness e d = DAG_isWitness e d" by (simp add: RA_isWitness_def DAG_isWitness_def)
qed (simp add: RA_ensureRound_def DAG_ensureRound_def)

definition RA_AssignRound :: "crypto \<Rightarrow> eref \<Rightarrow> 'a dag_scheme \<Rightarrow> 'a dag_scheme outcome" where
  "RA_AssignRound x p d =
     and_then (DAG_GetParents (d_heap d p) d) (\<lambda>(res, d').
       case res of
         Inl err \<Rightarrow> Returns d'
       | Inr ps \<Rightarrow> Returns (assign_with_parents x ps p d'))"

fun RA_AssignRoundsForEvents :: "crypto \<Rightarrow> eref list \<Rightarrow> 'a dag_scheme \<Rightarrow> 'a dag_scheme outcome" where
  "RA_AssignRoundsForEvents x [] d = Returns d"
| "RA_AssignRoundsForEvents x (p # ps) d =
     and_then (RA_AssignRound x p d) (RA_AssignRoundsForEvents x ps)"

definition RA_GetWitnesses :: "u64 \<Rightarrow> 'a dag_scheme \<Rightarrow> eref list" where
  "RA_GetWitnesses r d =
     (case go_get (d_Rounds d) r of None \<Rightarrow> [] | Some ri \<Rightarrow> map snd (ri_Witnesses ri))"

definition RA_GetRoots :: "u64 \<Rightarrow> 'a dag_scheme \<Rightarrow> eref list" where
  "RA_GetRoots r d =
     (case go_get (d_Rounds d) r of None \<Rightarrow> [] | Some ri \<Rightarrow> map snd (ri_Roots ri))"

definition RA_GetRoundInfo :: "u64 \<Rightarrow> 'a dag_scheme \<Rightarrow> round_info option" where
  "RA_GetRoundInfo r d = go_get (d_Rounds d) r"

fun max_key :: "u64 \<Rightarrow> u64 list \<Rightarrow> u64" where
  "max_key m [] = m"
| "max_key m (r # rs) = max_key (if r > m then r else m) rs"

definition RA_GetLatestRound :: "'a dag_scheme \<Rightarrow> u64" where
  "RA_GetLatestRound d = max_key 0 (map fst (d_Rounds d))"

section \<open>Lemmas\<close>

named_theorems dag_frame "fields an operation on the DAG leaves alone"

lemma set_d_mu_fields [simp]:
  "d_heap (set_d_mu m d) = d_heap d" "d_Events (set_d_mu m d) = d_Events d"
  "d_Rounds (set_d_mu m d) = d_Rounds d" "d_Votes (set_d_mu m d) = d_Votes d"
  "events_seq (set_d_mu m d) = events_seq d" "parent_graph_of (set_d_mu m d) = parent_graph_of d"
  by (simp_all add: set_d_mu_def events_seq_def parent_graph_of_def)

lemma upd_event_fields [simp]:
  "d_heap (upd_event p f d) = (d_heap d)(p := f (d_heap d p))"
  "d_Events (upd_event p f d) = d_Events d" "d_Rounds (upd_event p f d) = d_Rounds d"
  "d_Votes (upd_event p f d) = d_Votes d" "d_mu (upd_event p f d) = d_mu d"
  by (simp_all add: upd_event_def)

lemma upd_event_set_d_mu: "upd_event p f (set_d_mu m d) = set_d_mu m (upd_event p f d)"
  by (simp add: upd_event_def set_d_mu_def)

text \<open>With the mutex free, or held by readers only, the locked reads are the plain reads.\<close>

lemma DAG_GetEvent_free [mutex_simps]:
  "\<not> rw_writer (d_mu d) \<Longrightarrow> DAG_GetEvent i d = Returns (go_get (d_Events d) i, d)"
  unfolding DAG_GetEvent_def by (subst dag_mu.RLock_pure_read) simp_all

lemma DAG_GetParents_free [mutex_simps]:
  "\<not> rw_writer (d_mu d) \<Longrightarrow>
   DAG_GetParents e d = Returns (collect_parents (d_Events d) (ev_Parents e), d)"
  unfolding DAG_GetParents_def by (subst dag_mu.RLock_pure_read) simp_all

lemma DAG_IsAncestor_free [mutex_simps]:
  "\<not> rw_writer (d_mu d) \<Longrightarrow>
   DAG_IsAncestor a b d = Returns (dfs_ancestor (parent_graph_of d) a b, d)"
  unfolding DAG_IsAncestor_def by (subst dag_mu.RLock_pure_read) simp_all

lemma DAG_AssignRound_held: "rw_writer (d_mu d) \<Longrightarrow> DAG_AssignRound x p d = Blocks"
  by (simp add: DAG_AssignRound_def DAG_GetParents_def dag_mu.RLock_under_write)

lemma RA_AssignRound_free [mutex_simps]:
  "\<not> rw_writer (d_mu d) \<Longrightarrow> RA_AssignRound x p d =
   (case collect_parents (d_Events d) (ev_Parents (d_heap d p)) of
      Inl err \<Rightarrow> Returns d | Inr ps \<Rightarrow> Returns (assign_with_parents x ps p d))"
  by (simp add: RA_AssignRound_def mutex_simps)

lemma collect_parents_Inr:
  "collect_parents evs pids = Inr ps \<longleftrightarrow> map (go_get evs) pids = map Some ps"
proof (induction pids arbitrary: ps)
  case Nil
  then show ?case by auto
next
  case (Cons pid pids)
  show ?case
  proof (cases "collect_parents evs pids")
    case (Inl e)
    then have "map (go_get evs) pids \<noteq> map Some qs" for qs using Cons.IH [of qs] by simp
    then show ?thesis using Inl by (cases ps) (auto split: option.splits)
  next
    case (Inr qs)
    then have "map (go_get evs) pids = map Some qs" using Cons.IH by simp
    then show ?thesis using Inr by (cases ps) (auto split: option.splits dest: map_injective)
  qed
qed

lemma collect_parents_Inl:
  "(\<exists>err. collect_parents evs pids = Inl err) \<longleftrightarrow> (\<exists>pid \<in> set pids. go_get evs pid = None)"
  by (induction pids) (auto split: option.splits sum.splits)

lemma max_parent_round_Max: "max_parent_round m es = Max (insert m (ev_Round ` set es))"
proof (induction es arbitrary: m)
  case Nil
  then show ?case by simp
next
  case (Cons e es)
  have "(if ev_Round e > m then ev_Round e else m) = max m (ev_Round e)" by (auto simp: max_def)
  then have "max_parent_round m (e # es) = Max (insert (max m (ev_Round e)) (ev_Round ` set es))"
    by (simp add: Cons.IH)
  also have "\<dots> = Max (insert m (ev_Round ` set (e # es)))"
    by (cases "es = []") (simp_all add: max.assoc)
  finally show ?case .
qed

lemma max_key_Max: "max_key m rs = Max (insert m (set rs))"
proof (induction rs arbitrary: m)
  case Nil
  then show ?case by simp
next
  case (Cons r rs)
  have "(if r > m then r else m) = max m r" by (auto simp: max_def)
  then show ?case by (cases "rs = []") (simp_all add: Cons.IH max.assoc)
qed

lemma ensureRound_fields [simp]:
  "d_heap (DAG_ensureRound r d) = d_heap d" "d_Events (DAG_ensureRound r d) = d_Events d"
  "d_mu (DAG_ensureRound r d) = d_mu d" "d_Votes (DAG_ensureRound r d) = d_Votes d"
  "events_seq (DAG_ensureRound r d) = events_seq d"
  by (simp_all add: DAG_ensureRound_def events_seq_def)

lemma ensureRound_get:
  "go_get (d_Rounds (DAG_ensureRound r d)) =
     (if go_has (d_Rounds d) r then go_get (d_Rounds d)
      else (go_get (d_Rounds d))(r \<mapsto> new_round_info 0))"
  by (simp add: DAG_ensureRound_def)

text \<open>The record a round is created with, or the one it has.\<close>

definition round_or_new :: "'a dag_scheme \<Rightarrow> u64 \<Rightarrow> round_info" where
  "round_or_new d r = (case go_get (d_Rounds d) r of None \<Rightarrow> new_round_info 0 | Some ri \<Rightarrow> ri)"

lemma hash_ref_eq:
  "hash_ref x p d = (hash_of x (d_heap d p), upd_event p (\<lambda>e. e\<lparr>ev_hash := Some (hash_of x e)\<rparr>) d)"
  by (simp add: hash_ref_def Event_Hash_pair upd_event_def)

lemma register_root_fields [simp]:
  "d_Events (register_root x p d) = d_Events d" "d_mu (register_root x p d) = d_mu d"
  "d_heap (register_root x p d) =
     (d_heap d)(p := (d_heap d p)\<lparr>ev_hash := Some (hash_of x (d_heap d p))\<rparr>)"
  by (simp_all add: register_root_def Let_def hash_ref_eq split: option.split)

lemma register_root_rounds:
  "go_get (d_Rounds (register_root x p d)) =
     (let r = ev_Round (d_heap d p); i = hash_of x (d_heap d p); ri = round_or_new d r in
      (go_get (d_Rounds d))(r \<mapsto> ri\<lparr>ri_Witnesses := go_put i p (ri_Witnesses ri),
                                     ri_Roots := go_put i p (ri_Roots ri)\<rparr>))"
  by (auto simp: register_root_def Let_def hash_ref_eq ensureRound_get round_or_new_def
      split: option.split)

lemma list_ex_events_seq:
  "list_ex P (events_seq d) \<longleftrightarrow> (\<exists>(i, q) \<in> set (d_Events d). P (d_heap d q))"
  by (auto simp: events_seq_def list_ex_iff split_beta image_iff)

text \<open>No other stored event of the same creator and round has a smaller Lamport time.\<close>

definition earliest_in_round :: "'a dag_scheme \<Rightarrow> eref \<Rightarrow> u64 \<Rightarrow> bool" where
  "earliest_in_round d p r \<longleftrightarrow>
     (\<forall>(i, q) \<in> set (d_Events d). q \<noteq> p \<longrightarrow>
        ev_CreatorID (d_heap d q) = ev_CreatorID (d_heap d p) \<longrightarrow> ev_Round (d_heap d q) = r \<longrightarrow>
        ev_Lamport (d_heap d p) \<le> ev_Lamport (d_heap d q))"

lemma isWitness_iff:
  "DAG_isWitness (d_heap d p) d \<longleftrightarrow> earliest_in_round d p (ev_Round (d_heap d p))"
  unfolding DAG_isWitness_def list_ex_events_seq earliest_in_round_def
  by (fastforce simp: not_less)

lemma earliest_upd_event:
  assumes "\<And>e. ev_CreatorID (f e) = ev_CreatorID e" and "\<And>e. ev_Lamport (f e) = ev_Lamport e"
  shows "earliest_in_round (upd_event p f d) p r = earliest_in_round d p r"
  unfolding earliest_in_round_def using assms by (auto split: prod.splits)

text \<open>The round \<open>AssignRound\<close> gives to an event with parents \<open>ps\<close>.\<close>

definition assigned_round :: "'a dag_scheme \<Rightarrow> eref list \<Rightarrow> u64" where
  "assigned_round d ps =
     (if ps = [] then 0
      else Max ((\<lambda>q. ev_Round (d_heap d q)) ` set ps) +
           (if \<forall>q \<in> set ps. ev_IsRoot (d_heap d q) then 1 else 0))"

lemma max_parent_round_heap:
  "ps \<noteq> [] \<Longrightarrow> max_parent_round 0 (map (d_heap d) ps) = Max ((\<lambda>q. ev_Round (d_heap d q)) ` set ps)"
  by (simp add: max_parent_round_Max image_image max_def)

text \<open>Everything \<open>assign_with_parents\<close> does, for an event that is not its own parent.\<close>

lemma assign_with_parents_effect:
  fixes d :: "'a dag_scheme"
  assumes "p \<notin> set ps"
  defines "r \<equiv> assigned_round d ps"
    and "wit \<equiv> ps = [] \<or> earliest_in_round d p (assigned_round d ps)"
    and "e' \<equiv> (d_heap d p)\<lparr>ev_Round := assigned_round d ps\<rparr>"
  shows "assign_with_parents x ps p d =
     (if wit then register_root x p (upd_event p (\<lambda>_. e'\<lparr>ev_IsRoot := True\<rparr>) d)
      else upd_event p (\<lambda>_. e') d)"
proof (cases "ps = []")
  case True
  then show ?thesis
    by (simp add: assign_with_parents_def wit_def e'_def assigned_round_def upd_event_def)
next
  case False
  let ?m = "max_parent_round 0 (map (d_heap d) ps)"
  let ?d1 = "upd_event p (\<lambda>e. e\<lparr>ev_Round := ?m\<rparr>) d"
  have roots: "list_all (\<lambda>q. ev_IsRoot (d_heap ?d1 q)) ps \<longleftrightarrow> (\<forall>q \<in> set ps. ev_IsRoot (d_heap d q))"
    using assms(1) by (auto simp: list_all_iff)
  have d2: "(if list_all (\<lambda>q. ev_IsRoot (d_heap ?d1 q)) ps
        then upd_event p (\<lambda>e. e\<lparr>ev_Round := ev_Round e + 1\<rparr>) ?d1 else ?d1) = upd_event p (\<lambda>_. e') d"
    unfolding roots using False max_parent_round_heap [OF False, of d]
    by (simp add: upd_event_def e'_def assigned_round_def)
  have "DAG_isWitness (d_heap (upd_event p (\<lambda>_. e') d) p) (upd_event p (\<lambda>_. e') d) \<longleftrightarrow> wit"
    unfolding isWitness_iff using False
    by (simp add: wit_def e'_def earliest_in_round_def split_beta)
  then show ?thesis
    unfolding assign_with_parents_def Let_def d2 using False by (simp add: upd_event_def)
qed

lemma assign_with_parents_frame [dag_frame]:
  "p \<notin> set ps \<Longrightarrow> d_Events (assign_with_parents x ps p d) = d_Events d"
  "p \<notin> set ps \<Longrightarrow> d_mu (assign_with_parents x ps p d) = d_mu d"
  "p \<notin> set ps \<Longrightarrow> q \<noteq> p \<Longrightarrow> d_heap (assign_with_parents x ps p d) q = d_heap d q"
  by (simp_all add: assign_with_parents_effect)

lemma DAG_AddEvent_free:
  assumes "d_mu d = unlocked"
  shows "DAG_AddEvent x p d =
    (if go_has (d_Events d) (hash_of x (d_heap d p))
     then Returns (Some ''event already exists'', snd (hash_ref x p d)) else Blocks)"
proof (cases "go_has (d_Events d) (hash_of x (d_heap d p))")
  case True
  let ?s = "snd (hash_ref x p (set_d_mu (unlocked\<lparr>rw_writer := True\<rparr>) d))"
  have "DAG_AddEvent x p d = Returns (Some ''event already exists'', set_d_mu unlocked ?s)"
    unfolding DAG_AddEvent_def
    by (rule dag_mu.Lock_returns [OF assms])
       (use True in \<open>simp_all add: hash_ref_eq Let_def\<close>)
  moreover have "set_d_mu unlocked ?s = snd (hash_ref x p (set_d_mu (d_mu d) d))"
    using assms by (simp add: hash_ref_eq set_d_mu_def upd_event_def)
  ultimately show ?thesis using True by simp
next
  case False
  then have "DAG_AddEvent x p d = Blocks" unfolding DAG_AddEvent_def
    by (intro dag_mu.Lock_then_blocks) (simp add: hash_ref_eq Let_def DAG_AssignRound_held set_d_mu_def)
  then show ?thesis using False by simp
qed

section \<open>Properties\<close>

text \<open>
  C34. \<open>DAG.AddEvent\<close> never returns on a new event: it takes the DAG's write lock and then calls
  \<open>AssignRound\<close>, whose \<open>GetParents\<close> asks for the read lock of the same mutex. Called with
  a free mutex it reports a duplicate and leaves events and rounds as they were, and blocks for
  ever in every other case.
\<close>

theorem dag_add_event_deadlocks:
  assumes "d_mu d = unlocked"
  shows "DAG_AddEvent x p d =
    (if go_has (d_Events d) (hash_of x (d_heap d p))
     then Returns (Some ''event already exists'', snd (hash_ref x p d)) else Blocks)"
  by (rule DAG_AddEvent_free [OF assms])

theorem dag_add_event_deadlocks_witness:
  "DAG_AddEvent sample_crypto 0 (NewDAG (\<lambda>_. zero_event)) = Blocks"
  using dag_add_event_deadlocks [of "NewDAG (\<lambda>_. zero_event)" sample_crypto 0]
  by (simp add: NewDAG_def)

text \<open>
  C6. What \<open>AssignRound\<close> computes. With all parents stored, the event not its own parent and the mutex not
  write-locked, it returns; the event's round is 0 without parents, else the largest parent round, plus one when
  all parents are roots (modulo \<open>2 ^ 64\<close>); the event becomes a root and is entered, under
  its hash, in the witness and root tables of that round exactly when it has no parents or no
  other stored event of its creator in that round has a smaller Lamport time; otherwise the
  round table is unchanged and its root flag keeps its value. No other event, no other
  round and no stored key changes.
\<close>

theorem assign_round_spec:
  assumes "\<not> rw_writer (d_mu d)"
    and "map (go_get (d_Events d)) (ev_Parents (d_heap d p)) = map Some ps"
    and "p \<notin> set ps"
  shows "\<exists>d'. RA_AssignRound x p d = Returns d' \<and>
    (let r = (if ps = [] then 0 else Max ((\<lambda>q. ev_Round (d_heap d q)) ` set ps) +
                (if \<forall>q \<in> set ps. ev_IsRoot (d_heap d q) then 1 else 0));
         wit = (ps = [] \<or> earliest_in_round d p r);
         e' = d_heap d' p
     in ev_Round e' = r \<and> ev_IsRoot e' = (wit \<or> ev_IsRoot (d_heap d p)) \<and>
        (wit \<longrightarrow> (\<exists>ri. go_get (d_Rounds d') r = Some ri \<and>
           go_get (ri_Witnesses ri) (hash_of x e') = Some p \<and> go_get (ri_Roots ri) (hash_of x e') = Some p)) \<and>
        (\<not> wit \<longrightarrow> d_Rounds d' = d_Rounds d) \<and>
        (\<forall>r'. r' \<noteq> r \<longrightarrow> go_get (d_Rounds d') r' = go_get (d_Rounds d) r')) \<and>
    (\<forall>q. q \<noteq> p \<longrightarrow> d_heap d' q = d_heap d q) \<and> d_Events d' = d_Events d"
proof -
  let ?d' = "assign_with_parents x ps p d"
  have run: "RA_AssignRound x p d = Returns ?d'"
    using assms(1,2) by (simp add: RA_AssignRound_free collect_parents_Inr [symmetric])
  show ?thesis
    by (rule exI [of _ ?d'], simp only: run Let_def assigned_round_def [symmetric]
        assign_with_parents_effect [OF assms(3)])
       (simp add: register_root_rounds Let_def)
qed

theorem assign_round_spec_witness:
  "\<exists>d'. RA_AssignRound sample_crypto 0 ((NewDAG (\<lambda>_. zero_event))\<lparr>d_Events := [(5, 0)]\<rparr>) = Returns d' \<and>
     ev_Round (d_heap d' 0) = 0 \<and> ev_IsRoot (d_heap d' 0)"
  using assign_round_spec [of "(NewDAG (\<lambda>_. zero_event))\<lparr>d_Events := [(5, 0)]\<rparr>" 0 "[]" sample_crypto]
  by (auto simp: NewDAG_def unlocked_def zero_event_def Let_def)

text \<open>
  \<open>AssignRound\<close> on an event with a missing parent changes nothing: the error of
  \<open>GetParents\<close> is dropped, the event keeps round 0 and is neither witness nor root.
\<close>

theorem assign_round_missing_parent:
  assumes "\<not> rw_writer (d_mu d)" and "pid \<in> set (ev_Parents (d_heap d p))"
    and "go_get (d_Events d) pid = None"
  shows "RA_AssignRound x p d = Returns d"
proof -
  obtain err where "collect_parents (d_Events d) (ev_Parents (d_heap d p)) = Inl err"
    using assms(2,3) collect_parents_Inl by blast
  then show ?thesis using assms(1) by (simp add: RA_AssignRound_free)
qed

theorem assign_round_missing_parent_witness:
  "RA_AssignRound sample_crypto 0 (NewDAG (\<lambda>_. zero_event\<lparr>ev_Parents := [3]\<rparr>)) =
   Returns (NewDAG (\<lambda>_. zero_event\<lparr>ev_Parents := [3]\<rparr>))"
  by (rule assign_round_missing_parent [where pid = 3])
     (simp_all add: NewDAG_def unlocked_def)

text \<open>
  C9. \<open>IsAncestor\<close> decides the reflexive transitive closure of the parent relation on the stored
  events: the search always ends, whatever cycles or missing parents the graph has, and with the
  mutex not write-locked it answers yes exactly when parent links lead from \<open>bID\<close> up to
  \<open>aID\<close>, leaving the DAG as it was.
\<close>

theorem dag_is_ancestor_correct:
  assumes "\<not> rw_writer (d_mu d)"
  shows "DAG_IsAncestor aID bID d = Returns (reaches_up (parent_graph_of d) bID aID, d) \<and>
    dfs (Suc (length (parent_graph_of d))) (parent_graph_of d) aID bID [] \<noteq> None"
  using assms dfs_ancestor_terminates [of "parent_graph_of d" aID bID]
  by (simp add: DAG_IsAncestor_free dag_anc.is_ancestor_iff del: dfs.simps)

theorem dag_is_ancestor_correct_witness:
  "DAG_IsAncestor 1 2 ((NewDAG (\<lambda>_. zero_event\<lparr>ev_Parents := [1]\<rparr>))\<lparr>d_Events := [(2, 0)]\<rparr>) =
   Returns (True, (NewDAG (\<lambda>_. zero_event\<lparr>ev_Parents := [1]\<rparr>))\<lparr>d_Events := [(2, 0)]\<rparr>)"
proof -
  let ?d = "(NewDAG (\<lambda>_. zero_event\<lparr>ev_Parents := [1]\<rparr>))\<lparr>d_Events := [(2, 0)]\<rparr>"
  have free: "\<not> rw_writer (d_mu ?d)" by (simp add: NewDAG_def unlocked_def)
  have "parent_of (parent_graph_of ?d) 2 1" by (simp add: parent_of_def parent_graph_of_def NewDAG_def)
  then show ?thesis using dag_is_ancestor_correct [OF free, of 1 2] by (simp add: r_into_rtranclp)
qed

end
