(* ===== verification/Go_Float64.thy ===== *)
theory Go_Float64
  imports Sinar_Prelude
begin

text \<open>
  The fragment of Go's \<open>float64\<close> (IEEE 754 binary64) that the consensus code uses on
  counters: conversion of a non-negative integer, division, multiplication, comparison and
  truncation. A finite value is \<open>m / 2 ^ k\<close>; a result is rounded to 53 bits, ties to even.
  Conversion is exact below \<open>2 ^ 53\<close>; counters of objects in memory stay far below.

  The main facts: the test \<open>float64(see) / float64(total) >= 2.0/3.0\<close> is the integer test
  \<open>3 * see \<ge> 2 * total\<close>, and \<open>int(float64(n) * (2.0/3.0))\<close> is \<open>2 * n div 3\<close>.
\<close>

section \<open>Values and operations\<close>

datatype f64 = F64_NaN | F64_Inf | F64 nat nat

text \<open>Round half to even.\<close>

definition rne :: "nat \<Rightarrow> nat \<Rightarrow> nat" where
  "rne a b = (let q = a div b; r = a mod b in
     if 2 * r < b \<or> (2 * r = b \<and> even q) then q else Suc q)"

text \<open>The least scaling that brings the quotient up to 53 significant bits.\<close>

function norm_shift :: "nat \<Rightarrow> nat \<Rightarrow> nat" where
  "norm_shift a b =
     (if a = 0 \<or> 2 ^ 52 * b \<le> a then 0 else Suc (norm_shift (2 * a) b))"
  by pat_completeness auto
termination
  by (relation "measure (\<lambda>(a, b). 2 ^ 52 * b - a)") auto

declare norm_shift.simps [simp del]

definition f64_ratio :: "nat \<Rightarrow> nat \<Rightarrow> f64" where
  "f64_ratio a b =
     (if a = 0 then F64 0 0
      else let k = norm_shift a b in F64 (rne (a * 2 ^ k) b) k)"

definition f64_of_nat :: "nat \<Rightarrow> f64" where
  "f64_of_nat n = F64 n 0"

fun f64_div :: "f64 \<Rightarrow> f64 \<Rightarrow> f64" where
  "f64_div (F64 a i) (F64 b j) =
     (if b = 0 then (if a = 0 then F64_NaN else F64_Inf)
      else f64_ratio (a * 2 ^ j) (b * 2 ^ i))"
| "f64_div F64_Inf (F64 b j) = F64_Inf"
| "f64_div (F64 a i) F64_Inf = F64 0 0"
| "f64_div _ _ = F64_NaN"

fun f64_mul :: "f64 \<Rightarrow> f64 \<Rightarrow> f64" where
  "f64_mul (F64 a i) (F64 b j) = f64_ratio (a * b) (2 ^ (i + j))"
| "f64_mul F64_Inf (F64 b j) = (if b = 0 then F64_NaN else F64_Inf)"
| "f64_mul (F64 a i) F64_Inf = (if a = 0 then F64_NaN else F64_Inf)"
| "f64_mul F64_Inf F64_Inf = F64_Inf"
| "f64_mul _ _ = F64_NaN"

fun f64_ge :: "f64 \<Rightarrow> f64 \<Rightarrow> bool" where
  "f64_ge (F64 a i) (F64 b j) \<longleftrightarrow> b * 2 ^ i \<le> a * 2 ^ j"
| "f64_ge F64_Inf (F64 b j) \<longleftrightarrow> True"
| "f64_ge F64_Inf F64_Inf \<longleftrightarrow> True"
| "f64_ge _ _ \<longleftrightarrow> False"

text \<open>Go's conversion to \<open>int\<close> drops the fraction; it is unspecified on NaN and Inf.\<close>

fun f64_trunc :: "f64 \<Rightarrow> nat option" where
  "f64_trunc (F64 a i) = Some (a div 2 ^ i)"
| "f64_trunc _ = None"

text \<open>The constant \<open>2.0 / 3.0\<close>.\<close>

definition two_thirds :: f64 where
  "two_thirds = F64 6004799503160661 53"

section \<open>Rounding\<close>

lemma rne_quotient:
  "a = q * b + r \<Longrightarrow> r < b \<Longrightarrow>
     rne a b = (if 2 * r < b \<or> (2 * r = b \<and> even q) then q else Suc q)"
  by (simp add: rne_def Let_def)

lemma rne_lower: "0 < b \<Longrightarrow> n * b \<le> a \<Longrightarrow> n \<le> rne a b"
proof -
  assume "0 < b" "n * b \<le> a"
  then have "n \<le> a div b" by (simp add: less_eq_div_iff_mult_less_eq)
  then show ?thesis by (simp add: rne_def Let_def)
qed

lemma rne_upper: "0 < b \<Longrightarrow> a \<le> n * b \<Longrightarrow> rne a b \<le> n"
proof -
  assume b: "0 < b" and a: "a \<le> n * b"
  then have q: "a div b \<le> n" by (metis div_le_mono nonzero_mult_div_cancel_right less_numeral_extra(3))
  show ?thesis
  proof (cases "a div b = n")
    case True
    then have "a mod b = 0" using a b
      by (metis add_le_same_cancel1 div_mult_mod_eq le_zero_eq)
    then show ?thesis using b True by (simp add: rne_def)
  next
    case False
    then show ?thesis using q by (simp add: rne_def Let_def)
  qed
qed

lemma rne_near: "0 < b \<Longrightarrow> 2 * (rne a b * b) \<le> 2 * a + b"
proof -
  assume b: "0 < b"
  define q r where "q = a div b" and "r = a mod b"
  have a: "a = q * b + r" by (simp add: q_def r_def)
  have rne: "rne a b = (if 2 * r < b \<or> 2 * r = b \<and> even q then q else Suc q)"
    by (simp add: rne_def q_def r_def Let_def)
  then show ?thesis by (auto simp: a)
qed

lemma norm_shift_lower: "0 < a \<Longrightarrow> 2 ^ 52 * b \<le> a * 2 ^ norm_shift a b"
proof (induction a b rule: norm_shift.induct)
  case (1 a b)
  show ?case
  proof (cases "2 ^ 52 * b \<le> a")
    case True
    then show ?thesis by (simp add: norm_shift.simps [of a b])
  next
    case False
    then have "2 ^ 52 * b \<le> 2 * a * 2 ^ norm_shift (2 * a) b" using "1.IH" "1.prems" by simp
    then show ?thesis using False "1.prems" by (simp add: norm_shift.simps [of a b] algebra_simps)
  qed
qed

lemma norm_shift_upper: "0 < norm_shift a b \<Longrightarrow> a * 2 ^ norm_shift a b < 2 ^ 53 * b"
proof (induction a b rule: norm_shift.induct)
  case (1 a b)
  have g: "\<not> (a = 0 \<or> 2 ^ 52 * b \<le> a)" using "1.prems"
    by (auto simp: norm_shift.simps [of a b] split: if_splits)
  show ?case
  proof (cases "norm_shift (2 * a) b")
    case 0
    then have "norm_shift a b = 1" using g by (simp add: norm_shift.simps [of a b])
    then show ?thesis using g by simp
  next
    case (Suc k)
    then have "2 * a * 2 ^ norm_shift (2 * a) b < 2 ^ 53 * b" using "1.IH" g by simp
    then show ?thesis using g by (simp add: norm_shift.simps [of a b] algebra_simps)
  qed
qed

lemma norm_shift_pos: "0 < a \<Longrightarrow> a < 2 ^ 52 * b \<Longrightarrow> 0 < norm_shift a b"
  by (subst norm_shift.simps) simp

lemma norm_shift_unique:
  assumes "0 < a" "0 < k" "2 ^ 52 * b \<le> a * 2 ^ k" "a * 2 ^ k < 2 ^ 53 * b"
  shows "norm_shift a b = k"
proof -
  let ?n = "norm_shift a b"
  have "a * 2 ^ (k - 1) * 2 < 2 ^ 52 * b * 2" using assms(2,4)
    by (cases k) (simp_all add: algebra_simps)
  then have below: "a * 2 ^ (k - 1) < 2 ^ 52 * b" by simp
  have "\<not> ?n < k"
  proof
    assume "?n < k"
    then have "a * 2 ^ ?n \<le> a * 2 ^ (k - 1)" by (intro mult_le_mono2 power_increasing) auto
    then show False using below norm_shift_lower [OF assms(1), of b] by linarith
  qed
  moreover have "\<not> k < ?n"
  proof
    assume "k < ?n"
    then have "a * 2 ^ Suc k \<le> a * 2 ^ ?n" by (intro mult_le_mono2 power_increasing) auto
    moreover have "a * 2 ^ Suc k = 2 * (a * 2 ^ k)" by simp
    ultimately have "2 * (2 ^ 52 * b) \<le> a * 2 ^ ?n" using assms(3) by linarith
    moreover have "a * 2 ^ ?n < 2 ^ 53 * b" using \<open>k < ?n\<close> by (intro norm_shift_upper) simp
    ultimately show False by simp
  qed
  ultimately show ?thesis by simp
qed

lemma two_thirds_correct: "f64_div (f64_of_nat 2) (f64_of_nat 3) = two_thirds"
proof -
  have "norm_shift 2 3 = 53" by (rule norm_shift_unique) auto
  then show ?thesis
    by (simp add: f64_of_nat_def f64_ratio_def rne_def two_thirds_def)
qed

section \<open>The two thresholds of the consensus code\<close>

text \<open>
  A ratio below two thirds is below it by more than the rounding error, as long as the
  denominator is below \<open>2 ^ 50\<close>.
\<close>

lemma ratio_mid_below:
  assumes "2 * t \<le> 3 * s + s" and "3 * s < 2 * t" and "t < 2 ^ 50" and "0 < t"
  shows "rne (s * 2 ^ 53) t < 6004799503160661"
proof -
  let ?m = "rne (s * 2 ^ 53) t"
  have near: "2 * (?m * t) \<le> 2 * (s * 2 ^ 53) + t" by (rule rne_near [OF \<open>0 < t\<close>])
  have "3 * s + 1 \<le> 2 * t" using assms(2) by simp
  then have "2 * (3 * s + 1) * 2 ^ 53 \<le> 2 * (2 * t) * 2 ^ 53" by (intro mult_le_mono) auto
  then have "6 * (?m * t) + 2 * 2 ^ 53 \<le> 2 * (2 * t) * 2 ^ 53 + 3 * t" using near by simp
  then have "6 * (?m * t) < (2 * (2 * 2 ^ 53) + 3) * t - 2 * 2 ^ 53 + 1" using assms(4) by simp
  moreover have "2 * 2 ^ 53 > 16 * t" using assms(3) by simp
  ultimately have "6 * (?m * t) < (2 * (2 * 2 ^ 53)) * t - 13 * t + 1" by simp
  then have below: "6 * (?m * t) < 36028797018963955 * t + 1" by simp
  show ?thesis
  proof (rule ccontr)
    assume "\<not> ?m < 6004799503160661"
    then have "6004799503160661 * t \<le> ?m * t" by (intro mult_le_mono1) simp
    then show False using below assms(4) by linarith
  qed
qed

lemma ratio_ge_two_thirds:
  assumes "s \<le> t" and "0 < t" and "t < 2 ^ 50"
  shows "f64_ge (f64_div (f64_of_nat s) (f64_of_nat t)) two_thirds \<longleftrightarrow> 2 * t \<le> 3 * s"
proof (cases "s = 0")
  case True
  then show ?thesis using assms by (simp add: f64_of_nat_def f64_ratio_def two_thirds_def)
next
  case False
  let ?k = "norm_shift s t"
  let ?m = "rne (s * 2 ^ ?k) t"
  have div: "f64_div (f64_of_nat s) (f64_of_nat t) = F64 ?m ?k"
    using False assms by (simp add: f64_of_nat_def f64_ratio_def Let_def)
  have ge: "f64_ge (F64 ?m ?k) two_thirds \<longleftrightarrow> 6004799503160661 * 2 ^ ?k \<le> ?m * 2 ^ 53"
    by (simp add: two_thirds_def)
  consider (eq) "s = t" | (mid) "s < t" "t \<le> 2 * s" | (low) "2 * s < t"
    using assms(1) by linarith
  then show ?thesis
  proof cases
    case eq
    have "?k = 52" by (rule norm_shift_unique) (use eq False in auto)
    then show ?thesis using eq ge div rne_lower [of t "2 ^ 52" "s * 2 ^ 52"] assms by simp
  next
    case mid
    have k: "?k = 53" by (rule norm_shift_unique) (use mid False in auto)
    show ?thesis
    proof
      assume "2 * t \<le> 3 * s"
      then have "6004799503160661 * t \<le> s * 2 ^ 53" by simp
      then have "6004799503160661 \<le> ?m" using k rne_lower [OF assms(2)] by metis
      then show "f64_ge (f64_div (f64_of_nat s) (f64_of_nat t)) two_thirds"
        using k ge div by simp
    next
      assume "f64_ge (f64_div (f64_of_nat s) (f64_of_nat t)) two_thirds"
      then have "6004799503160661 \<le> ?m" using k ge div by simp
      moreover have "2 * t \<le> 3 * s + s" using mid by simp
      ultimately have "\<not> 3 * s < 2 * t"
        using ratio_mid_below [of t s] k assms(2,3) by (metis leD)
      then show "2 * t \<le> 3 * s" by simp
    qed
  next
    case low
    have k: "54 \<le> ?k"
    proof (rule ccontr)
      assume "\<not> 54 \<le> ?k"
      then have "s * 2 ^ ?k \<le> s * 2 ^ 53" by (intro mult_le_mono2 power_increasing) auto
      then have "2 ^ 52 * t \<le> s * 2 ^ 53" using norm_shift_lower [of s t] False by linarith
      then show False using low by simp
    qed
    have "?m \<le> 2 ^ 53"
      by (rule rne_upper) (use k assms norm_shift_upper [of s t] in simp_all)
    then have "?m * 2 ^ 53 \<le> 2 ^ 106" by simp
    moreover have "(2::nat) ^ 54 \<le> 2 ^ ?k" using k by (intro power_increasing) auto
    then have "(6004799503160661::nat) * 2 ^ 54 \<le> 6004799503160661 * 2 ^ ?k" by (intro mult_le_mono) auto
    ultimately have "\<not> 6004799503160661 * 2 ^ ?k \<le> ?m * 2 ^ 53" by simp
    then show ?thesis using low ge div by simp
  qed
qed

lemma rne_exact_multiple:
  assumes "0 < N" and "N \<le> 2 ^ 52"
  shows "rne (N * (2 ^ 54 - 1)) (2 ^ 53) = 2 * N"
proof -
  have e: "N * (2 ^ 54 - 1) = (2 * N - 1) * 2 ^ 53 + (2 ^ 53 - N)"
    using assms by (simp add: algebra_simps diff_mult_distrib)
  have r: "2 ^ 53 - N < 2 ^ 53" using assms(1) by simp
  have "\<not> 2 * (2 ^ 53 - N) < 2 ^ 53" using assms(2) by simp
  moreover have "odd (2 * N - 1)" using assms(1) by simp
  ultimately show ?thesis using assms(1) rne_quotient [OF e r] by (simp del: mult_numeral_1_right)
qed

lemma rne_scaled_lower:
  assumes "f * B \<le> a" and "0 < B"
  shows "P * f \<le> rne (a * P) B"
proof -
  have "P * (f * B) \<le> P * a" using assms(1) by (rule mult_le_mono2)
  then have "(P * f) * B \<le> a * P" by (simp add: ac_simps)
  then show ?thesis by (rule rne_lower [OF assms(2)])
qed

lemma rne_scaled_upper:
  assumes "3 * a \<le> (3 * f + 2) * B" and "0 < B" and "0 < K"
  shows "rne (a * (2 * K)) B < 2 * K * (f + 1)"
proof -
  let ?m = "rne (a * (2 * K)) B"
  have "2 * (?m * B) \<le> 2 * (a * (2 * K)) + B" by (rule rne_near [OF assms(2)])
  moreover have "3 * a * (2 * K) \<le> (3 * f + 2) * B * (2 * K)"
    using assms(1) by (rule mult_le_mono1)
  ultimately have "6 * ?m * B \<le> (12 * (K * f) + 8 * K + 3) * B" by (simp add: algebra_simps)
  then have "6 * ?m \<le> 12 * (K * f) + 8 * K + 3" using assms(2) by simp
  then have "?m < 2 * (K * f) + 2 * K" using assms(3) by linarith
  then show ?thesis by (simp add: algebra_simps)
qed

text \<open>Truncating \<open>n * (2.0/3.0)\<close> rounds two thirds of \<open>n\<close> down.\<close>

lemma trunc_two_thirds:
  assumes "n < 2 ^ 50"
  shows "f64_trunc (f64_mul (f64_of_nat n) two_thirds) = Some (2 * n div 3)"
proof (cases "n = 0")
  case True
  then show ?thesis by (simp add: f64_of_nat_def f64_ratio_def two_thirds_def)
next
  case False
  let ?T = "6004799503160661 :: nat" and ?b = "2 ^ 53 :: nat"
  let ?a = "n * ?T"
  let ?k = "norm_shift ?a ?b"
  let ?m = "rne (?a * 2 ^ ?k) ?b"
  let ?f = "2 * n div 3"
  have mul: "f64_mul (f64_of_nat n) two_thirds = F64 ?m ?k"
    using False by (simp add: f64_of_nat_def f64_ratio_def two_thirds_def Let_def)
  have kpos: "0 < ?k" by (rule norm_shift_pos) (use False assms in auto)
  have aub: "?a * 2 ^ ?k < 2 ^ 53 * ?b" by (rule norm_shift_upper [OF kpos])
  have low: "2 ^ ?k * ?f \<le> ?m"
  proof (cases "n mod 3 = 0")
    case True
    define j where "j = n div 3"
    have n: "n = 3 * j" and jpos: "0 < j" using True False by (auto simp: j_def)
    have e: "?a * 2 ^ ?k = (j * 2 ^ ?k) * (2 ^ 54 - 1)" by (simp add: n)
    have "(j * 2 ^ ?k) * (2 ^ 54 - 1) < 2 ^ 106" using aub e by simp
    then have "j * 2 ^ ?k \<le> 2 ^ 52" by simp
    then have "?m = 2 * (j * 2 ^ ?k)" unfolding e using jpos by (intro rne_exact_multiple) simp_all
    then show ?thesis by (simp add: n)
  next
    case False
    have "3 * ?f + 1 \<le> 2 * n"
      using False by presburger
    then have "?f * ?b \<le> ?a" using assms by simp
    then show ?thesis by (rule rne_scaled_lower) simp
  qed
  have high: "?m < 2 ^ ?k * (?f + 1)"
  proof -
    obtain K where K: "(2::nat) ^ ?k = 2 * K" and Kpos: "0 < K"
      using kpos by (cases ?k) auto
    have "2 * n \<le> 3 * ?f + 2" by presburger
    then have "3 * ?a \<le> (3 * ?f + 2) * ?b" by simp
    then show ?thesis unfolding K by (rule rne_scaled_upper) (simp_all add: Kpos)
  qed
  have "?m div 2 ^ ?k = ?f"
    by (rule div_nat_eqI) (use low high in \<open>simp_all add: mult.commute\<close>)
  then show ?thesis by (simp add: mul)
qed

end
