(* ===== verification/Quorum.thy ===== *)
theory Quorum
  imports Go_Float64
begin

text \<open>
  The interface between the consensus components and their threshold test. A component only
  asks whether \<open>see\<close> out of \<open>tot\<close> reaches the Byzantine threshold; what it relies on is
  that this is the exact two-thirds test. The provider is the \<open>float64\<close> comparison
  of the code, \<open>ratio_at_least\<close>.
\<close>

text \<open>\<open>float64(see) / float64(tot) >= thr\<close>\<close>

definition ratio_at_least :: "f64 \<Rightarrow> nat \<Rightarrow> nat \<Rightarrow> bool" where
  "ratio_at_least thr see tot \<longleftrightarrow> f64_ge (f64_div (f64_of_nat see) (f64_of_nat tot)) thr"

locale quorum_test =
  fixes reaches :: "nat \<Rightarrow> nat \<Rightarrow> bool"
    and capacity :: nat
  assumes reaches_iff:
      "see \<le> tot \<Longrightarrow> 0 < tot \<Longrightarrow> tot < capacity \<Longrightarrow> reaches see tot \<longleftrightarrow> 2 * tot \<le> 3 * see"
    and reaches_empty: "\<not> reaches 0 0"
begin

lemma reaches_all: "0 < tot \<Longrightarrow> tot < capacity \<Longrightarrow> reaches tot tot"
  by (simp add: reaches_iff)

lemma reaches_mono:
  "reaches see tot \<Longrightarrow> see \<le> see' \<Longrightarrow> see' \<le> tot \<Longrightarrow> 0 < tot \<Longrightarrow> tot < capacity \<Longrightarrow>
   reaches see' tot"
  by (simp add: reaches_iff)

text \<open>Two sets that reach the threshold among the same events share a third of them.\<close>

lemma reaches_intersect:
  assumes "finite E" "A \<subseteq> E" "B \<subseteq> E" "E \<noteq> {}" "card E < capacity"
    and "reaches (card A) (card E)" "reaches (card B) (card E)"
  shows "card E \<le> 3 * card (A \<inter> B)"
proof -
  have pos: "0 < card E" using assms(1,4) by (simp add: card_gt_0_iff)
  have "card A \<le> card E" "card B \<le> card E" using assms(1,2,3) by (simp_all add: card_mono)
  then have "2 * card E \<le> 3 * card A" "2 * card E \<le> 3 * card B"
    using reaches_iff assms(5,6,7) pos by blast+
  moreover have "card A + card B = card (A \<union> B) + card (A \<inter> B)"
    using assms(1,2,3) by (intro card_Un_Int) (auto intro: finite_subset)
  moreover have "card (A \<union> B) \<le> card E" using assms(1,2,3) by (intro card_mono) auto
  ultimately show ?thesis by linarith
qed

end

interpretation bft: quorum_test "ratio_at_least two_thirds" "2 ^ 50"
proof
  fix see tot :: nat
  assume "see \<le> tot" "0 < tot" "tot < 2 ^ 50"
  then show "ratio_at_least two_thirds see tot \<longleftrightarrow> 2 * tot \<le> 3 * see"
    unfolding ratio_at_least_def by (rule ratio_ge_two_thirds)
next
  show "\<not> ratio_at_least two_thirds 0 0"
    by (simp add: ratio_at_least_def f64_of_nat_def two_thirds_def)
qed

end
