(* ===== verification/Go_Format.thy ===== *)
theory Go_Format
  imports Sinar_Prelude "HOL-Library.Char_ord"
begin

text \<open>
  The two verbs of \<open>fmt.Sprintf\<close> that build map keys: \<open>%x\<close> of a 32-byte array (64
  lower-case hexadecimal digits) and \<open>%d\<close> of an unsigned integer. The vote key
  \<open>"%x_%d"\<close> is injective, so two votes share a key only if they are for the same witness
  in the same round.
\<close>

definition hex_digit :: "nat \<Rightarrow> char" where
  "hex_digit n = char_of (if n < 10 then 48 + n else 87 + n)"

fun hex_fixed :: "nat \<Rightarrow> nat \<Rightarrow> string" where
  "hex_fixed 0 n = []"
| "hex_fixed (Suc k) n = hex_fixed k (n div 16) @ [hex_digit (n mod 16)]"

fun dec :: "nat \<Rightarrow> string" where
  "dec n = (if n < 10 then [hex_digit n] else dec (n div 10) @ [hex_digit (n mod 10)])"

declare dec.simps [simp del]

definition vote_key :: "event_id \<Rightarrow> u64 \<Rightarrow> string" where
  "vote_key w r = hex_fixed 64 (unat w) @ ''_'' @ dec (unat r)"

lemma hex_digit_inj: "m < 16 \<Longrightarrow> n < 16 \<Longrightarrow> hex_digit m = hex_digit n \<Longrightarrow> m = n"
proof -
  assume lt: "m < 16" "n < 16" and eq: "hex_digit m = hex_digit n"
  have "of_char (hex_digit k) = (if k < 10 then 48 + k else 87 + k)" if "k < 16" for k :: nat
    using that by (simp add: hex_digit_def)
  then have "(if m < 10 then 48 + m else 87 + m) = (if n < 10 then 48 + n else 87 + n)"
    using lt eq by metis
  then show ?thesis using lt by (auto split: if_splits)
qed

lemma length_hex_fixed [simp]: "length (hex_fixed k n) = k"
  by (induction k arbitrary: n) simp_all

lemma hex_fixed_inj:
  "m < 16 ^ k \<Longrightarrow> n < 16 ^ k \<Longrightarrow> hex_fixed k m = hex_fixed k n \<Longrightarrow> m = n"
proof (induction k arbitrary: m n)
  case 0
  then show ?case by simp
next
  case (Suc k)
  then have d: "hex_digit (m mod 16) = hex_digit (n mod 16)"
    and h: "hex_fixed k (m div 16) = hex_fixed k (n div 16)" by simp_all
  have "m div 16 < 16 ^ k" "n div 16 < 16 ^ k"
    using Suc.prems(1,2) by (simp_all add: less_mult_imp_div_less mult.commute)
  then have "m div 16 = n div 16" using Suc.IH h by blast
  moreover have "m mod 16 = n mod 16" using d by (intro hex_digit_inj) simp_all
  ultimately show ?case by (metis div_mult_mod_eq)
qed

lemma dec_nonempty: "dec n \<noteq> []"
  by (subst dec.simps) simp

lemma dec_single: "length (dec n) = 1 \<longleftrightarrow> n < 10"
proof (cases "n < 10")
  case True
  then show ?thesis by (simp add: dec.simps [of n])
next
  case False
  then show ?thesis by (simp add: dec.simps [of n] dec_nonempty)
qed

lemma dec_inj: "dec m = dec n \<Longrightarrow> m = n"
proof (induction m arbitrary: n rule: dec.induct)
  case (1 m)
  show ?case
  proof (cases "m < 10")
    case True
    then have "length (dec n) = 1" using "1.prems" dec_single by metis
    then have "n < 10" by (simp only: dec_single)
    then show ?thesis using "1.prems" True hex_digit_inj by (simp add: dec.simps [of m] dec.simps [of n])
  next
    case False
    then have n: "\<not> n < 10" using "1.prems" dec_single by metis
    then have d: "hex_digit (m mod 10) = hex_digit (n mod 10)" and h: "dec (m div 10) = dec (n div 10)"
      using "1.prems" False by (simp_all add: dec.simps [of m] dec.simps [of n])
    have "m mod 10 < 16" "n mod 10 < 16" by (rule order_less_trans [of _ 10], simp_all)+
    then have "m mod 10 = n mod 10" using d hex_digit_inj by blast
    moreover have "m div 10 = n div 10" using "1.IH" [OF False h] .
    ultimately show ?thesis by (metis div_mult_mod_eq)
  qed
qed

lemma vote_key_inj: "vote_key w r = vote_key w' r' \<longleftrightarrow> w = w' \<and> r = r'"
proof
  assume "vote_key w r = vote_key w' r'"
  then have h: "hex_fixed 64 (unat w) = hex_fixed 64 (unat w')" and d: "dec (unat r) = dec (unat r')"
    by (simp_all add: vote_key_def)
  have lt: "unat v < 16 ^ 64" for v :: event_id
    using unsigned_less [of v, where ?'a = nat] by simp
  have "unat w = unat w'" by (rule hex_fixed_inj [OF lt lt h])
  moreover have "unat r = unat r'" by (rule dec_inj [OF d])
  ultimately show "w = w' \<and> r = r'" by (simp add: word_eq_iff_unsigned [where ?'a = nat])
qed simp

end
