(* ===== verification/Fame_Voting.thy ===== *)
theory Fame_Voting
  imports Dag Quorum Go_Format
begin

text \<open>
  \<open>fame_voting.go\<close>: witnesses of a round, the vote on each, and the decision that makes a
  witness famous.

  The DAG is read through its own mutex, which no caller in this component holds, so the
  locked reads of \<open>canSee\<close> are the plain ones (\<open>canSee_locked_reads\<close>). The component's
  own mutex is modelled: \<open>StartFameVoting\<close> holds it while it calls \<open>decideRound\<close>, which
  takes it again. Maps of bool answer false for a missing key.
\<close>

section \<open>State\<close>

record fame_voting =
  fv_mu :: rwmutex
  fv_votes :: "(string, vote) gomap"
  fv_voteCount :: "(string, int) gomap"
  fv_witnesses :: "(u64, (event_id, eref) gomap) gomap"
  fv_rounds :: "(u64, round_info) gomap"
  fv_famousWitnesses :: "(event_id, bool) gomap"
  fv_decidedRounds :: "(u64, bool) gomap"
  fv_byzantineThreshold :: f64
  fv_minVoteCount :: int

definition NewFameVoting :: fame_voting where
  "NewFameVoting = \<lparr>fv_mu = unlocked, fv_votes = [], fv_voteCount = [], fv_witnesses = [],
     fv_rounds = [], fv_famousWitnesses = [], fv_decidedRounds = [],
     fv_byzantineThreshold = two_thirds, fv_minVoteCount = 3\<rparr>"

definition set_fv_mu :: "rwmutex \<Rightarrow> fame_voting \<Rightarrow> fame_voting" where
  "set_fv_mu m fv = fv\<lparr>fv_mu := m\<rparr>"

interpretation fv_mutex: mutex_field fv_mu set_fv_mu
  by unfold_locales (simp_all add: set_fv_mu_def)

definition go_true :: "('k, bool) gomap \<Rightarrow> 'k \<Rightarrow> bool" where
  "go_true m k \<longleftrightarrow> go_get m k = Some True"

section \<open>Visibility\<close>

definition FV_canSee :: "event_id \<Rightarrow> event_id \<Rightarrow> 'a dag_scheme \<Rightarrow> bool" where
  "FV_canSee eventA eventB d =
     (case (go_get (d_Events d) eventA, go_get (d_Events d) eventB) of
        (Some a, Some b) \<Rightarrow>
          (if ev_Round (d_heap d a) = ev_Round (d_heap d b) then True
           else if ev_Round (d_heap d a) = ev_Round (d_heap d b) + 1
           then dfs_ancestor (parent_graph_of d) eventB eventA
           else False)
      | _ \<Rightarrow> False)"

lemma canSee_locked_reads:
  assumes "\<not> rw_writer (d_mu d)"
  shows "and_then (DAG_GetEvent eventA d) (\<lambda>(oa, d1). and_then (DAG_GetEvent eventB d1) (\<lambda>(ob, d2).
     case (oa, ob) of
       (Some a, Some b) \<Rightarrow>
         (if ev_Round (d_heap d2 a) = ev_Round (d_heap d2 b) then Returns (True, d2)
          else if ev_Round (d_heap d2 a) = ev_Round (d_heap d2 b) + 1 then DAG_IsAncestor eventB eventA d2
          else Returns (False, d2))
     | _ \<Rightarrow> Returns (False, d2))) = Returns (FV_canSee eventA eventB d, d)"
  using assms by (simp add: mutex_simps FV_canSee_def split: option.split)

section \<open>Witnesses\<close>

definition FV_isWitness :: "event \<Rightarrow> u64 \<Rightarrow> 'a dag_scheme \<Rightarrow> bool" where
  "FV_isWitness event r d \<longleftrightarrow>
     r = 0 \<or>
     \<not> list_ex (\<lambda>other. ev_CreatorID other = ev_CreatorID event \<and> ev_Round other = r \<and>
                 ev_Lamport other < ev_Lamport event) (events_seq d)"

text \<open>\<open>m := make(map); for _, e := range Events \{ if c(e) \{ m[e.Hash()] = e \} \}\<close>\<close>

fun collect_events ::
  "crypto \<Rightarrow> (event \<Rightarrow> bool) \<Rightarrow> (eref \<Rightarrow> event) \<Rightarrow> (event_id, eref) gomap \<Rightarrow>
   (event_id, eref) gomap \<Rightarrow> (event_id, eref) gomap" where
  "collect_events x c heap [] m = m"
| "collect_events x c heap ((i, p) # evs) m =
     collect_events x c heap evs (if c (heap p) then go_put (hash_of x (heap p)) p m else m)"

definition FV_getWitnesses :: "crypto \<Rightarrow> u64 \<Rightarrow> 'a dag_scheme \<Rightarrow> (event_id, eref) gomap" where
  "FV_getWitnesses x r d =
     collect_events x (\<lambda>e. ev_Round e = r \<and> FV_isWitness e r d) (d_heap d) (d_Events d) []"

definition FV_getFamousWitnesses ::
  "crypto \<Rightarrow> u64 \<Rightarrow> 'a dag_scheme \<Rightarrow> fame_voting \<Rightarrow> (event_id, eref) gomap" where
  "FV_getFamousWitnesses x r d fv =
     collect_events x (\<lambda>e. ev_Round e = r \<and> go_true (fv_famousWitnesses fv) (hash_of x e))
       (d_heap d) (d_Events d) []"

section \<open>Votes and decisions\<close>

definition FV_calculateVoteFantom ::
  "crypto \<Rightarrow> event_id \<Rightarrow> u64 \<Rightarrow> u64 \<Rightarrow> 'a dag_scheme \<Rightarrow> fame_voting \<Rightarrow> vote" where
  "FV_calculateVoteFantom x witnessID r now d fv =
     (let totalEvents = count_if (\<lambda>e. ev_Round e = r) (events_seq d);
          seeCount = count_if (\<lambda>e. ev_Round e = r \<and> FV_canSee (hash_of x e) witnessID d) (events_seq d)
      in \<lparr>vt_WitnessID = witnessID, vt_Round = r, vt_Voter = 0,
          vt_Choice = ratio_at_least (fv_byzantineThreshold fv) seeCount totalEvents,
          vt_Decided = False, vt_Timestamp = now\<rparr>)"

definition FV_checkConsensusFantom :: "event_id \<Rightarrow> u64 \<Rightarrow> fame_voting \<Rightarrow> bool" where
  "FV_checkConsensusFantom witnessID r fv =
     (let mine = (\<lambda>v. vt_WitnessID v = witnessID \<and> vt_Round v = r);
          totalVotes = count_if mine (map snd (fv_votes fv));
          yesVotes = count_if (\<lambda>v. mine v \<and> vt_Choice v) (map snd (fv_votes fv))
      in if int totalVotes < fv_minVoteCount fv then False
         else ratio_at_least (fv_byzantineThreshold fv) yesVotes totalVotes)"

definition FV_decideRound :: "u64 \<Rightarrow> fame_voting \<Rightarrow> (unit \<times> fame_voting) outcome" where
  "FV_decideRound r = with_Lock fv_mu set_fv_mu (\<lambda>fv.
     Returns ((), fv\<lparr>fv_decidedRounds := go_put r True (fv_decidedRounds fv)\<rparr>))"

definition FV_startVotingForWitness ::
  "crypto \<Rightarrow> event_id \<Rightarrow> u64 \<Rightarrow> u64 \<Rightarrow> 'a dag_scheme \<Rightarrow> fame_voting \<Rightarrow> (unit \<times> fame_voting) outcome" where
  "FV_startVotingForWitness x witnessID r now d fv =
     (let voteKey = vote_key witnessID r in
      if go_has (fv_votes fv) voteKey then Returns ((), fv)
      else
        let vote = FV_calculateVoteFantom x witnessID r now d fv;
            fv1 = fv\<lparr>fv_votes := go_put voteKey vote (fv_votes fv)\<rparr>
        in if FV_checkConsensusFantom witnessID r fv1
           then FV_decideRound r
                  (fv1\<lparr>fv_famousWitnesses := go_put witnessID True (fv_famousWitnesses fv1)\<rparr>)
           else Returns ((), fv1))"

fun FV_vote_loop ::
  "crypto \<Rightarrow> event_id list \<Rightarrow> u64 \<Rightarrow> u64 \<Rightarrow> 'a dag_scheme \<Rightarrow> fame_voting \<Rightarrow> (unit \<times> fame_voting) outcome" where
  "FV_vote_loop x [] r now d fv = Returns ((), fv)"
| "FV_vote_loop x (w # ws) r now d fv =
     (if go_true (fv_famousWitnesses fv) w then FV_vote_loop x ws r now d fv
      else and_then (FV_startVotingForWitness x w r now d fv)
             (\<lambda>(_, fv'). FV_vote_loop x ws r now d fv'))"

text \<open>\<open>StartFameVoting\<close>; \<open>now\<close> is the clock in milliseconds. The result is the error.\<close>

definition FV_StartFameVoting ::
  "crypto \<Rightarrow> u64 \<Rightarrow> u64 \<Rightarrow> 'a dag_scheme \<Rightarrow> fame_voting \<Rightarrow> (string option \<times> fame_voting) outcome" where
  "FV_StartFameVoting x r now d = with_Lock fv_mu set_fv_mu (\<lambda>fv.
     if go_true (fv_decidedRounds fv) r then Returns (None, fv)
     else
       let witnesses = FV_getWitnesses x r d in
       if witnesses = [] then Returns (Some (''no witnesses found for round '' @ dec (unat r)), fv)
       else and_then (FV_vote_loop x (map fst witnesses) r now d fv) (\<lambda>(_, fv'). Returns (None, fv')))"

definition FV_shouldVoteYes ::
  "crypto \<Rightarrow> event_id \<Rightarrow> event_id \<Rightarrow> u64 \<Rightarrow> 'a dag_scheme \<Rightarrow> fame_voting \<Rightarrow> bool" where
  "FV_shouldVoteYes x voterID witnessID r d fv =
     (if \<not> FV_canSee voterID witnessID d then False
      else
        let nextRound = r + 1;
            totalNextRound = count_if (\<lambda>e. ev_Round e = nextRound) (events_seq d);
            seeCount = count_if (\<lambda>e. ev_Round e = nextRound \<and> FV_canSee (hash_of x e) witnessID d)
                         (events_seq d)
        in if totalNextRound = 0 then False
           else ratio_at_least (fv_byzantineThreshold fv) seeCount totalNextRound)"

definition FV_Reset :: "fame_voting \<Rightarrow> (unit \<times> fame_voting) outcome" where
  "FV_Reset = with_Lock fv_mu set_fv_mu (\<lambda>fv. Returns ((), fv\<lparr>fv_votes := [], fv_voteCount := [],
     fv_witnesses := [], fv_rounds := [], fv_famousWitnesses := [], fv_decidedRounds := []\<rparr>))"

record vote_stats =
  vs_total_votes :: nat
  vs_famous_witnesses :: nat
  vs_decided_rounds :: nat
  vs_round_stats :: "(u64 \<times> nat \<times> nat) list" \<comment> \<open>round, witnesses, famous\<close>

definition FV_GetVoteStats :: "crypto \<Rightarrow> 'a dag_scheme \<Rightarrow> fame_voting \<Rightarrow> vote_stats" where
  "FV_GetVoteStats x d fv =
     \<lparr>vs_total_votes = length (fv_votes fv), vs_famous_witnesses = length (fv_famousWitnesses fv),
      vs_decided_rounds = length (fv_decidedRounds fv),
      vs_round_stats = map (\<lambda>r. (r, length (FV_getWitnesses x r d), length (FV_getFamousWitnesses x r d fv)))
        (map fst (fv_decidedRounds fv))\<rparr>"

section \<open>Lemmas\<close>

text \<open>
  A DAG whose keys are the hashes of the events stored under them: what \<open>AddEvent\<close> sets up and
  every later operation keeps, since the hash is cached.
\<close>

definition keyed_dag :: "crypto \<Rightarrow> 'a dag_scheme \<Rightarrow> bool" where
  "keyed_dag x d \<longleftrightarrow> wf_gomap (d_Events d) \<and> (\<forall>(i, p) \<in> set (d_Events d). hash_of x (d_heap d p) = i)"

lemma keyed_dag_get: "keyed_dag x d \<Longrightarrow> (i, p) \<in> set (d_Events d) \<Longrightarrow>
   go_get (d_Events d) i = Some p \<and> hash_of x (d_heap d p) = i"
  by (auto simp: keyed_dag_def wf_gomap_def)

lemma collect_events_filter:
  assumes "wf_gomap (m @ evs)" and "\<forall>(i, p) \<in> set evs. hash_of x (heap p) = i"
  shows "collect_events x c heap evs m = m @ filter (\<lambda>(i, p). c (heap p)) evs"
  using assms
proof (induction evs arbitrary: m)
  case Nil
  then show ?case by simp
next
  case (Cons a evs)
  obtain i p where a: "a = (i, p)" by (cases a)
  have i: "hash_of x (heap p) = i" using Cons.prems(2) a by simp
  have fresh: "go_get m i = None" using Cons.prems(1) a
    by (auto simp: wf_gomap_def map_of_eq_None_iff)
  show ?case
  proof (cases "c (heap p)")
    case True
    have "wf_gomap ((m @ [(i, p)]) @ evs)" using Cons.prems(1) a by (simp add: wf_gomap_def)
    then have "collect_events x c heap evs (m @ [(i, p)]) = (m @ [(i, p)]) @ filter (\<lambda>(i, p). c (heap p)) evs"
      using Cons.prems(2) by (intro Cons.IH) auto
    then show ?thesis using True a i go_put_fresh [OF fresh] by simp
  next
    case False
    have "wf_gomap (m @ evs)" using Cons.prems(1) by (simp add: wf_gomap_def)
    then show ?thesis using False a Cons by simp
  qed
qed

lemma collect_events_keyed:
  "keyed_dag x d \<Longrightarrow> collect_events x c (d_heap d) (d_Events d) [] =
     filter (\<lambda>(i, p). c (d_heap d p)) (d_Events d)"
  by (simp add: keyed_dag_def collect_events_filter)

lemma count_events_keyed:
  "count_if c (events_seq d) = count_if (\<lambda>(i, p). c (d_heap d p)) (d_Events d)"
  unfolding events_seq_def count_if_map by (rule count_if_cong) auto

text \<open>At most one vote per witness and round: the key determines both.\<close>

definition votes_keyed :: "fame_voting \<Rightarrow> bool" where
  "votes_keyed fv \<longleftrightarrow> wf_gomap (fv_votes fv) \<and>
     (\<forall>(k, v) \<in> set (fv_votes fv). k = vote_key (vt_WitnessID v) (vt_Round v))"

lemma votes_keyed_at_most_one:
  assumes "votes_keyed fv"
  shows "count_if (\<lambda>v. vt_WitnessID v = w \<and> vt_Round v = r) (map snd (fv_votes fv)) \<le> 1"
proof -
  let ?mine = "filter (\<lambda>(k, v). vt_WitnessID v = w \<and> vt_Round v = r) (fv_votes fv)"
  have "\<forall>kv \<in> set ?mine. fst kv = vote_key w r"
    using assms by (auto simp: votes_keyed_def)
  then have "set (map fst ?mine) \<subseteq> {vote_key w r}" by auto
  moreover have "distinct (map fst ?mine)"
    using assms by (auto simp: votes_keyed_def wf_gomap_def distinct_map_filter)
  ultimately have one: "length (map fst ?mine) \<le> 1"
    using card_mono [of "{vote_key w r}" "set (map fst ?mine)"] distinct_card [of "map fst ?mine"] by simp
  have "count_if (\<lambda>v. vt_WitnessID v = w \<and> vt_Round v = r) (map snd (fv_votes fv)) = length ?mine"
    unfolding count_if_filter by (simp add: filter_map comp_def case_prod_unfold)
  then show ?thesis using one by simp
qed

lemma calculateVote_ids [simp]:
  "vt_WitnessID (FV_calculateVoteFantom x w r now d fv) = w"
  "vt_Round (FV_calculateVoteFantom x w r now d fv) = r"
  by (simp_all add: FV_calculateVoteFantom_def Let_def)

lemma votes_keyed_put:
  assumes "votes_keyed fv" and "vt_WitnessID v = w" and "vt_Round v = r"
  shows "votes_keyed (fv\<lparr>fv_votes := go_put (vote_key w r) v (fv_votes fv)\<rparr>)"
  using assms set_go_put_subset [of "vote_key w r" v "fv_votes fv"]
  by (auto simp: votes_keyed_def)

text \<open>The state the component keeps as long as nothing is decided.\<close>

definition undecided :: "fame_voting \<Rightarrow> bool" where
  "undecided fv \<longleftrightarrow> votes_keyed fv \<and> fv_famousWitnesses fv = [] \<and> fv_decidedRounds fv = [] \<and>
     fv_minVoteCount fv = 3"

lemma undecided_no_consensus: "undecided fv \<Longrightarrow> \<not> FV_checkConsensusFantom w r fv"
  using votes_keyed_at_most_one [of fv w r]
  by (simp add: undecided_def FV_checkConsensusFantom_def Let_def)

lemma startVoting_undecided:
  assumes "undecided fv"
  shows "\<exists>fv'. FV_startVotingForWitness x w r now d fv = Returns ((), fv') \<and> undecided fv' \<and>
    fv_mu fv' = fv_mu fv"
proof (cases "go_has (fv_votes fv) (vote_key w r)")
  case True
  then show ?thesis using assms by (simp add: FV_startVotingForWitness_def Let_def)
next
  case False
  let ?fv1 = "fv\<lparr>fv_votes := go_put (vote_key w r) (FV_calculateVoteFantom x w r now d fv) (fv_votes fv)\<rparr>"
  have u: "undecided ?fv1" using assms votes_keyed_put [of fv] by (simp add: undecided_def)
  then have "FV_startVotingForWitness x w r now d fv = Returns ((), ?fv1)"
    using False undecided_no_consensus [OF u] by (simp add: FV_startVotingForWitness_def Let_def)
  then show ?thesis using u by simp
qed

lemma vote_loop_undecided:
  "undecided fv \<Longrightarrow> \<exists>fv'. FV_vote_loop x ws r now d fv = Returns ((), fv') \<and> undecided fv' \<and>
     fv_mu fv' = fv_mu fv"
proof (induction ws arbitrary: fv)
  case Nil
  then show ?case by simp
next
  case (Cons w ws)
  obtain fv1 where 1: "FV_startVotingForWitness x w r now d fv = Returns ((), fv1)" "undecided fv1"
    "fv_mu fv1 = fv_mu fv" using startVoting_undecided [OF Cons.prems] by blast
  have "\<not> go_true (fv_famousWitnesses fv) w" using Cons.prems by (simp add: undecided_def go_true_def)
  then show ?case using 1 Cons.IH [OF 1(2)] by simp
qed

lemma undecided_set_fv_mu [simp]: "undecided (set_fv_mu m fv) = undecided fv"
  by (simp add: undecided_def set_fv_mu_def votes_keyed_def)

lemma StartFameVoting_undecided:
  assumes "undecided fv" and "fv_mu fv = unlocked"
  shows "\<exists>res fv'. FV_StartFameVoting x r now d fv = Returns (res, fv') \<and> undecided fv' \<and>
    fv_mu fv' = unlocked \<and> (res = None \<longleftrightarrow> FV_getWitnesses x r d \<noteq> [])"
proof -
  let ?m = "unlocked\<lparr>rw_writer := True\<rparr>"
  let ?fv = "set_fv_mu ?m fv"
  have u: "undecided ?fv" using assms(1) by simp
  have nd: "\<not> go_true (fv_decidedRounds ?fv) r" using u by (simp add: undecided_def go_true_def)
  show ?thesis
  proof (cases "FV_getWitnesses x r d = []")
    case True
    let ?err = "Some (''no witnesses found for round '' @ dec (unat r))"
    have "FV_StartFameVoting x r now d fv = Returns (?err, set_fv_mu unlocked ?fv)"
      unfolding FV_StartFameVoting_def
      by (rule fv_mutex.Lock_returns [OF assms(2)]) (use True nd in simp_all)
    then show ?thesis using True u by simp
  next
    case False
    obtain fv' where loop: "FV_vote_loop x (map fst (FV_getWitnesses x r d)) r now d ?fv = Returns ((), fv')"
      and u': "undecided fv'" and mu': "fv_mu fv' = ?m"
      using vote_loop_undecided [OF u] by force
    have "FV_StartFameVoting x r now d fv = Returns (None, set_fv_mu unlocked fv')"
      unfolding FV_StartFameVoting_def
      by (rule fv_mutex.Lock_returns [OF assms(2)]) (use False nd loop mu' in simp_all)
    then show ?thesis using False u' by simp
  qed
qed

lemma FV_Reset_returns:
  "fv_mu fv = unlocked \<Longrightarrow> FV_Reset fv = Returns ((), fv\<lparr>fv_mu := unlocked, fv_votes := [],
     fv_voteCount := [], fv_witnesses := [], fv_rounds := [], fv_famousWitnesses := [], fv_decidedRounds := []\<rparr>)"
  unfolding FV_Reset_def
  by (simp add: with_Lock_def rw_Lock_def rw_Unlock_def unlocked_def set_fv_mu_def)

text \<open>
  The states the engine can bring the component to: it is created, asked to vote on any round of any
  DAG at any time, and reset.
\<close>

inductive fv_reachable :: "crypto \<Rightarrow> fame_voting \<Rightarrow> bool" for x where
  fv_new: "fv_reachable x NewFameVoting"
| fv_vote: "fv_reachable x fv \<Longrightarrow> FV_StartFameVoting x r now (d :: dag) fv = Returns (res, fv') \<Longrightarrow>
    fv_reachable x fv'"
| fv_reset: "fv_reachable x fv \<Longrightarrow> FV_Reset fv = Returns ((), fv') \<Longrightarrow> fv_reachable x fv'"

lemma fv_reachable_undecided: "fv_reachable x fv \<Longrightarrow> undecided fv \<and> fv_mu fv = unlocked"
proof (induction rule: fv_reachable.induct)
  case fv_new
  then show ?case by (simp add: NewFameVoting_def undecided_def votes_keyed_def)
next
  case (fv_vote fv r now d res fv')
  then show ?case using StartFameVoting_undecided [of fv x r now d] by auto
next
  case (fv_reset fv fv')
  then show ?case by (auto simp: FV_Reset_returns undecided_def votes_keyed_def)
qed

section \<open>Properties\<close>

text \<open>
  C5. No witness ever becomes famous. In every state the component can reach, whatever DAG, round and
  time each call of \<open>StartFameVoting\<close> gets, there is no famous witness and no decided round;
  every call returns, with an error exactly when the round has no witness. The votes are keyed by
  witness and round, so a witness never collects more than one of the three votes
  \<open>checkConsensusFantom\<close> asks for.
\<close>

theorem fame_voting_never_decides:
  assumes "fv_reachable x fv"
  shows "fv_famousWitnesses fv = [] \<and> fv_decidedRounds fv = [] \<and>
    count_if (\<lambda>v. vt_WitnessID v = w \<and> vt_Round v = r) (map snd (fv_votes fv)) \<le> 1 \<and>
    (\<exists>res fv'. FV_StartFameVoting x r now d fv = Returns (res, fv') \<and>
       fv_famousWitnesses fv' = [] \<and> (res = None \<longleftrightarrow> FV_getWitnesses x r d \<noteq> []))"
proof -
  have u: "undecided fv" "fv_mu fv = unlocked" using fv_reachable_undecided [OF assms] by auto
  then have "votes_keyed fv" "fv_famousWitnesses fv = []" "fv_decidedRounds fv = []"
    by (auto simp: undecided_def)
  moreover obtain res fv' where "FV_StartFameVoting x r now d fv = Returns (res, fv')" "undecided fv'"
    "res = None \<longleftrightarrow> FV_getWitnesses x r d \<noteq> []"
    using StartFameVoting_undecided [OF u] by blast
  ultimately show ?thesis using votes_keyed_at_most_one by (fastforce simp: undecided_def)
qed

text \<open>A DAG with one event in round 0, for the examples.\<close>

definition one_event_dag :: dag where
  "one_event_dag = (NewDAG (\<lambda>_. zero_event\<lparr>ev_hash := Some 5\<rparr>))\<lparr>d_Events := [(5, 0)]\<rparr>"

lemma one_event_witnesses: "FV_getWitnesses sample_crypto 0 one_event_dag = [(5, 0)]"
  by (simp add: FV_getWitnesses_def one_event_dag_def NewDAG_def FV_isWitness_def zero_event_def)

theorem fame_voting_never_decides_witness:
  "\<exists>fv'. FV_StartFameVoting sample_crypto 0 100 one_event_dag NewFameVoting = Returns (None, fv') \<and>
     fv_famousWitnesses fv' = []"
  using fame_voting_never_decides [OF fv_new, of 5 0 sample_crypto 100 one_event_dag]
  by (auto simp: one_event_witnesses)

text \<open>
  The decision branch is a deadlock: once a witness's stored vote meets the consensus test,
  \<open>startVotingForWitness\<close>, which always runs under the component's write lock, calls
  \<open>decideRound\<close>, which asks for the same lock and blocks for ever.
\<close>

theorem fame_decision_deadlocks:
  assumes "rw_writer (fv_mu fv)" and "\<not> go_has (fv_votes fv) (vote_key w r)"
    and "FV_checkConsensusFantom w r
      (fv\<lparr>fv_votes := go_put (vote_key w r) (FV_calculateVoteFantom x w r now d fv) (fv_votes fv)\<rparr>)"
  shows "FV_startVotingForWitness x w r now d fv = Blocks"
  using assms
  by (simp add: FV_startVotingForWitness_def Let_def FV_decideRound_def fv_mutex.Lock_when_held)

theorem fame_decision_deadlocks_witness:
  "FV_startVotingForWitness sample_crypto 5 0 100 one_event_dag
     (NewFameVoting\<lparr>fv_mu := unlocked\<lparr>rw_writer := True\<rparr>, fv_minVoteCount := 1\<rparr>) = Blocks"
proof (rule fame_decision_deadlocks)
  have r: "ratio_at_least two_thirds 1 1" by (simp add: bft.reaches_all)
  have v: "FV_calculateVoteFantom sample_crypto 5 0 100 one_event_dag
      (NewFameVoting\<lparr>fv_mu := unlocked\<lparr>rw_writer := True\<rparr>, fv_minVoteCount := 1\<rparr>) =
      \<lparr>vt_WitnessID = 5, vt_Round = 0, vt_Voter = 0, vt_Choice = True, vt_Decided = False, vt_Timestamp = 100\<rparr>"
    using r by (simp add: FV_calculateVoteFantom_def one_event_dag_def NewDAG_def events_seq_def
        FV_canSee_def zero_event_def NewFameVoting_def)
  show "FV_checkConsensusFantom 5 0 ((NewFameVoting\<lparr>fv_mu := unlocked\<lparr>rw_writer := True\<rparr>, fv_minVoteCount := 1\<rparr>)
      \<lparr>fv_votes := go_put (vote_key 5 0) (FV_calculateVoteFantom sample_crypto 5 0 100 one_event_dag
        (NewFameVoting\<lparr>fv_mu := unlocked\<lparr>rw_writer := True\<rparr>, fv_minVoteCount := 1\<rparr>))
        (fv_votes (NewFameVoting\<lparr>fv_mu := unlocked\<lparr>rw_writer := True\<rparr>, fv_minVoteCount := 1\<rparr>))\<rparr>)"
    unfolding v using r by (simp add: FV_checkConsensusFantom_def NewFameVoting_def)
qed (simp_all add: NewFameVoting_def unlocked_def)

text \<open>
  The witnesses of a round. On a DAG whose keys are the hashes of its events,
  \<open>getWitnesses\<close> returns exactly the stored events of the round, under their own identifiers, that
  are in round 0 or have no stored event of their creator in that round with a smaller Lamport
  time; for rounds above 0 this is the test \<open>AssignRound\<close> uses.
\<close>

theorem get_witnesses_spec:
  assumes "keyed_dag x d"
  shows "go_get (FV_getWitnesses x r d) i = Some p \<longleftrightarrow>
    go_get (d_Events d) i = Some p \<and> ev_Round (d_heap d p) = r \<and>
    (r = 0 \<or> DAG_isWitness (d_heap d p) d)"
proof -
  let ?W = "FV_getWitnesses x r d"
  have W: "?W = filter (\<lambda>(i, p). ev_Round (d_heap d p) = r \<and> FV_isWitness (d_heap d p) r d) (d_Events d)"
    unfolding FV_getWitnesses_def by (rule collect_events_keyed [OF assms])
  have "wf_gomap (d_Events d)" using assms by (simp add: keyed_dag_def)
  moreover from this have "wf_gomap ?W" unfolding W wf_gomap_def by (rule distinct_map_filter)
  ultimately show ?thesis
    by (auto simp: go_get_iff W FV_isWitness_def DAG_isWitness_def)
qed

theorem get_witnesses_spec_witness:
  "go_get (FV_getWitnesses sample_crypto 0 one_event_dag) 5 = Some 0"
  using get_witnesses_spec [of sample_crypto one_event_dag 0 5 0]
  by (simp add: keyed_dag_def one_event_dag_def NewDAG_def zero_event_def wf_gomap_def)

text \<open>
  Every vote cast is a yes: a witness of round \<open>r\<close> is seen by every stored event of round
  \<open>r\<close>, because \<open>canSee\<close> accepts any two events of the same round, and
  \<open>calculateVoteFantom\<close> only asks the events of that round. (The number of events in memory is
  below \<open>2 ^ 50\<close>.)
\<close>

theorem every_vote_is_yes:
  assumes "keyed_dag x d" and "go_has (FV_getWitnesses x r d) w"
    and "fv_byzantineThreshold fv = two_thirds" and "length (d_Events d) < 2 ^ 50"
  shows "vt_Choice (FV_calculateVoteFantom x w r now d fv)"
proof -
  obtain p where "go_get (FV_getWitnesses x r d) w = Some p" using assms(2) by blast
  then have p: "go_get (d_Events d) w = Some p" "ev_Round (d_heap d p) = r"
    using assms(1)
    by (auto simp: FV_getWitnesses_def collect_events_keyed keyed_dag_def wf_gomap_def
        dest!: map_of_SomeD)
  let ?n = "count_if (\<lambda>e. ev_Round e = r) (events_seq d)"
  have "FV_canSee (hash_of x (d_heap d q)) w d"
    if "(i, q) \<in> set (d_Events d)" "ev_Round (d_heap d q) = r" for i q
    using keyed_dag_get [OF assms(1) that(1)] that(2) p by (simp add: FV_canSee_def)
  then have see: "count_if (\<lambda>e. ev_Round e = r \<and> FV_canSee (hash_of x e) w d) (events_seq d) = ?n"
    unfolding count_events_keyed by (intro count_if_cong) auto
  have "d_heap d p \<in> set (events_seq d)" using go_get_in [OF p(1)] by (force simp: events_seq_def)
  then have "?n \<noteq> 0" using p(2) by (auto simp: count_if_0_iff)
  then have "0 < ?n" by simp
  moreover have "?n < 2 ^ 50"
    using assms(4) count_if_le_length [of "\<lambda>e. ev_Round e = r" "events_seq d"] by (simp add: events_seq_def)
  ultimately show ?thesis
    using assms(3) by (simp add: FV_calculateVoteFantom_def Let_def see bft.reaches_all)
qed

theorem every_vote_is_yes_witness:
  "vt_Choice (FV_calculateVoteFantom sample_crypto 5 0 100 one_event_dag NewFameVoting)"
  by (rule every_vote_is_yes)
     (simp_all add: one_event_witnesses, simp_all add: keyed_dag_def one_event_dag_def NewDAG_def
        zero_event_def wf_gomap_def NewFameVoting_def)

end
