(* ===== verification/Fame_Spec.thy ===== *)
theory Fame_Spec
  imports Fame_Voting
begin

text \<open>
  Fame voting as an abstract machine. The state is a table of votes: for a witness and a round, the time of the vote,
  and a vote is always a yes. A call for a round votes once for each witness of the round that has no vote yet; a
  reset empties the table. The code refines this machine: its float64 test of visibility never says no, because every
  event of the witness's own round counts as seeing it.
\<close>

section \<open>The abstract machine\<close>

type_synonym fame_table = "event_id \<times> u64 \<Rightarrow> u64 option"

definition spec_vote :: "event_id set \<Rightarrow> u64 \<Rightarrow> u64 \<Rightarrow> fame_table \<Rightarrow> fame_table" where
  "spec_vote ws r now T =
     (\<lambda>(w, q). case T (w, q) of Some t \<Rightarrow> Some t | None \<Rightarrow> if q = r \<and> w \<in> ws then Some now else None)"

text \<open>The witnesses of a round: the events of round 0, and the first event of each creator in a later round.\<close>

definition round_witnesses :: "u64 \<Rightarrow> dag \<Rightarrow> event_id set" where
  "round_witnesses r d =
     {i. \<exists>p. (i, p) \<in> set (d_Events d) \<and> ev_Round (d_heap d p) = r \<and> FV_isWitness (d_heap d p) r d}"

datatype fame_call = Vote_on u64 u64 dag | Reset_votes

fun spec_call :: "fame_call \<Rightarrow> fame_table \<Rightarrow> fame_table" where
  "spec_call (Vote_on r now d) T = spec_vote (round_witnesses r d) r now T"
| "spec_call Reset_votes T = Map.empty"

section \<open>The code\<close>

fun fv_call :: "crypto \<Rightarrow> fame_call \<Rightarrow> fame_voting \<Rightarrow> fame_voting outcome" where
  "fv_call x (Vote_on r now d) fv = and_then (FV_StartFameVoting x r now d fv) (\<lambda>(_, fv'). Returns fv')"
| "fv_call x Reset_votes fv = and_then (FV_Reset fv) (\<lambda>(_, fv'). Returns fv')"

fun fv_calls :: "crypto \<Rightarrow> fame_call list \<Rightarrow> fame_voting \<Rightarrow> fame_voting outcome" where
  "fv_calls x [] fv = Returns fv"
| "fv_calls x (c # cs) fv = and_then (fv_call x c fv) (fv_calls x cs)"

fun call_ok :: "crypto \<Rightarrow> fame_call \<Rightarrow> bool" where
  "call_ok x (Vote_on r now d) \<longleftrightarrow> keyed_dag x d \<and> length (d_Events d) < 2 ^ 50"
| "call_ok x Reset_votes \<longleftrightarrow> True"

definition fame_abs :: "fame_voting \<Rightarrow> fame_table" where
  "fame_abs fv = (\<lambda>(w, r). map_option vt_Timestamp (go_get (fv_votes fv) (vote_key w r)))"

definition all_yes :: "fame_voting \<Rightarrow> bool" where
  "all_yes fv \<longleftrightarrow> (\<forall>(k, v) \<in> set (fv_votes fv). vt_Choice v)"

definition fame_inv :: "fame_voting \<Rightarrow> bool" where
  "fame_inv fv \<longleftrightarrow> undecided fv \<and> all_yes fv \<and> fv_byzantineThreshold fv = two_thirds"

section \<open>Every vote is a yes\<close>

lemma witness_keys:
  "keyed_dag x d \<Longrightarrow> fst ` set (FV_getWitnesses x r d) = round_witnesses r d"
  by (force simp: FV_getWitnesses_def collect_events_keyed round_witnesses_def)

lemma vote_is_yes:
  assumes d: "keyed_dag x d" and "length (d_Events d) < 2 ^ 50" and w: "w \<in> round_witnesses r d"
    and thr: "fv_byzantineThreshold fv = two_thirds"
  shows "vt_Choice (FV_calculateVoteFantom x w r now d fv)"
proof -
  let ?in = "\<lambda>e. ev_Round e = r"
  obtain p where p: "(w, p) \<in> set (d_Events d)" "ev_Round (d_heap d p) = r" using w by (auto simp: round_witnesses_def)
  have sees: "FV_canSee (hash_of x (d_heap d q)) w d" if "(i, q) \<in> set (d_Events d)" "ev_Round (d_heap d q) = r" for i q
    using keyed_dag_get [OF d that(1)] keyed_dag_get [OF d p(1)] that(2) p(2) by (simp add: FV_canSee_def)
  have "count_if (\<lambda>e. ?in e \<and> FV_canSee (hash_of x e) w d) (events_seq d) = count_if ?in (events_seq d)"
    unfolding count_events_keyed by (rule count_if_cong) (use sees in auto)
  moreover have "0 < count_if ?in (events_seq d)"
    unfolding count_events_keyed using p by (force simp: count_if_filter filter_empty_conv)
  moreover have "count_if ?in (events_seq d) \<le> length (d_Events d)"
    unfolding count_events_keyed by (rule count_if_le_length)
  ultimately show ?thesis
    using bft.reaches_all [of "count_if ?in (events_seq d)"] assms(2) thr
    by (simp add: FV_calculateVoteFantom_def Let_def)
qed

section \<open>Refinement\<close>

lemma start_voting_refines:
  assumes "fame_inv fv" and "keyed_dag x d" and "length (d_Events d) < 2 ^ 50" and "w \<in> round_witnesses r d"
  shows "\<exists>fv'. FV_startVotingForWitness x w r now d fv = Returns ((), fv') \<and> fame_inv fv' \<and> fv_mu fv' = fv_mu fv \<and>
    fame_abs fv' = spec_vote {w} r now (fame_abs fv)"
proof (cases "go_has (fv_votes fv) (vote_key w r)")
  case True
  then obtain v where v: "go_get (fv_votes fv) (vote_key w r) = Some v" by auto
  have "fame_abs fv = spec_vote {w} r now (fame_abs fv)"
    using v by (auto simp: fame_abs_def spec_vote_def fun_eq_iff split: option.splits)
  then show ?thesis using True assms(1) by (simp add: FV_startVotingForWitness_def)
next
  case False
  define v where "v = FV_calculateVoteFantom x w r now d fv"
  define fv1 where "fv1 = fv\<lparr>fv_votes := go_put (vote_key w r) v (fv_votes fv)\<rparr>"
  have yes: "vt_Choice v" and ts: "vt_Timestamp v = now" and ids: "vt_WitnessID v = w" "vt_Round v = r"
    using vote_is_yes [OF assms(2,3,4)] assms(1)
    by (simp_all add: v_def fame_inv_def) (simp add: FV_calculateVoteFantom_def Let_def)
  have u: "undecided fv1"
    using assms(1) votes_keyed_put [of fv v w r] ids by (simp add: fame_inv_def undecided_def fv1_def)
  have "all_yes fv1" using assms(1) yes set_go_put_subset [of "vote_key w r" v "fv_votes fv"]
    by (auto simp: fame_inv_def all_yes_def fv1_def)
  then have inv: "fame_inv fv1" using u assms(1) by (simp add: fame_inv_def fv1_def)
  have none: "go_get (fv_votes fv) (vote_key w r) = None" using False by simp
  have "fame_abs fv1 (a, q) = spec_vote {w} r now (fame_abs fv) (a, q)" for a q
    using none ts by (cases "a = w \<and> q = r") (auto simp: fame_abs_def fv1_def spec_vote_def vote_key_inj split: option.split)
  then have "fame_abs fv1 = spec_vote {w} r now (fame_abs fv)" by auto
  moreover have "FV_startVotingForWitness x w r now d fv = Returns ((), fv1)"
    using False undecided_no_consensus [OF u, of w r] by (simp add: FV_startVotingForWitness_def Let_def fv1_def v_def)
  moreover have "fv_mu fv1 = fv_mu fv" by (simp add: fv1_def)
  ultimately show ?thesis using inv by blast
qed

lemma spec_vote_join: "spec_vote ws r now (spec_vote vs r now T) = spec_vote (vs \<union> ws) r now T"
  by (auto simp: spec_vote_def fun_eq_iff split: option.splits)

lemma vote_loop_refines:
  assumes "keyed_dag x d" and "length (d_Events d) < 2 ^ 50" and "fame_inv fv" and "set ws \<subseteq> round_witnesses r d"
  shows "\<exists>fv'. FV_vote_loop x ws r now d fv = Returns ((), fv') \<and> fame_inv fv' \<and> fv_mu fv' = fv_mu fv \<and>
    fame_abs fv' = spec_vote (set ws) r now (fame_abs fv)"
  using assms(3,4)
proof (induction ws arbitrary: fv)
  case Nil
  have "fame_abs fv = spec_vote {} r now (fame_abs fv)" by (auto simp: spec_vote_def fun_eq_iff split: option.split)
  then show ?case using Nil by simp
next
  case (Cons w ws)
  obtain fv1 where fv1: "FV_startVotingForWitness x w r now d fv = Returns ((), fv1)" "fame_inv fv1" "fv_mu fv1 = fv_mu fv"
    "fame_abs fv1 = spec_vote {w} r now (fame_abs fv)"
    using start_voting_refines [OF Cons.prems(1) assms(1,2)] Cons.prems(2) by (metis insert_subset list.simps(15))
  then obtain fv2 where "FV_vote_loop x ws r now d fv1 = Returns ((), fv2)" "fame_inv fv2" "fv_mu fv2 = fv_mu fv1"
    "fame_abs fv2 = spec_vote (set ws) r now (fame_abs fv1)"
    using Cons.IH Cons.prems(2) by fastforce
  moreover have "\<not> go_true (fv_famousWitnesses fv) w"
    using Cons.prems(1) by (simp add: fame_inv_def undecided_def go_true_def)
  ultimately show ?case using fv1 by (simp add: spec_vote_join)
qed

lemma fame_inv_mu [simp]: "fame_inv (set_fv_mu m fv) = fame_inv fv" "fame_abs (set_fv_mu m fv) = fame_abs fv"
  by (simp_all add: fame_inv_def all_yes_def fame_abs_def) (simp_all add: set_fv_mu_def)

lemma call_refines:
  assumes "fame_inv fv" and "fv_mu fv = unlocked" and "call_ok x c"
  shows "\<exists>fv'. fv_call x c fv = Returns fv' \<and> fame_inv fv' \<and> fv_mu fv' = unlocked \<and> fame_abs fv' = spec_call c (fame_abs fv)"
proof (cases c)
  case (Vote_on r now d)
  have d: "keyed_dag x d" "length (d_Events d) < 2 ^ 50" using assms(3) Vote_on by simp_all
  let ?locked = "set_fv_mu (unlocked\<lparr>rw_writer := True\<rparr>) fv"
  have u: "undecided fv" using assms(1) by (simp add: fame_inv_def)
  have same: "spec_vote {} r now T = T" for T by (auto simp: spec_vote_def fun_eq_iff split: option.split)
  obtain res fv' where run: "FV_StartFameVoting x r now d fv = Returns (res, fv')" "fv_mu fv' = unlocked"
    using StartFameVoting_undecided [OF u assms(2)] by blast
  obtain fv2 where body: "(if FV_getWitnesses x r d = [] then fv2 = ?locked
      else FV_vote_loop x (map fst (FV_getWitnesses x r d)) r now d ?locked = Returns ((), fv2))"
    and inv2: "fv_mu fv2 = unlocked\<lparr>rw_writer := True\<rparr>" "fame_inv fv2" "fame_abs fv2 = spec_vote (round_witnesses r d) r now (fame_abs fv)"
  proof (cases "FV_getWitnesses x r d = []")
    case True
    then have "round_witnesses r d = {}" using witness_keys [OF d(1), of r] by simp
    moreover have "fv_mu ?locked = unlocked\<lparr>rw_writer := True\<rparr>" by (simp add: set_fv_mu_def)
    ultimately show ?thesis using that [of ?locked] True assms(1) same by simp
  next
    case False
    have "set (map fst (FV_getWitnesses x r d)) = round_witnesses r d" using witness_keys [OF d(1)] by simp
    moreover from this obtain fv2 where "FV_vote_loop x (map fst (FV_getWitnesses x r d)) r now d ?locked = Returns ((), fv2)"
      "fame_inv fv2" "fv_mu fv2 = fv_mu ?locked"
      "fame_abs fv2 = spec_vote (set (map fst (FV_getWitnesses x r d))) r now (fame_abs ?locked)"
      using vote_loop_refines [OF d, of ?locked "map fst (FV_getWitnesses x r d)" r now] assms(1) by auto
    moreover have "fv_mu ?locked = unlocked\<lparr>rw_writer := True\<rparr>" by (simp add: set_fv_mu_def)
    ultimately show ?thesis using that [of fv2] False by simp
  qed
  have "fame_inv fv' \<and> fame_abs fv' = fame_abs fv2"
  proof -
    have "\<not> go_true (fv_decidedRounds ?locked) r" using u by (simp add: undecided_def go_true_def set_fv_mu_def)
    then have "\<exists>res. FV_StartFameVoting x r now d fv = Returns (res, set_fv_mu unlocked fv2)"
      using body assms(2) inv2(1) unfolding FV_StartFameVoting_def
      by (cases "FV_getWitnesses x r d = []")
        (simp_all add: with_Lock_def rw_Lock_def unlocked_def Let_def rw_Unlock_def)
    then show ?thesis using run(1) inv2(2) by auto
  qed
  then show ?thesis using run inv2(3) Vote_on by simp
next
  case Reset_votes
  have "FV_Reset fv = Returns ((), fv\<lparr>fv_mu := unlocked, fv_votes := [], fv_voteCount := [], fv_witnesses := [],
      fv_rounds := [], fv_famousWitnesses := [], fv_decidedRounds := []\<rparr>)" (is "_ = Returns ((), ?fv')")
    by (rule FV_Reset_returns [OF assms(2)])
  moreover have "fame_inv ?fv'" "fame_abs ?fv' = Map.empty"
    using assms(1) by (auto simp: fame_inv_def undecided_def votes_keyed_def all_yes_def fame_abs_def)
  ultimately show ?thesis using Reset_votes by simp
qed

text \<open>
  C37. Fame voting refines a table of yes votes. Any sequence of \<open>StartFameVoting\<close> and \<open>Reset\<close> calls on a new
  component, over whatever DAGs whose keys are the hashes of their events, returns, and leaves exactly the votes the
  abstract machine has: one per witness and round, cast when the round was first voted on after the last reset.
  Every one of them is a yes: an event of the witness's own round always sees it, so the vote says nothing about the DAG.
\<close>

theorem fame_votes_refine:
  assumes "\<forall>c \<in> set cs. call_ok x c"
  shows "\<exists>fv. fv_calls x cs NewFameVoting = Returns fv \<and> fame_abs fv = fold spec_call cs Map.empty \<and>
    (\<forall>(k, v) \<in> set (fv_votes fv). vt_Choice v \<and> k = vote_key (vt_WitnessID v) (vt_Round v))"
proof -
  have run: "\<exists>fv'. fv_calls x cs fv = Returns fv' \<and> fame_inv fv' \<and> fame_abs fv' = fold spec_call cs (fame_abs fv)"
    if "fame_inv fv" "fv_mu fv = unlocked" for fv
    using that assms
  proof (induction cs arbitrary: fv)
    case (Cons c cs)
    then obtain fv1 where "fv_call x c fv = Returns fv1" "fame_inv fv1" "fv_mu fv1 = unlocked"
      "fame_abs fv1 = spec_call c (fame_abs fv)"
      using call_refines [of fv x c] by auto
    then show ?case using Cons.IH [of fv1] Cons.prems(3) by simp
  qed simp
  have "fame_inv NewFameVoting" "fv_mu NewFameVoting = unlocked" "fame_abs NewFameVoting = Map.empty"
    by (auto simp: fame_inv_def undecided_def votes_keyed_def all_yes_def fame_abs_def NewFameVoting_def)
  then show ?thesis using run [of NewFameVoting] by (fastforce simp: fame_inv_def all_yes_def undecided_def votes_keyed_def)
qed

theorem fame_votes_refine_witness:
  "\<exists>fv. fv_calls sample_crypto [Vote_on 0 100 one_event_dag, Vote_on 0 200 one_event_dag] NewFameVoting = Returns fv \<and>
     fame_abs fv (5, 0) = Some 100"
proof -
  have ok: "keyed_dag sample_crypto one_event_dag" "length (d_Events one_event_dag) < 2 ^ 50"
    by (simp_all add: keyed_dag_def one_event_dag_def NewDAG_def wf_gomap_def hash_of_def Event_Hash_def zero_event_def)
  have "(5, 0) \<in> set (d_Events one_event_dag)" "ev_Round (d_heap one_event_dag 0) = 0"
    by (simp_all add: one_event_dag_def NewDAG_def zero_event_def)
  then have "5 \<in> round_witnesses 0 one_event_dag" by (auto simp: round_witnesses_def FV_isWitness_def)
  then have "fold spec_call [Vote_on 0 100 one_event_dag, Vote_on 0 200 one_event_dag] Map.empty (5, 0) = Some 100"
    by (simp add: spec_vote_def)
  moreover have "\<forall>c \<in> set [Vote_on 0 100 one_event_dag, Vote_on 0 200 one_event_dag]. call_ok sample_crypto c"
    using ok by simp
  ultimately show ?thesis using fame_votes_refine [of "[Vote_on 0 100 one_event_dag, Vote_on 0 200 one_event_dag]" sample_crypto]
    by auto
qed

end
