(* ===== verification/Clotho_Selection.thy ===== *)
theory Clotho_Selection
  imports Fame_Voting
begin

text \<open>
  \<open>clotho.go\<close>: which famous witnesses of a round become Clothos.

  The selector holds pointers to the DAG and to a \<open>FameVoting\<close> (possibly nil); both are
  arguments of its operations. Its unused maps \<open>rounds\<close> and \<open>selectionCriteria\<close> are
  written by the constructor and \<open>Reset\<close> only and are left out. Every loop over
  \<open>dag.Events\<close> follows the list order of the map; only
  \<open>satisfiesByzantineFaultTolerance\<close> and the fallback of \<open>getFamousWitnesses\<close> depend on
  it (\<open>clotho_depends_on_map_order\<close>).
\<close>

section \<open>State\<close>

record clotho_selector =
  cs_mu :: rwmutex
  cs_clothos :: "(u64, (event_id, eref) gomap) gomap"
  cs_byzantineThreshold :: f64
  cs_minVisibilityCount :: int

definition NewClothoSelector :: clotho_selector where
  "NewClothoSelector = \<lparr>cs_mu = unlocked, cs_clothos = [], cs_byzantineThreshold = two_thirds,
     cs_minVisibilityCount = 3\<rparr>"

definition set_cs_mu :: "rwmutex \<Rightarrow> clotho_selector \<Rightarrow> clotho_selector" where
  "set_cs_mu m cs = cs\<lparr>cs_mu := m\<rparr>"

interpretation cs_mutex: mutex_field cs_mu set_cs_mu
  by unfold_locales (simp_all add: set_cs_mu_def)

section \<open>The conditions on a candidate\<close>

definition CS_canSee :: "event_id \<Rightarrow> event_id \<Rightarrow> 'a dag_scheme \<Rightarrow> bool" where
  "CS_canSee eventA eventB d =
     (case (go_get (d_Events d) eventA, go_get (d_Events d) eventB) of
        (Some a, Some b) \<Rightarrow>
          (if ev_Round (d_heap d a) = ev_Round (d_heap d b) then True
           else if ev_Round (d_heap d a) = ev_Round (d_heap d b) + 1
           then dfs_ancestor (parent_graph_of d) eventB eventA
           else False)
      | _ \<Rightarrow> False)"

definition CS_isFamous :: "crypto \<Rightarrow> event \<Rightarrow> fame_voting option \<Rightarrow> bool" where
  "CS_isFamous x witness fv =
     (case fv of
        Some fv \<Rightarrow> go_true (fv_famousWitnesses fv) (hash_of x witness)
      | None \<Rightarrow> ev_IsFamous witness = Some True)"

definition CS_hasEventsInNextRound :: "u64 \<Rightarrow> 'a dag_scheme \<Rightarrow> clotho_selector \<Rightarrow> bool" where
  "CS_hasEventsInNextRound r d cs =
     (let nextRound = r + 1;
          eventCount = count_if (\<lambda>e. ev_Round e = nextRound) (events_seq d)
      in if r = 0 \<and> eventCount = 0 then True else int eventCount \<ge> cs_minVisibilityCount cs)"

definition CS_seeCount :: "crypto \<Rightarrow> event \<Rightarrow> u64 \<Rightarrow> 'a dag_scheme \<Rightarrow> nat" where
  "CS_seeCount x witness nextRound d =
     count_if (\<lambda>e. ev_Round e = nextRound \<and> CS_canSee (hash_of x e) (hash_of x witness) d) (events_seq d)"

definition CS_hasConsensusInNextRound ::
  "crypto \<Rightarrow> event \<Rightarrow> u64 \<Rightarrow> 'a dag_scheme \<Rightarrow> clotho_selector \<Rightarrow> bool" where
  "CS_hasConsensusInNextRound x witness r d cs =
     (let nextRound = r + 1;
          seeCount = CS_seeCount x witness nextRound d;
          totalEvents = count_if (\<lambda>e. ev_Round e = nextRound) (events_seq d)
      in if r = 0 \<and> totalEvents = 0 then True
         else if totalEvents = 0 then False
         else ratio_at_least (cs_byzantineThreshold cs) seeCount totalEvents)"

definition CS_hasProperVisibility ::
  "crypto \<Rightarrow> event \<Rightarrow> u64 \<Rightarrow> 'a dag_scheme \<Rightarrow> clotho_selector \<Rightarrow> bool" where
  "CS_hasProperVisibility x witness r d cs =
     (let nextRound = r + 1;
          seeCount = CS_seeCount x witness nextRound d;
          totalEvents = count_if (\<lambda>e. ev_Round e = nextRound) (events_seq d)
      in if totalEvents = 0 then False
         else ratio_at_least (cs_byzantineThreshold cs) seeCount totalEvents)"

text \<open>
  One vote per creator of the next round, cast by the first of the creator's events that the loop
  meets: the loop state is the set of creators met, their number and the number of yes votes.
\<close>

fun CS_validator_loop ::
  "(event \<Rightarrow> bool) \<Rightarrow> u64 \<Rightarrow> event list \<Rightarrow> string list \<Rightarrow> nat \<Rightarrow> nat \<Rightarrow> nat \<times> nat" where
  "CS_validator_loop sees nextRound [] validators validatorCount seeCount = (validatorCount, seeCount)"
| "CS_validator_loop sees nextRound (e # es) validators validatorCount seeCount =
     (if ev_Round e = nextRound \<and> ev_CreatorID e \<notin> set validators
      then CS_validator_loop sees nextRound es (ev_CreatorID e # validators) (validatorCount + 1)
             (if sees e then seeCount + 1 else seeCount)
      else CS_validator_loop sees nextRound es validators validatorCount seeCount)"

definition CS_satisfiesByzantineFaultTolerance ::
  "crypto \<Rightarrow> event \<Rightarrow> u64 \<Rightarrow> 'a dag_scheme \<Rightarrow> clotho_selector \<Rightarrow> bool" where
  "CS_satisfiesByzantineFaultTolerance x witness r d cs =
     (case CS_validator_loop (\<lambda>e. CS_canSee (hash_of x e) (hash_of x witness) d) (r + 1)
             (events_seq d) [] 0 0 of
        (validatorCount, seeCount) \<Rightarrow>
          if validatorCount = 0 then False
          else ratio_at_least (cs_byzantineThreshold cs) seeCount validatorCount)"

definition CS_isClothoCandidate ::
  "crypto \<Rightarrow> event \<Rightarrow> u64 \<Rightarrow> 'a dag_scheme \<Rightarrow> fame_voting option \<Rightarrow> clotho_selector \<Rightarrow> bool" where
  "CS_isClothoCandidate x witness r d fv cs =
     (if \<not> CS_isFamous x witness fv then False
      else if \<not> CS_hasEventsInNextRound r d cs then False
      else if \<not> CS_hasConsensusInNextRound x witness r d cs then False
      else if \<not> CS_hasProperVisibility x witness r d cs then False
      else if \<not> CS_satisfiesByzantineFaultTolerance x witness r d cs then False
      else True)"

section \<open>Selection\<close>

text \<open>The first round-0 event the loop meets, then \<open>break\<close>.\<close>

fun CS_first_in_round0 :: "crypto \<Rightarrow> (eref \<Rightarrow> event) \<Rightarrow> (event_id, eref) gomap \<Rightarrow> (event_id, eref) gomap" where
  "CS_first_in_round0 x heap [] = []"
| "CS_first_in_round0 x heap ((i, p) # evs) =
     (if ev_Round (heap p) = 0 then [(hash_of x (heap p), p)] else CS_first_in_round0 x heap evs)"

definition CS_getFamousWitnesses ::
  "crypto \<Rightarrow> u64 \<Rightarrow> 'a dag_scheme \<Rightarrow> fame_voting option \<Rightarrow> (event_id, eref) gomap" where
  "CS_getFamousWitnesses x r d fv =
     (if r = 0 then
        let famousWitnesses = collect_events x (\<lambda>e. ev_Round e = 0 \<and> ev_CreatorID e = ''genesis'')
              (d_heap d) (d_Events d) []
        in if famousWitnesses = [] then CS_first_in_round0 x (d_heap d) (d_Events d) else famousWitnesses
      else collect_events x (\<lambda>e. ev_Round e = r \<and> CS_isFamous x e fv) (d_heap d) (d_Events d) [])"

fun CS_selectClothosFromWitnesses ::
  "crypto \<Rightarrow> (event_id, eref) gomap \<Rightarrow> u64 \<Rightarrow> 'a dag_scheme \<Rightarrow> fame_voting option \<Rightarrow>
   clotho_selector \<Rightarrow> (event_id, eref) gomap \<Rightarrow> (event_id, eref) gomap" where
  "CS_selectClothosFromWitnesses x [] r d fv cs clothos = clothos"
| "CS_selectClothosFromWitnesses x ((i, p) # ws) r d fv cs clothos =
     CS_selectClothosFromWitnesses x ws r d fv cs
       (if CS_isClothoCandidate x (d_heap d p) r d fv cs then go_put i p clothos else clothos)"

definition CS_SelectClothos ::
  "crypto \<Rightarrow> u64 \<Rightarrow> 'a dag_scheme \<Rightarrow> fame_voting option \<Rightarrow> clotho_selector \<Rightarrow>
   (string option \<times> clotho_selector) outcome" where
  "CS_SelectClothos x r d fv = with_Lock cs_mu set_cs_mu (\<lambda>cs.
     if go_has (cs_clothos cs) r then Returns (None, cs)
     else
       let famousWitnesses = CS_getFamousWitnesses x r d fv in
       if famousWitnesses = []
       then Returns (Some (''no famous witnesses found for round '' @ dec (unat r)), cs)
       else Returns (None, cs\<lparr>cs_clothos :=
              go_put r (CS_selectClothosFromWitnesses x famousWitnesses r d fv cs []) (cs_clothos cs)\<rparr>))"

definition CS_GetClothos :: "u64 \<Rightarrow> clotho_selector \<Rightarrow> ((event_id, eref) gomap \<times> clotho_selector) outcome" where
  "CS_GetClothos r = with_RLock cs_mu set_cs_mu (\<lambda>cs.
     Returns (case go_get (cs_clothos cs) r of Some clothos \<Rightarrow> clothos | None \<Rightarrow> [], cs))"

definition CS_GetAllClothos ::
  "clotho_selector \<Rightarrow> ((u64, (event_id, eref) gomap) gomap \<times> clotho_selector) outcome" where
  "CS_GetAllClothos = with_RLock cs_mu set_cs_mu (\<lambda>cs.
     Returns (fold (\<lambda>(r, c). go_put r c) (cs_clothos cs) [], cs))"

text \<open>\<open>fmt.Sprintf("%x", clothoID[:8])\<close>: the first eight bytes.\<close>

definition CS_getClothoIDs :: "(event_id, eref) gomap \<Rightarrow> string list" where
  "CS_getClothoIDs clothos = map (\<lambda>(i, _). hex_fixed 16 (unat (drop_bit 192 i))) clothos"

record clotho_stats =
  st_total_clothos :: nat
  st_round_stats :: "(u64 \<times> nat \<times> string list) list" \<comment> \<open>round, clotho_count, clotho_ids\<close>
  st_byzantine_threshold :: f64
  st_min_visibility_count :: int

definition CS_GetClothoStats :: "clotho_selector \<Rightarrow> (clotho_stats \<times> clotho_selector) outcome" where
  "CS_GetClothoStats = with_RLock cs_mu set_cs_mu (\<lambda>cs.
     Returns (\<lparr>st_total_clothos = sum_list (map (\<lambda>(r, c). length c) (cs_clothos cs)),
       st_round_stats = map (\<lambda>(r, c). (r, length c, CS_getClothoIDs c)) (cs_clothos cs),
       st_byzantine_threshold = cs_byzantineThreshold cs,
       st_min_visibility_count = cs_minVisibilityCount cs\<rparr>, cs))"

definition CS_Reset :: "clotho_selector \<Rightarrow> (unit \<times> clotho_selector) outcome" where
  "CS_Reset = with_Lock cs_mu set_cs_mu (\<lambda>cs. Returns ((), cs\<lparr>cs_clothos := []\<rparr>))"


section \<open>Lemmas\<close>

lemma CS_canSee_eq: "CS_canSee = (FV_canSee :: _ \<Rightarrow> _ \<Rightarrow> 'a dag_scheme \<Rightarrow> bool)"
  by (intro ext) (simp add: CS_canSee_def FV_canSee_def)

lemma validator_loop_bounds:
  "CS_validator_loop sees n es vs c s = (c', s') \<Longrightarrow>
   c \<le> c' \<and> s \<le> s' \<and> s' - s \<le> c' - c \<and> c' \<le> c + count_if (\<lambda>e. ev_Round e = n) es"
  by (induction es arbitrary: vs c s) (auto split: if_splits, fastforce+)

lemma validator_loop_sees_none:
  "\<forall>e \<in> set es. ev_Round e = n \<longrightarrow> \<not> sees e \<Longrightarrow> snd (CS_validator_loop sees n es vs c s) = s"
  by (induction es arbitrary: vs c s) auto

lemma see_count_le: "CS_seeCount x w n d \<le> count_if (\<lambda>e. ev_Round e = n) (events_seq d)"
  unfolding CS_seeCount_def by (rule count_if_le) simp

text \<open>The events of a round that see a witness, as a set of identifiers.\<close>

definition round_ids :: "u64 \<Rightarrow> 'a dag_scheme \<Rightarrow> event_id set" where
  "round_ids n d = {i. \<exists>p. (i, p) \<in> set (d_Events d) \<and> ev_Round (d_heap d p) = n}"

definition seeing_ids :: "event_id \<Rightarrow> u64 \<Rightarrow> 'a dag_scheme \<Rightarrow> event_id set" where
  "seeing_ids w n d = {i \<in> round_ids n d. CS_canSee i w d}"

lemma round_ids_finite [simp]: "finite (round_ids n d)"
  by (rule finite_subset [of _ "fst ` set (d_Events d)"]) (force simp: round_ids_def)+

lemma seeing_subset: "seeing_ids w n d \<subseteq> round_ids n d"
  by (auto simp: seeing_ids_def)

lemma count_keyed_card:
  assumes "keyed_dag x d"
  shows "count_if c (events_seq d) = card {i. \<exists>p. (i, p) \<in> set (d_Events d) \<and> c (d_heap d p)}"
proof -
  let ?es = "filter (\<lambda>(i, p). c (d_heap d p)) (d_Events d)"
  have "distinct (map fst ?es)" using assms by (simp add: keyed_dag_def wf_gomap_def distinct_map_filter)
  then have "card (set (map fst ?es)) = length ?es" by (metis distinct_card length_map)
  moreover have "set (map fst ?es) = {i. \<exists>p. (i, p) \<in> set (d_Events d) \<and> c (d_heap d p)}" by force
  ultimately show ?thesis unfolding count_events_keyed by (simp add: count_if_filter)
qed

lemma card_round_ids: "keyed_dag x d \<Longrightarrow> card (round_ids n d) = count_if (\<lambda>e. ev_Round e = n) (events_seq d)"
  by (simp add: count_keyed_card round_ids_def)

lemma card_seeing_ids:
  assumes "keyed_dag x d"
  shows "card (seeing_ids (hash_of x w) n d) = CS_seeCount x w n d"
proof -
  have "seeing_ids (hash_of x w) n d = {i. \<exists>p. (i, p) \<in> set (d_Events d) \<and>
      ev_Round (d_heap d p) = n \<and> CS_canSee (hash_of x (d_heap d p)) (hash_of x w) d}"
    using assms keyed_dag_get [OF assms] by (auto simp: seeing_ids_def round_ids_def)
  then show ?thesis by (simp add: count_keyed_card [OF assms] CS_seeCount_def)
qed

lemma select_loop_subset:
  "set (CS_selectClothosFromWitnesses x ws r d fv cs m) \<subseteq>
     set m \<union> {(i, p) \<in> set ws. CS_isClothoCandidate x (d_heap d p) r d fv cs}"
proof (induction ws arbitrary: m)
  case Nil
  then show ?case by simp
next
  case (Cons a ws)
  obtain i p where a: "a = (i, p)" by (cases a)
  show ?case
    using Cons.IH [of "if CS_isClothoCandidate x (d_heap d p) r d fv cs then go_put i p m else m"]
      set_go_put_subset [of i p m]
    by (auto simp: a split: if_splits)
qed

text \<open>Selection under a free mutex.\<close>

lemma SelectClothos_free:
  assumes "cs_mu cs = unlocked"
  shows "CS_SelectClothos x r d fv cs =
    (if go_has (cs_clothos cs) r then Returns (None, cs)
     else if CS_getFamousWitnesses x r d fv = []
     then Returns (Some (''no famous witnesses found for round '' @ dec (unat r)), cs)
     else Returns (None, cs\<lparr>cs_clothos := go_put r (CS_selectClothosFromWitnesses x
       (CS_getFamousWitnesses x r d fv) r d fv (set_cs_mu (unlocked\<lparr>rw_writer := True\<rparr>) cs) []) (cs_clothos cs)\<rparr>))"
  using assms unfolding CS_SelectClothos_def
  by (simp add: with_Lock_def rw_Lock_def rw_Unlock_def unlocked_def set_cs_mu_def Let_def)

lemma candidate_set_mu [simp]:
  "CS_isClothoCandidate x w r d fv (set_cs_mu m cs) = CS_isClothoCandidate x w r d fv cs"
  by (simp add: CS_isClothoCandidate_def CS_hasEventsInNextRound_def CS_hasConsensusInNextRound_def
      CS_hasProperVisibility_def CS_satisfiesByzantineFaultTolerance_def set_cs_mu_def split: prod.split)

lemma isClothoCandidate_iff:
  assumes "cs_byzantineThreshold cs = two_thirds" and "cs_minVisibilityCount cs = 3"
    and "length (d_Events d) < 2 ^ 50"
    and "CS_validator_loop (\<lambda>e. CS_canSee (hash_of x e) (hash_of x w) d) (r + 1) (events_seq d) [] 0 0 = (v, s)"
  shows "CS_isClothoCandidate x w r d fv cs \<longleftrightarrow>
    CS_isFamous x w fv \<and> 3 \<le> count_if (\<lambda>e. ev_Round e = r + 1) (events_seq d) \<and>
    2 * count_if (\<lambda>e. ev_Round e = r + 1) (events_seq d) \<le> 3 * CS_seeCount x w (r + 1) d \<and>
    2 * v \<le> 3 * s \<and> 0 < v"
proof -
  let ?n = "count_if (\<lambda>e. ev_Round e = r + 1) (events_seq d)"
  have n: "?n < 2 ^ 50"
    using assms(3) count_if_le_length [of "\<lambda>e. ev_Round e = r + 1" "events_seq d"] by (simp add: events_seq_def)
  have vs: "s \<le> v" "v \<le> ?n" using validator_loop_bounds [OF assms(4)] by auto
  have v: "0 < v \<Longrightarrow> ratio_at_least two_thirds s v \<longleftrightarrow> 2 * v \<le> 3 * s"
    using vs n by (intro bft.reaches_iff) auto
  have t: "0 < ?n \<Longrightarrow> ratio_at_least two_thirds (CS_seeCount x w (r + 1) d) ?n \<longleftrightarrow>
      2 * ?n \<le> 3 * CS_seeCount x w (r + 1) d"
    using n by (intro bft.reaches_iff see_count_le) auto
  have e: "CS_hasEventsInNextRound r d cs \<longleftrightarrow> r = 0 \<and> ?n = 0 \<or> 3 \<le> ?n"
    using assms(2) by (auto simp: CS_hasEventsInNextRound_def Let_def)
  have p: "CS_hasProperVisibility x w r d cs \<longleftrightarrow> 0 < ?n \<and> 2 * ?n \<le> 3 * CS_seeCount x w (r + 1) d"
    using t assms(1) by (auto simp: CS_hasProperVisibility_def Let_def)
  have c: "CS_hasConsensusInNextRound x w r d cs \<longleftrightarrow>
      r = 0 \<and> ?n = 0 \<or> 0 < ?n \<and> 2 * ?n \<le> 3 * CS_seeCount x w (r + 1) d"
    using t assms(1) by (auto simp: CS_hasConsensusInNextRound_def Let_def)
  have b: "CS_satisfiesByzantineFaultTolerance x w r d cs \<longleftrightarrow> 0 < v \<and> 2 * v \<le> 3 * s"
    using v assms(1,4) by (auto simp: CS_satisfiesByzantineFaultTolerance_def)
  show ?thesis unfolding CS_isClothoCandidate_def e p c b by auto
qed


text \<open>A witness of round 0 seen by three events of round 1, for the examples.\<close>

definition clotho_event :: "string \<Rightarrow> u64 \<Rightarrow> event_id list \<Rightarrow> event_id \<Rightarrow> event" where
  "clotho_event c r ps i = zero_event\<lparr>ev_CreatorID := c, ev_Round := r, ev_Parents := ps,
     ev_IsFamous := Some True, ev_hash := Some i\<rparr>"

definition clotho_dag :: "(event_id \<times> eref) list \<Rightarrow> dag" where
  "clotho_dag evs = (NewDAG (\<lambda>p.
     if p = 11 then clotho_event ''A'' 0 [] 1 else if p = 12 then clotho_event ''A'' 1 [1] 2
     else if p = 13 then clotho_event ''A'' 1 [] 3 else if p = 14 then clotho_event ''B'' 1 [1] 4
     else clotho_event ''C'' 1 [1] 5))\<lparr>d_Events := evs\<rparr>"

lemma clotho_dag_sees:
  fixes evs :: "(event_id \<times> eref) list"
  assumes "evs = [(1, 11), (2, 12), (3, 13), (4, 14)] \<or> evs = [(1, 11), (3, 13), (2, 12), (4, 14)]"
  shows "CS_canSee 2 1 (clotho_dag evs)" "\<not> CS_canSee 3 1 (clotho_dag evs)" "CS_canSee 4 1 (clotho_dag evs)"
  using assms
  by (auto simp: CS_canSee_def clotho_dag_def clotho_event_def NewDAG_def zero_event_def
      dfs_ancestor_def parent_graph_of_def)

lemma clotho_dag_votes:
  "CS_validator_loop (\<lambda>e. CS_canSee (hash_of sample_crypto e) 1 (clotho_dag evs)) 1
     (events_seq (clotho_dag [(1, 11), (2, 12), (3, 13), (4, 14)])) [] 0 0 =
   (2, (if CS_canSee 2 1 (clotho_dag evs) then 1 else 0) + (if CS_canSee 4 1 (clotho_dag evs) then 1 else 0))"
  "CS_validator_loop (\<lambda>e. CS_canSee (hash_of sample_crypto e) 1 (clotho_dag evs)) 1
     (events_seq (clotho_dag [(1, 11), (3, 13), (2, 12), (4, 14)])) [] 0 0 =
   (2, (if CS_canSee 3 1 (clotho_dag evs) then 1 else 0) + (if CS_canSee 4 1 (clotho_dag evs) then 1 else 0))"
  by (simp_all add: events_seq_def clotho_dag_def NewDAG_def clotho_event_def)

lemma clotho_dag_hash: "hash_of sample_crypto (d_heap (clotho_dag evs) 11) = 1"
  by (simp add: clotho_dag_def NewDAG_def clotho_event_def)

lemma clotho_example_accepts:
  defines "d \<equiv> clotho_dag [(1, 11), (2, 12), (3, 13), (4, 14)]"
  shows "CS_isClothoCandidate sample_crypto (d_heap d 11) 0 d None NewClothoSelector"
proof -
  have v: "CS_validator_loop (\<lambda>e. CS_canSee (hash_of sample_crypto e) (hash_of sample_crypto (d_heap d 11)) d)
      (0 + 1) (events_seq d) [] 0 0 = (2, 2)"
    unfolding d_def clotho_dag_hash
    using clotho_dag_votes(1) [of "[(1, 11), (2, 12), (3, 13), (4, 14)]"]
      clotho_dag_sees [of "[(1, 11), (2, 12), (3, 13), (4, 14)]"] by simp
  have "CS_seeCount sample_crypto (d_heap d 11) 1 d = 2" "count_if (\<lambda>e. ev_Round e = 1) (events_seq d) = 3"
    using clotho_dag_sees [of "[(1, 11), (2, 12), (3, 13), (4, 14)]"]
    by (simp_all add: CS_seeCount_def d_def clotho_dag_hash)
       (simp_all add: events_seq_def clotho_dag_def NewDAG_def clotho_event_def)
  then show ?thesis
    using isClothoCandidate_iff [OF _ _ _ v, of NewClothoSelector None]
    by (simp add: NewClothoSelector_def d_def CS_isFamous_def)
       (simp add: clotho_dag_def NewDAG_def clotho_event_def)
qed

lemma clotho_example_rejects:
  defines "d \<equiv> clotho_dag [(1, 11), (3, 13), (2, 12), (4, 14)]"
  shows "\<not> CS_isClothoCandidate sample_crypto (d_heap d 11) 0 d None NewClothoSelector"
proof -
  have v: "CS_validator_loop (\<lambda>e. CS_canSee (hash_of sample_crypto e) (hash_of sample_crypto (d_heap d 11)) d)
      (0 + 1) (events_seq d) [] 0 0 = (2, 1)"
    unfolding d_def clotho_dag_hash
    using clotho_dag_votes(2) [of "[(1, 11), (3, 13), (2, 12), (4, 14)]"] clotho_dag_sees [of "[(1, 11), (3, 13), (2, 12), (4, 14)]"] by simp
  show ?thesis
    using isClothoCandidate_iff [OF _ _ _ v, of NewClothoSelector None]
    by (simp add: NewClothoSelector_def d_def) (simp add: clotho_dag_def NewDAG_def)
qed

section \<open>Properties\<close>

text \<open>
  C13. When a witness is a Clotho candidate, in integers. With the constructor's parameters, a
  witness of round \<open>r\<close> is accepted exactly when it is famous, round \<open>r + 1\<close> holds at least three
  stored events, at least two thirds of these see it, and at least two thirds of the creators that
  loop meets see it. In particular the exemption two of the conditions make for a round 0 without
  successors is without effect: such a witness is rejected by the other two.
\<close>

theorem clotho_candidate_iff:
  assumes "cs_byzantineThreshold cs = two_thirds" and "cs_minVisibilityCount cs = 3"
    and "length (d_Events d) < 2 ^ 50"
    and "CS_validator_loop (\<lambda>e. CS_canSee (hash_of x e) (hash_of x w) d) (r + 1) (events_seq d) [] 0 0 = (v, s)"
  shows "CS_isClothoCandidate x w r d fv cs \<longleftrightarrow>
    CS_isFamous x w fv \<and> 3 \<le> count_if (\<lambda>e. ev_Round e = r + 1) (events_seq d) \<and>
    2 * count_if (\<lambda>e. ev_Round e = r + 1) (events_seq d) \<le> 3 * CS_seeCount x w (r + 1) d \<and>
    2 * v \<le> 3 * s \<and> 0 < v"
  using assms by (rule isClothoCandidate_iff)

theorem clotho_candidate_iff_witness:
  "\<not> CS_isClothoCandidate sample_crypto zero_event 0 one_event_dag None NewClothoSelector"
  using clotho_candidate_iff [of NewClothoSelector one_event_dag sample_crypto zero_event 0 0 0 None]
  by (simp add: NewClothoSelector_def one_event_dag_def NewDAG_def events_seq_def zero_event_def)

text \<open>
  Any two Clothos of a round share a third of the next round: whenever two witnesses of round \<open>r\<close>
  are accepted, at least a third of the stored events of round \<open>r + 1\<close> see both of them.
\<close>

theorem clothos_share_a_third:
  assumes "keyed_dag x d" and "cs_byzantineThreshold cs = two_thirds" and "length (d_Events d) < 2 ^ 50"
    and "CS_isClothoCandidate x w r d fv cs" and "CS_isClothoCandidate x w' r d fv cs"
  shows "round_ids (r + 1) d \<noteq> {} \<and> card (round_ids (r + 1) d) \<le>
    3 * card (seeing_ids (hash_of x w) (r + 1) d \<inter> seeing_ids (hash_of x w') (r + 1) d)"
proof -
  have vis: "CS_hasProperVisibility x w r d cs" "CS_hasProperVisibility x w' r d cs"
    using assms(4,5) by (auto simp: CS_isClothoCandidate_def split: if_splits)
  have n: "card (round_ids (r + 1) d) < 2 ^ 50"
    using assms(3) count_if_le_length [of "\<lambda>e. ev_Round e = r + 1" "events_seq d"]
    by (simp add: card_round_ids [OF assms(1)] events_seq_def)
  have q: "card (round_ids (r + 1) d) \<noteq> 0"
    "ratio_at_least two_thirds (card (seeing_ids (hash_of x w) (r + 1) d)) (card (round_ids (r + 1) d))"
    "ratio_at_least two_thirds (card (seeing_ids (hash_of x w') (r + 1) d)) (card (round_ids (r + 1) d))"
    using vis assms(2)
    by (auto simp: CS_hasProperVisibility_def Let_def card_round_ids [OF assms(1)]
        card_seeing_ids [OF assms(1)] split: if_splits)
  then have "round_ids (r + 1) d \<noteq> {}" by auto
  then show ?thesis using q(2,3) n by (intro conjI bft.reaches_intersect seeing_subset) simp_all
qed

theorem clothos_share_a_third_witness:
  "card (round_ids 1 (clotho_dag [(1, 11), (2, 12), (3, 13), (4, 14)])) \<le>
   3 * card (seeing_ids 1 1 (clotho_dag [(1, 11), (2, 12), (3, 13), (4, 14)]))"
proof -
  let ?d = "clotho_dag [(1, 11), (2, 12), (3, 13), (4, 14)]"
  have k: "keyed_dag sample_crypto ?d"
    by (simp add: keyed_dag_def wf_gomap_def clotho_dag_def NewDAG_def clotho_event_def)
  have c: "CS_isClothoCandidate sample_crypto (d_heap ?d 11) 0 ?d None NewClothoSelector"
    by (rule clotho_example_accepts)
  show ?thesis
    using clothos_share_a_third [OF k _ _ c c] 
    by (simp add: NewClothoSelector_def) (simp add: clotho_dag_def NewDAG_def clotho_event_def)
qed

text \<open>
  Selection depends on the order of a map: there are two DAGs that differ only in the order in
  which the \<open>range\<close> loops meet the same stored events, and the same famous witness is accepted in one
  and rejected in the other, because a creator with two events in the next round votes with
  whichever comes first.
\<close>

theorem clotho_depends_on_map_order:
  "\<exists>(d :: dag) (d' :: dag). d_heap d = d_heap d' \<and> mset (d_Events d) = mset (d_Events d') \<and>
     d_Rounds d = d_Rounds d' \<and> keyed_dag sample_crypto d \<and>
     CS_isClothoCandidate sample_crypto (d_heap d 11) 0 d None NewClothoSelector \<and>
     \<not> CS_isClothoCandidate sample_crypto (d_heap d' 11) 0 d' None NewClothoSelector"
proof -
  let ?d = "clotho_dag [(1, 11), (2, 12), (3, 13), (4, 14)]" and ?d' = "clotho_dag [(1, 11), (3, 13), (2, 12), (4, 14)]"
  have same: "d_heap ?d = d_heap ?d'" "mset (d_Events ?d) = mset (d_Events ?d')" "d_Rounds ?d = d_Rounds ?d'"
    "keyed_dag sample_crypto ?d"
    by (simp_all add: clotho_dag_def NewDAG_def keyed_dag_def wf_gomap_def clotho_event_def)
  show ?thesis
    by (rule exI [of _ ?d], rule exI [of _ ?d'], intro conjI)
       (fact same clotho_example_accepts clotho_example_rejects)+
qed

text \<open>
  The first selection for a round is the last: once a round has an entry, \<open>SelectClothos\<close> leaves
  the selector as it is, whatever events, votes or fame the DAG has gained. And in every state the
  fame component can reach, the entry that a free selector makes for a round without one
  contains no Clotho.
\<close>

theorem select_clothos_frozen_and_empty:
  assumes "cs_mu cs = unlocked" and "fv_reachable x fv"
  shows "\<exists>res cs'. CS_SelectClothos x r d (Some fv) cs = Returns (res, cs') \<and>
    (go_has (cs_clothos cs) r \<longrightarrow> cs' = cs \<and> res = None) \<and>
    (\<not> go_has (cs_clothos cs) r \<longrightarrow> go_get (cs_clothos cs') r = (if res = None then Some [] else None)) \<and>
    (0 < r \<and> \<not> go_has (cs_clothos cs) r \<longrightarrow> res \<noteq> None)"
proof -
  have nf: "fv_famousWitnesses fv = []"
    using fv_reachable_undecided [OF assms(2)] by (simp add: undecided_def)
  then have none: "\<not> CS_isFamous x e (Some fv)" for e by (simp add: CS_isFamous_def go_true_def)
  have sel: "CS_selectClothosFromWitnesses x ws r d (Some fv) cs' [] = []" for ws cs'
    using select_loop_subset [of x ws r d "Some fv" cs' "[]"] none by (auto simp: CS_isClothoCandidate_def)
  have "collect_events x (\<lambda>e. ev_Round e = r \<and> CS_isFamous x e (Some fv)) heap evs m = m" for heap evs m
    by (induction evs arbitrary: m) (auto simp: none)
  then have "0 < r \<Longrightarrow> CS_getFamousWitnesses x r d (Some fv) = []" by (auto simp add: CS_getFamousWitnesses_def)
  then show ?thesis using assms(1) by (auto simp: SelectClothos_free sel)
qed

theorem select_clothos_frozen_and_empty_witness:
  "\<exists>cs'. CS_SelectClothos sample_crypto 0 one_event_dag (Some NewFameVoting) NewClothoSelector = Returns (None, cs') \<and>
     go_get (cs_clothos cs') 0 = Some []"
proof -
  have m: "cs_mu NewClothoSelector = unlocked" by (simp add: NewClothoSelector_def)
  have "CS_getFamousWitnesses sample_crypto 0 one_event_dag (Some NewFameVoting) \<noteq> []"
    by (simp add: CS_getFamousWitnesses_def one_event_dag_def NewDAG_def zero_event_def)
  then have "\<exists>cs'. CS_SelectClothos sample_crypto 0 one_event_dag (Some NewFameVoting) NewClothoSelector = Returns (None, cs')"
    by (simp add: SelectClothos_free [OF m])
  then show ?thesis
    using select_clothos_frozen_and_empty [OF m fv_new, of sample_crypto 0 one_event_dag]
    by (auto simp: NewClothoSelector_def)
qed

end
