(* ===== verification/Cache_Manager.thy ===== *)
theory Cache_Manager
  imports Dag "HOL-Library.Signed_Division"
begin

text \<open>
  The \<open>CacheManager\<close> of \<open>consensus.go\<close>: four bounded maps with a shared size limit, a
  shared eviction routine and shared hit and miss counters.

  Every method holds the manager's mutex for its whole body and calls no other locking method, so
  an operation is one atomic step and the mutex is left out of the state. \<open>evictOldest\<close> deletes
  the first keys a \<open>range\<close> loop yields: that order is an argument, one list of keys per map. A
  consensus entry is a \<open>map[string]interface\{\}\<close>, of which the program only uses the keys
  \<open>clothos\<close> and \<open>famous_witnesses\<close>.
\<close>

section \<open>State\<close>

record consensus_data =
  cd_clothos :: "eref list option"
  cd_famous_witnesses :: "eref list option"

record cache_manager =
  cm_eventCache :: "(event_id, eref) gomap"
  cm_voteCache :: "(string, vote) gomap"
  cm_consensusCache :: "(u64, consensus_data) gomap"
  cm_stateCache :: "(string, int) gomap"
  cm_maxCacheSize :: int
  cm_cacheHits :: u64
  cm_cacheMisses :: u64

definition NewCacheManager :: "int \<Rightarrow> cache_manager" where
  "NewCacheManager maxSize = \<lparr>cm_eventCache = [], cm_voteCache = [], cm_consensusCache = [],
     cm_stateCache = [], cm_maxCacheSize = maxSize, cm_cacheHits = 0, cm_cacheMisses = 0\<rparr>"

section \<open>Eviction\<close>

text \<open>The order in which one run of \<open>evictOldest\<close> meets the keys of each map.\<close>

record key_orders =
  ko_event :: "event_id list"
  ko_vote :: "string list"
  ko_consensus :: "u64 list"
  ko_state :: "string list"

definition evict_from :: "int \<Rightarrow> 'k list \<Rightarrow> ('k, 'v) gomap \<Rightarrow> ('k, 'v) gomap" where
  "evict_from evictCount keys m =
     (if int (length m) > evictCount then fold go_del (take (nat evictCount) keys) m else m)"

definition CM_evictOldest :: "key_orders \<Rightarrow> cache_manager \<Rightarrow> cache_manager" where
  "CM_evictOldest ko cm =
     (let evictCount = cm_maxCacheSize cm sdiv 5 in
      cm\<lparr>cm_eventCache := evict_from evictCount (ko_event ko) (cm_eventCache cm),
         cm_voteCache := evict_from evictCount (ko_vote ko) (cm_voteCache cm),
         cm_consensusCache := evict_from evictCount (ko_consensus ko) (cm_consensusCache cm),
         cm_stateCache := evict_from evictCount (ko_state ko) (cm_stateCache cm)\<rparr>)"

section \<open>Lookups and stores\<close>

definition CM_count :: "'v option \<Rightarrow> cache_manager \<Rightarrow> cache_manager" where
  "CM_count found cm =
     (if found \<noteq> None then cm\<lparr>cm_cacheHits := cm_cacheHits cm + 1\<rparr>
      else cm\<lparr>cm_cacheMisses := cm_cacheMisses cm + 1\<rparr>)"

definition CM_GetEvent :: "event_id \<Rightarrow> cache_manager \<Rightarrow> eref option \<times> cache_manager" where
  "CM_GetEvent k cm = (let v = go_get (cm_eventCache cm) k in (v, CM_count v cm))"

definition CM_SetEvent :: "key_orders \<Rightarrow> event_id \<Rightarrow> eref \<Rightarrow> cache_manager \<Rightarrow> cache_manager" where
  "CM_SetEvent ko k v cm =
     (let cm1 = (if int (length (cm_eventCache cm)) \<ge> cm_maxCacheSize cm then CM_evictOldest ko cm else cm)
      in cm1\<lparr>cm_eventCache := go_put k v (cm_eventCache cm1)\<rparr>)"

definition CM_GetVote :: "string \<Rightarrow> cache_manager \<Rightarrow> vote option \<times> cache_manager" where
  "CM_GetVote k cm = (let v = go_get (cm_voteCache cm) k in (v, CM_count v cm))"

definition CM_SetVote :: "key_orders \<Rightarrow> string \<Rightarrow> vote \<Rightarrow> cache_manager \<Rightarrow> cache_manager" where
  "CM_SetVote ko k v cm =
     (let cm1 = (if int (length (cm_voteCache cm)) \<ge> cm_maxCacheSize cm then CM_evictOldest ko cm else cm)
      in cm1\<lparr>cm_voteCache := go_put k v (cm_voteCache cm1)\<rparr>)"

definition CM_GetConsensusCache :: "u64 \<Rightarrow> cache_manager \<Rightarrow> consensus_data option \<times> cache_manager" where
  "CM_GetConsensusCache k cm = (let v = go_get (cm_consensusCache cm) k in (v, CM_count v cm))"

definition CM_SetConsensusCache ::
  "key_orders \<Rightarrow> u64 \<Rightarrow> consensus_data \<Rightarrow> cache_manager \<Rightarrow> cache_manager" where
  "CM_SetConsensusCache ko k v cm =
     (let cm1 = (if int (length (cm_consensusCache cm)) \<ge> cm_maxCacheSize cm then CM_evictOldest ko cm else cm)
      in cm1\<lparr>cm_consensusCache := go_put k v (cm_consensusCache cm1)\<rparr>)"

definition CM_GetStateCache :: "string \<Rightarrow> cache_manager \<Rightarrow> int option \<times> cache_manager" where
  "CM_GetStateCache k cm = (let v = go_get (cm_stateCache cm) k in (v, CM_count v cm))"

definition CM_SetStateCache :: "key_orders \<Rightarrow> string \<Rightarrow> int \<Rightarrow> cache_manager \<Rightarrow> cache_manager" where
  "CM_SetStateCache ko k v cm =
     (let cm1 = (if int (length (cm_stateCache cm)) \<ge> cm_maxCacheSize cm then CM_evictOldest ko cm else cm)
      in cm1\<lparr>cm_stateCache := go_put k v (cm_stateCache cm1)\<rparr>)"

definition CM_ClearCache :: "cache_manager \<Rightarrow> cache_manager" where
  "CM_ClearCache cm = cm\<lparr>cm_eventCache := [], cm_voteCache := [], cm_consensusCache := [],
     cm_stateCache := [], cm_cacheHits := 0, cm_cacheMisses := 0\<rparr>"

section \<open>Eviction lemmas\<close>

text \<open>A key order of a map: each key once.\<close>

definition orders_keys :: "'k list \<Rightarrow> ('k, 'v) gomap \<Rightarrow> bool" where
  "orders_keys ks m \<longleftrightarrow> distinct ks \<and> set ks = set (map fst m)"

definition orders_all :: "key_orders \<Rightarrow> cache_manager \<Rightarrow> bool" where
  "orders_all ko cm \<longleftrightarrow> orders_keys (ko_event ko) (cm_eventCache cm) \<and>
     orders_keys (ko_vote ko) (cm_voteCache cm) \<and>
     orders_keys (ko_consensus ko) (cm_consensusCache cm) \<and>
     orders_keys (ko_state ko) (cm_stateCache cm)"

lemma fold_go_del_get: "go_get (fold go_del ks m) k = (if k \<in> set ks then None else go_get m k)"
  by (induction ks arbitrary: m) auto

lemma fold_go_del_wf: "wf_gomap m \<Longrightarrow> wf_gomap (fold go_del ks m)"
  by (induction ks arbitrary: m) auto

lemma wf_gomap_length: "wf_gomap m \<Longrightarrow> length m = card (dom (go_get m))"
  by (metis distinct_card dom_map_of_conv_image_fst length_map list.set_map wf_gomap_def)

lemma fold_go_del_length:
  assumes "wf_gomap m" "distinct ks" "set ks \<subseteq> set (map fst m)"
  shows "length (fold go_del ks m) = length m - length ks"
proof -
  have "dom (go_get (fold go_del ks m)) = dom (go_get m) - set ks"
    by (auto simp: fold_go_del_get split: if_splits)
  moreover have "set ks \<subseteq> dom (go_get m)" using assms(3) by (simp add: dom_map_of_conv_image_fst)
  ultimately show ?thesis
    using assms by (simp add: wf_gomap_length fold_go_del_wf card_Diff_subset distinct_card)
qed

lemma orders_keys_length: "wf_gomap m \<Longrightarrow> orders_keys ks m \<Longrightarrow> length ks = length m"
  by (metis distinct_card length_map orders_keys_def wf_gomap_def)

lemma evict_from_length:
  assumes "wf_gomap m" "orders_keys ks m"
  shows "length (evict_from n ks m) = (if int (length m) > n then length m - nat n else length m)"
proof (cases "int (length m) > n")
  case True
  have "length (fold go_del (take (nat n) ks) m) = length m - length (take (nat n) ks)"
    using assms by (intro fold_go_del_length) (auto simp: orders_keys_def dest: in_set_takeD)
  then show ?thesis using True orders_keys_length [OF assms] by (simp add: evict_from_def)
qed (simp add: evict_from_def)

lemma evict_from_wf [simp]: "wf_gomap m \<Longrightarrow> wf_gomap (evict_from n ks m)"
  by (simp add: evict_from_def fold_go_del_wf)

lemma evict_from_get: "go_get (evict_from n ks m) k = Some v \<Longrightarrow> go_get m k = Some v"
  by (auto simp: evict_from_def fold_go_del_get split: if_splits)

lemma evictOldest_fields [simp]:
  "cm_eventCache (CM_evictOldest ko cm) = evict_from (cm_maxCacheSize cm sdiv 5) (ko_event ko) (cm_eventCache cm)"
  "cm_voteCache (CM_evictOldest ko cm) = evict_from (cm_maxCacheSize cm sdiv 5) (ko_vote ko) (cm_voteCache cm)"
  "cm_consensusCache (CM_evictOldest ko cm) = evict_from (cm_maxCacheSize cm sdiv 5) (ko_consensus ko) (cm_consensusCache cm)"
  "cm_stateCache (CM_evictOldest ko cm) = evict_from (cm_maxCacheSize cm sdiv 5) (ko_state ko) (cm_stateCache cm)"
  "cm_maxCacheSize (CM_evictOldest ko cm) = cm_maxCacheSize cm"
  "cm_cacheHits (CM_evictOldest ko cm) = cm_cacheHits cm" "cm_cacheMisses (CM_evictOldest ko cm) = cm_cacheMisses cm"
  by (simp_all add: CM_evictOldest_def Let_def)

lemma sdiv_5: "0 \<le> n \<Longrightarrow> n sdiv 5 = n div (5 :: int)"
  by (auto simp: signed_divide_int_def sgn_if)


lemma CM_count_fields [simp]:
  "cm_eventCache (CM_count f cm) = cm_eventCache cm" "cm_voteCache (CM_count f cm) = cm_voteCache cm"
  "cm_consensusCache (CM_count f cm) = cm_consensusCache cm" "cm_stateCache (CM_count f cm) = cm_stateCache cm"
  "cm_maxCacheSize (CM_count f cm) = cm_maxCacheSize cm"
  by (simp_all add: CM_count_def)

section \<open>The interface of one cache\<close>

text \<open>
  What the four \<open>Get\<close>/\<open>Set\<close> pairs have in common: a lookup reads the pair's map and counts, a
  store may evict and then writes the map.
\<close>

locale bounded_cache =
  fixes part :: "cache_manager \<Rightarrow> ('k, 'v) gomap"
    and ord :: "key_orders \<Rightarrow> 'k list"
    and getter :: "'k \<Rightarrow> cache_manager \<Rightarrow> 'v option \<times> cache_manager"
    and setter :: "key_orders \<Rightarrow> 'k \<Rightarrow> 'v \<Rightarrow> cache_manager \<Rightarrow> cache_manager"
  assumes part_setter: "part (setter ko k v cm) = go_put k v
      (if int (length (part cm)) \<ge> cm_maxCacheSize cm
       then evict_from (cm_maxCacheSize cm sdiv 5) (ord ko) (part cm) else part cm)"
    and getter_eq: "getter k cm = (go_get (part cm) k, CM_count (go_get (part cm) k) cm)"
    and orders_part: "orders_all ko cm \<Longrightarrow> orders_keys (ord ko) (part cm)"
begin

lemma get_after_set: "fst (getter k (setter ko k v cm)) = Some v"
  by (simp add: getter_eq part_setter)

text \<open>A hit is always a stored value: a store adds nothing but its own entry.\<close>

lemma hit_was_stored:
  "k' \<noteq> k \<Longrightarrow> fst (getter k' (setter ko k v cm)) = Some w \<Longrightarrow> fst (getter k' cm) = Some w"
  by (auto simp: getter_eq part_setter dest: evict_from_get split: if_splits)

lemma get_counts: "snd (getter k cm) = CM_count (fst (getter k cm)) cm"
  by (simp add: getter_eq)

lemma setter_wf: "wf_gomap (part cm) \<Longrightarrow> wf_gomap (part (setter ko k v cm))"
  by (simp add: part_setter)

lemma setter_bound:
  assumes "5 \<le> cm_maxCacheSize cm" and "wf_gomap (part cm)" and "orders_all ko cm"
    and "int (length (part cm)) \<le> cm_maxCacheSize cm"
  shows "int (length (part (setter ko k v cm))) \<le> cm_maxCacheSize cm"
proof (cases "int (length (part cm)) \<ge> cm_maxCacheSize cm")
  case True
  let ?n = "cm_maxCacheSize cm div 5"
  have n: "1 \<le> ?n" "?n < cm_maxCacheSize cm" using assms(1) by linarith+
  have "length (evict_from ?n (ord ko) (part cm)) = length (part cm) - nat ?n"
    using True n evict_from_length [OF assms(2) orders_part [OF assms(3)], of ?n] by simp
  then have "int (length (go_put k v (evict_from ?n (ord ko) (part cm)))) \<le> int (length (part cm) - nat ?n) + 1"
    using length_go_put_le [of k v "evict_from ?n (ord ko) (part cm)"] by simp
  also have "\<dots> \<le> cm_maxCacheSize cm" using n assms(4) by linarith
  finally show ?thesis using True assms(1) by (simp add: part_setter sdiv_5)
next
  case False
  then show ?thesis using length_go_put_le [of k v "part cm"] by (simp add: part_setter)
qed

end

interpretation event_cache: bounded_cache cm_eventCache ko_event CM_GetEvent CM_SetEvent
  by unfold_locales (simp_all add: CM_SetEvent_def CM_GetEvent_def Let_def orders_all_def)

interpretation vote_cache: bounded_cache cm_voteCache ko_vote CM_GetVote CM_SetVote
  by unfold_locales (simp_all add: CM_SetVote_def CM_GetVote_def Let_def orders_all_def)

interpretation consensus_cache: bounded_cache cm_consensusCache ko_consensus CM_GetConsensusCache CM_SetConsensusCache
  by unfold_locales (simp_all add: CM_SetConsensusCache_def CM_GetConsensusCache_def Let_def orders_all_def)

interpretation state_cache: bounded_cache cm_stateCache ko_state CM_GetStateCache CM_SetStateCache
  by unfold_locales (simp_all add: CM_SetStateCache_def CM_GetStateCache_def Let_def orders_all_def)

section \<open>The size invariant\<close>

definition cache_ok :: "cache_manager \<Rightarrow> bool" where
  "cache_ok cm \<longleftrightarrow> 5 \<le> cm_maxCacheSize cm \<and>
     wf_gomap (cm_eventCache cm) \<and> int (length (cm_eventCache cm)) \<le> cm_maxCacheSize cm \<and>
     wf_gomap (cm_voteCache cm) \<and> int (length (cm_voteCache cm)) \<le> cm_maxCacheSize cm \<and>
     wf_gomap (cm_consensusCache cm) \<and> int (length (cm_consensusCache cm)) \<le> cm_maxCacheSize cm \<and>
     wf_gomap (cm_stateCache cm) \<and> int (length (cm_stateCache cm)) \<le> cm_maxCacheSize cm"

lemma evict_from_shrinks:
  "wf_gomap m \<Longrightarrow> orders_keys ks m \<Longrightarrow> int (length m) \<le> b \<Longrightarrow> int (length (evict_from n ks m)) \<le> b"
  by (simp add: evict_from_length)

lemma evictOldest_ok: "cache_ok cm \<Longrightarrow> orders_all ko cm \<Longrightarrow> cache_ok (CM_evictOldest ko cm)"
  unfolding cache_ok_def orders_all_def by (simp add: evict_from_shrinks)

text \<open>A store leaves the three other maps to the eviction.\<close>

lemma setters_elsewhere:
  "cm_maxCacheSize (CM_SetEvent ko k e cm) = cm_maxCacheSize cm"
  "cm_maxCacheSize (CM_SetVote ko s v cm) = cm_maxCacheSize cm"
  "cm_maxCacheSize (CM_SetConsensusCache ko r c cm) = cm_maxCacheSize cm"
  "cm_maxCacheSize (CM_SetStateCache ko s z cm) = cm_maxCacheSize cm"
  by (simp_all add: CM_SetEvent_def CM_SetVote_def CM_SetConsensusCache_def CM_SetStateCache_def Let_def)

lemma SetEvent_ok:
  assumes "cache_ok cm" "orders_all ko cm"
  shows "cache_ok (CM_SetEvent ko k v cm)"
proof -
  have "wf_gomap (cm_eventCache (CM_SetEvent ko k v cm))"
    "int (length (cm_eventCache (CM_SetEvent ko k v cm))) \<le> cm_maxCacheSize cm"
    using assms event_cache.setter_wf event_cache.setter_bound by (simp_all add: cache_ok_def)
  then show ?thesis using assms evictOldest_ok [OF assms]
    by (simp add: CM_SetEvent_def Let_def cache_ok_def split: if_splits)
qed

lemma SetVote_ok:
  assumes "cache_ok cm" "orders_all ko cm"
  shows "cache_ok (CM_SetVote ko k v cm)"
proof -
  have "wf_gomap (cm_voteCache (CM_SetVote ko k v cm))"
    "int (length (cm_voteCache (CM_SetVote ko k v cm))) \<le> cm_maxCacheSize cm"
    using assms vote_cache.setter_wf vote_cache.setter_bound by (simp_all add: cache_ok_def)
  then show ?thesis using assms evictOldest_ok [OF assms]
    by (simp add: CM_SetVote_def Let_def cache_ok_def split: if_splits)
qed

lemma SetConsensusCache_ok:
  assumes "cache_ok cm" "orders_all ko cm"
  shows "cache_ok (CM_SetConsensusCache ko k v cm)"
proof -
  have "wf_gomap (cm_consensusCache (CM_SetConsensusCache ko k v cm))"
    "int (length (cm_consensusCache (CM_SetConsensusCache ko k v cm))) \<le> cm_maxCacheSize cm"
    using assms consensus_cache.setter_wf consensus_cache.setter_bound by (simp_all add: cache_ok_def)
  then show ?thesis using assms evictOldest_ok [OF assms]
    by (simp add: CM_SetConsensusCache_def Let_def cache_ok_def split: if_splits)
qed

lemma SetStateCache_ok:
  assumes "cache_ok cm" "orders_all ko cm"
  shows "cache_ok (CM_SetStateCache ko k v cm)"
proof -
  have "wf_gomap (cm_stateCache (CM_SetStateCache ko k v cm))"
    "int (length (cm_stateCache (CM_SetStateCache ko k v cm))) \<le> cm_maxCacheSize cm"
    using assms state_cache.setter_wf state_cache.setter_bound by (simp_all add: cache_ok_def)
  then show ?thesis using assms evictOldest_ok [OF assms]
    by (simp add: CM_SetStateCache_def Let_def cache_ok_def split: if_splits)
qed

lemma CM_count_ok [simp]: "cache_ok (CM_count f cm) = cache_ok cm"
  by (simp add: cache_ok_def)

text \<open>The manager's life: created with a limit, then any sequence of its operations.\<close>

inductive cm_reachable :: "int \<Rightarrow> cache_manager \<Rightarrow> bool" for n where
  cm_new: "cm_reachable n (NewCacheManager n)"
| cm_getE: "cm_reachable n cm \<Longrightarrow> cm_reachable n (snd (CM_GetEvent k cm))"
| cm_getV: "cm_reachable n cm \<Longrightarrow> cm_reachable n (snd (CM_GetVote s cm))"
| cm_getC: "cm_reachable n cm \<Longrightarrow> cm_reachable n (snd (CM_GetConsensusCache r cm))"
| cm_getS: "cm_reachable n cm \<Longrightarrow> cm_reachable n (snd (CM_GetStateCache s cm))"
| cm_setE: "cm_reachable n cm \<Longrightarrow> orders_all ko cm \<Longrightarrow> cm_reachable n (CM_SetEvent ko k e cm)"
| cm_setV: "cm_reachable n cm \<Longrightarrow> orders_all ko cm \<Longrightarrow> cm_reachable n (CM_SetVote ko s v cm)"
| cm_setC: "cm_reachable n cm \<Longrightarrow> orders_all ko cm \<Longrightarrow> cm_reachable n (CM_SetConsensusCache ko r c cm)"
| cm_setS: "cm_reachable n cm \<Longrightarrow> orders_all ko cm \<Longrightarrow> cm_reachable n (CM_SetStateCache ko s z cm)"
| cm_clear: "cm_reachable n cm \<Longrightarrow> cm_reachable n (CM_ClearCache cm)"

lemma cm_reachable_ok: "cm_reachable n cm \<Longrightarrow> 5 \<le> n \<Longrightarrow> cache_ok cm \<and> cm_maxCacheSize cm = n"
proof (induction rule: cm_reachable.induct)
  case cm_new
  then show ?case by (simp add: NewCacheManager_def cache_ok_def)
next
  case (cm_clear cm)
  then show ?case by (simp add: CM_ClearCache_def cache_ok_def)
qed (simp_all add: event_cache.getter_eq vote_cache.getter_eq consensus_cache.getter_eq state_cache.getter_eq
      SetEvent_ok SetVote_ok SetConsensusCache_ok SetStateCache_ok setters_elsewhere)

section \<open>Properties\<close>

text \<open>
  C39. The caches stay within their limit. For a limit of at least five (the program uses 1000 and
  10000), after any sequence of lookups, stores and clears, and whatever order the map loops of
  \<open>evictOldest\<close> follow, none of the four maps holds more entries than \<open>maxCacheSize\<close>.
\<close>

theorem cache_bounded:
  assumes "cm_reachable n cm" and "5 \<le> n"
  shows "int (length (cm_eventCache cm)) \<le> n \<and> int (length (cm_voteCache cm)) \<le> n \<and>
    int (length (cm_consensusCache cm)) \<le> n \<and> int (length (cm_stateCache cm)) \<le> n"
  using cm_reachable_ok [OF assms] by (auto simp: cache_ok_def)

theorem cache_bounded_witness:
  "int (length (cm_eventCache (CM_SetEvent \<lparr>ko_event = [], ko_vote = [], ko_consensus = [], ko_state = []\<rparr>
     7 3 (NewCacheManager 1000)))) \<le> 1000"
proof -
  let ?ko = "\<lparr>ko_event = [], ko_vote = [], ko_consensus = [], ko_state = []\<rparr>"
  have "orders_all ?ko (NewCacheManager 1000)" by (simp add: orders_all_def orders_keys_def NewCacheManager_def)
  then have "cm_reachable 1000 (CM_SetEvent ?ko 7 3 (NewCacheManager 1000))" by (intro cm_setE cm_new)
  then show ?thesis by (rule cache_bounded [THEN conjunct1]) simp
qed

text \<open>
  What storing an event does. The event is found again; every other hit was stored before; and
  when the event cache was full, one run of \<open>evictOldest\<close> has also thrown a fifth of the limit
  out of each other cache that held more than that, full or not.
\<close>

theorem cache_set_event_spec:
  assumes "cache_ok cm" and "orders_all ko cm"
  shows "fst (CM_GetEvent k (CM_SetEvent ko k p cm)) = Some p \<and>
    (\<forall>k' q. k' \<noteq> k \<longrightarrow> fst (CM_GetEvent k' (CM_SetEvent ko k p cm)) = Some q \<longrightarrow> fst (CM_GetEvent k' cm) = Some q) \<and>
    length (cm_voteCache (CM_SetEvent ko k p cm)) =
      (if int (length (cm_eventCache cm)) = cm_maxCacheSize cm \<and>
          int (length (cm_voteCache cm)) > cm_maxCacheSize cm div 5
       then length (cm_voteCache cm) - nat (cm_maxCacheSize cm div 5) else length (cm_voteCache cm))"
proof -
  have wf: "wf_gomap (cm_voteCache cm)" "orders_keys (ko_vote ko) (cm_voteCache cm)"
    and m: "5 \<le> cm_maxCacheSize cm" "int (length (cm_eventCache cm)) \<le> cm_maxCacheSize cm"
    using assms by (simp_all add: cache_ok_def orders_all_def)
  have len: "length (cm_voteCache (CM_SetEvent ko k p cm)) =
      (if int (length (cm_eventCache cm)) \<ge> cm_maxCacheSize cm
       then length (evict_from (cm_maxCacheSize cm div 5) (ko_vote ko) (cm_voteCache cm))
       else length (cm_voteCache cm))"
    using m by (simp add: CM_SetEvent_def Let_def sdiv_5)
  have full: "int (length (cm_eventCache cm)) \<ge> cm_maxCacheSize cm \<longleftrightarrow>
      int (length (cm_eventCache cm)) = cm_maxCacheSize cm" using m(2) by linarith
  show ?thesis
    unfolding len full evict_from_length [OF wf]
    by (intro conjI allI impI event_cache.get_after_set) (rule event_cache.hit_was_stored, simp_all)
qed

theorem cache_set_event_spec_witness:
  "fst (CM_GetEvent 7 (CM_SetEvent \<lparr>ko_event = [], ko_vote = [], ko_consensus = [], ko_state = []\<rparr>
     7 3 (NewCacheManager 1000))) = Some 3"
  using cache_set_event_spec [of "NewCacheManager 1000"
      "\<lparr>ko_event = [], ko_vote = [], ko_consensus = [], ko_state = []\<rparr>" 7 3]
  by (simp add: cache_ok_def orders_all_def orders_keys_def NewCacheManager_def)

end
