(* ===== verification/Median.thy ===== *)
theory Median
  imports Sinar_Prelude
begin

text \<open>
  The median of a list of times. The program has the same routine three times (finality,
  engine, blockchain): sort a copy; take the middle element, or half the \<open>uint64\<close> sum of the
  two middle elements. The sum may wrap; below \<open>2 ^ 63\<close> it does not, and the result is a median.
\<close>

definition go_median :: "u64 list \<Rightarrow> u64" where
  "go_median values =
     (if values = [] then 0
      else let sorted = sort values; n = length sorted in
        if n mod 2 = 0 then (sorted ! (n div 2 - 1) + sorted ! (n div 2)) div 2
        else sorted ! (n div 2))"

lemma go_median_perm: "mset vs = mset ws \<Longrightarrow> go_median vs = go_median ws"
proof -
  assume m: "mset vs = mset ws"
  then have "sort vs = sort ws" by (metis mset_sort properties_for_sort sorted_sort)
  moreover have "vs = [] \<longleftrightarrow> ws = []" using m by auto
  ultimately show ?thesis by (simp add: go_median_def)
qed

lemma half_sum_between:
  fixes a b :: u64
  assumes "a \<le> b" and "b < 2 ^ 63"
  shows "a \<le> (a + b) div 2 \<and> (a + b) div 2 \<le> b"
proof -
  have b: "unat b < 2 ^ 63" using assms(2) by (simp add: word_less_nat_alt)
  have ab: "unat a \<le> unat b" using assms(1) by (simp add: word_le_nat_alt)
  have "unat (a + b) = unat a + unat b" using ab b by (simp add: unat_word_ariths)
  then have "unat ((a + b) div 2) = (unat a + unat b) div 2" by (simp add: unat_div)
  moreover have "unat a \<le> (unat a + unat b) div 2 \<and> (unat a + unat b) div 2 \<le> unat b" using ab by linarith
  ultimately show ?thesis by (simp add: word_le_nat_alt)
qed

lemma count_if_prefix:
  assumes "k \<le> length xs" and "\<And>j. j < k \<Longrightarrow> p (xs ! j)"
  shows "k \<le> count_if p xs"
proof -
  have "filter p (take k xs) = take k xs" using assms by (intro filter_True) (auto simp: in_set_conv_nth)
  then have "k = length (filter p (take k xs))" using assms(1) by simp
  also have "\<dots> \<le> length (filter p (take k xs)) + length (filter p (drop k xs))" by simp
  also have "\<dots> = length (filter p xs)" by (metis append_take_drop_id filter_append length_append)
  finally show ?thesis by (simp add: count_if_filter)
qed

lemma count_if_rev [simp]: "count_if p (rev xs) = count_if p xs"
  by (rule count_if_perm) simp

lemma sorted_counts:
  fixes s :: "'a::linorder list"
  assumes "sorted s" and "i < length s"
  shows "s ! i \<le> m \<Longrightarrow> Suc i \<le> count_if (\<lambda>v. v \<le> m) s"
    and "m \<le> s ! i \<Longrightarrow> length s - i \<le> count_if (\<lambda>v. m \<le> v) s"
proof -
  assume "s ! i \<le> m"
  then have "\<And>j. j < Suc i \<Longrightarrow> s ! j \<le> m" using assms
    by (meson less_Suc_eq_le order_trans sorted_nth_mono)
  then show "Suc i \<le> count_if (\<lambda>v. v \<le> m) s" using assms(2) by (intro count_if_prefix) auto
next
  assume m: "m \<le> s ! i"
  have "length s - i \<le> count_if (\<lambda>v. m \<le> v) (rev s)"
  proof (rule count_if_prefix)
    fix j assume j: "j < length s - i"
    then have "i \<le> length s - Suc j" "length s - Suc j < length s" using assms(2) by auto
    then have "s ! i \<le> s ! (length s - Suc j)" using assms(1) by (intro sorted_nth_mono)
    then show "m \<le> rev s ! j" using m j by (simp add: rev_nth)
  qed simp
  then show "length s - i \<le> count_if (\<lambda>v. m \<le> v) s" by simp
qed

lemma go_median_middle:
  assumes "vs \<noteq> []" and "\<forall>v \<in> set vs. v < 2 ^ 63"
  shows "sort vs ! ((length vs - 1) div 2) \<le> go_median vs \<and> go_median vs \<le> sort vs ! (length vs div 2)"
proof (cases "even (length vs)")
  case True
  let ?s = "sort vs" and ?n = "length vs"
  have n: "?n div 2 - 1 = (?n - 1) div 2" "?n div 2 < ?n" "?n div 2 - 1 \<le> ?n div 2"
    using True assms(1) by (auto elim: evenE)
  have "?s ! (?n div 2) \<in> set ?s" using n by (intro nth_mem) simp
  then have "?s ! (?n div 2) < 2 ^ 63" using assms(2) by (metis set_sort)
  moreover have "?s ! (?n div 2 - 1) \<le> ?s ! (?n div 2)" using n by (intro sorted_nth_mono) simp_all
  ultimately show ?thesis
    using half_sum_between [of "?s ! (?n div 2 - 1)" "?s ! (?n div 2)"] True assms(1) n(1)
    by (simp add: go_median_def Let_def even_iff_mod_2_eq_zero)
next
  case False
  then have "(length vs - 1) div 2 = length vs div 2" by (auto elim: oddE)
  then show ?thesis using False assms(1)
    by (simp add: go_median_def Let_def even_iff_mod_2_eq_zero)
qed

text \<open>At least half of the values are on either side.\<close>

lemma go_median_halves:
  assumes "vs \<noteq> []" and "\<forall>v \<in> set vs. v < 2 ^ 63"
  shows "length vs \<le> 2 * count_if (\<lambda>v. v \<le> go_median vs) vs \<and>
    length vs \<le> 2 * count_if (\<lambda>v. go_median vs \<le> v) vs"
proof -
  let ?s = "sort vs" and ?n = "length vs" and ?m = "go_median vs"
  have p: "count_if q ?s = count_if q vs" for q by (rule count_if_perm) simp
  have n: "0 < ?n" "(?n - 1) div 2 < ?n" "?n div 2 < ?n" using assms(1) by (cases vs; simp)+
  have "Suc ((?n - 1) div 2) \<le> count_if (\<lambda>v. v \<le> ?m) ?s"
    by (rule sorted_counts(1)) (use n go_median_middle [OF assms] in auto)
  moreover have "length ?s - ?n div 2 \<le> count_if (\<lambda>v. ?m \<le> v) ?s"
    by (rule sorted_counts(2)) (use n go_median_middle [OF assms] in auto)
  ultimately show ?thesis using n unfolding p by simp linarith
qed

lemma go_median_Nil [simp]: "go_median [] = 0"
  by (simp add: go_median_def)

lemma go_median_single [simp]: "go_median [v] = v"
  by (simp add: go_median_def)

lemma go_median_wraps: "go_median [2 ^ 63, 2 ^ 63] = 0"
  by (simp add: go_median_def Let_def)

end
