(* ===== verification/Finality.thy ===== *)
theory Finality
  imports Clotho_Selection Cache_Manager Median
begin

text \<open>
  \<open>finality.go\<close>: Clothos become Atropos, the queries over finalised events, and validation.

  The engine's state is its cache and its parameters; the DAG is shared and passed along. The
  engine's own mutex guards only the two cached lookups, each of which holds it for its whole
  body and calls nothing that takes it again, so it is left out. The DAG's mutex is not held by
  any caller here, so \<open>IsAncestor\<close> is the plain search. Arguments that stand for the runtime:
  \<open>ko\<close>, the key orders an eviction meets in a given cache state; \<open>now\<close>, the clock in
  milliseconds when an event is converted; \<open>rs\<close>, the rounds the loop over the round table
  visits (conversion may add rounds while the loop runs).
\<close>

section \<open>State\<close>

record finality_engine =
  fe_cacheManager :: cache_manager
  fe_byzantineThreshold :: f64
  fe_minAtroposCount :: int
  fe_finalityDelay :: u64

definition NewFinalityEngine :: finality_engine where
  "NewFinalityEngine = \<lparr>fe_cacheManager = NewCacheManager 1000, fe_byzantineThreshold = two_thirds,
     fe_minAtroposCount = 3, fe_finalityDelay = 2\<rparr>"

type_synonym orders_of = "cache_manager \<Rightarrow> key_orders"

section \<open>Cached lookups\<close>

definition FE_getClothos ::
  "orders_of \<Rightarrow> u64 \<Rightarrow> 'a dag_scheme \<Rightarrow> finality_engine \<Rightarrow> eref list \<times> finality_engine" where
  "FE_getClothos ko r d fe =
     (let (cachedData, cm) = CM_GetConsensusCache r (fe_cacheManager fe) in
      case Option.bind cachedData cd_clothos of
        Some clothos \<Rightarrow> (clothos, fe\<lparr>fe_cacheManager := cm\<rparr>)
      | None \<Rightarrow>
          (case go_get (d_Rounds d) r of
             None \<Rightarrow> ([], fe\<lparr>fe_cacheManager := cm\<rparr>)
           | Some roundInfo \<Rightarrow>
               (let clothos = map snd (ri_Clothos roundInfo) in
                (clothos, fe\<lparr>fe_cacheManager := CM_SetConsensusCache (ko cm) r
                   \<lparr>cd_clothos = Some clothos, cd_famous_witnesses = None\<rparr> cm\<rparr>))))"

definition FE_getFamousWitnesses ::
  "orders_of \<Rightarrow> u64 \<Rightarrow> 'a dag_scheme \<Rightarrow> finality_engine \<Rightarrow> eref list \<times> finality_engine" where
  "FE_getFamousWitnesses ko r d fe =
     (let (cachedData, cm) = CM_GetConsensusCache r (fe_cacheManager fe) in
      case Option.bind cachedData cd_famous_witnesses of
        Some witnesses \<Rightarrow> (witnesses, fe\<lparr>fe_cacheManager := cm\<rparr>)
      | None \<Rightarrow>
          (case go_get (d_Rounds d) r of
             None \<Rightarrow> ([], fe\<lparr>fe_cacheManager := cm\<rparr>)
           | Some roundInfo \<Rightarrow>
               (let famousWitnesses = filter (\<lambda>w. ev_IsFamous (d_heap d w) = Some True)
                      (map snd (ri_Witnesses roundInfo)) in
                (famousWitnesses, fe\<lparr>fe_cacheManager := CM_SetConsensusCache (ko cm) r
                   \<lparr>cd_clothos = None, cd_famous_witnesses = Some famousWitnesses\<rparr> cm\<rparr>))))"

section \<open>From Clotho to Atropos\<close>

definition sees_event :: "crypto \<Rightarrow> 'a dag_scheme \<Rightarrow> eref \<Rightarrow> eref \<Rightarrow> bool" where
  "sees_event x d w p =
     dfs_ancestor (parent_graph_of d) (hash_of x (d_heap d p)) (hash_of x (d_heap d w))"

text \<open>\<open>seeCount >= int(float64(n) * byzantineThreshold)\<close>\<close>

definition FE_required :: "finality_engine \<Rightarrow> nat \<Rightarrow> nat option" where
  "FE_required fe n = f64_trunc (f64_mul (f64_of_nat n) (fe_byzantineThreshold fe))"

definition FE_enough :: "finality_engine \<Rightarrow> nat \<Rightarrow> nat \<Rightarrow> bool" where
  "FE_enough fe seeCount n =
     (case FE_required fe n of Some requiredCount \<Rightarrow> seeCount \<ge> requiredCount | None \<Rightarrow> False)"

definition FE_canBecomeAtropos ::
  "crypto \<Rightarrow> orders_of \<Rightarrow> eref \<Rightarrow> u64 \<Rightarrow> 'a dag_scheme \<Rightarrow> finality_engine \<Rightarrow> bool \<times> finality_engine" where
  "FE_canBecomeAtropos x ko p r d fe =
     (if \<not> ev_IsClotho (d_heap d p) then (False, fe)
      else if ev_IsFamous (d_heap d p) \<noteq> Some True then (False, fe)
      else
        let nextRound = r + fe_finalityDelay fe;
            (famousWitnessesNextRound, fe1) = FE_getFamousWitnesses ko nextRound d fe
        in if famousWitnessesNextRound = [] then (False, fe1)
           else (FE_enough fe1 (count_if (\<lambda>w. sees_event x d w p) famousWitnessesNextRound)
                   (length famousWitnessesNextRound), fe1))"

definition FE_median :: "u64 list \<Rightarrow> u64" where
  "FE_median values = go_median values"

definition FE_calculateAtroposTime ::
  "crypto \<Rightarrow> orders_of \<Rightarrow> eref \<Rightarrow> u64 \<Rightarrow> 'a dag_scheme \<Rightarrow> finality_engine \<Rightarrow> u64 list \<times> finality_engine" where
  "FE_calculateAtroposTime x ko p r d fe =
     (let (famousWitnesses, fe1) = FE_getFamousWitnesses ko r d fe in
      (map (\<lambda>w. ev_Lamport (d_heap d w)) (filter (\<lambda>w. sees_event x d w p) famousWitnesses), fe1))"

definition FE_ensureRound :: "u64 \<Rightarrow> 'a dag_scheme \<Rightarrow> 'a dag_scheme" where
  "FE_ensureRound r d =
     (if go_has (d_Rounds d) r then d
      else d\<lparr>d_Rounds := go_put r (new_round_info 0) (d_Rounds d)\<rparr>)"

definition FE_convertToAtropos ::
  "crypto \<Rightarrow> orders_of \<Rightarrow> u64 \<Rightarrow> eref \<Rightarrow> u64 \<Rightarrow> 'a dag_scheme \<Rightarrow> finality_engine \<Rightarrow>
   'a dag_scheme \<times> finality_engine" where
  "FE_convertToAtropos x ko now p r d fe =
     (let delayed = r + fe_finalityDelay fe;
          (i, d1) = hash_ref x p d;
          d2 = upd_event p (\<lambda>e. e\<lparr>ev_Atropos := i, ev_RoundReceived := delayed\<rparr>) d1;
          (ts, fe1) = FE_calculateAtroposTime x ko p delayed d2 fe;
          d3 = upd_event p (\<lambda>e. e\<lparr>ev_AtroposTime := FE_median ts\<rparr>) d2;
          d4 = upd_event p (\<lambda>e. e\<lparr>ev_MedianTime := ev_AtroposTime e\<rparr>) d3;
          d5 = FE_ensureRound delayed d4;
          d6 = (case go_get (d_Rounds d5) delayed of
                  None \<Rightarrow> d5
                | Some ri \<Rightarrow> d5\<lparr>d_Rounds := go_put delayed
                    (ri\<lparr>ri_Atropos := go_put i p (ri_Atropos ri)\<rparr>) (d_Rounds d5)\<rparr>)
      in (upd_event p (\<lambda>e. e\<lparr>ev_AtroposTime := now\<rparr>) d6, fe1))"

fun FE_finalizeClothosForRound ::
  "crypto \<Rightarrow> orders_of \<Rightarrow> (eref \<Rightarrow> u64) \<Rightarrow> u64 \<Rightarrow> eref list \<Rightarrow> 'a dag_scheme \<Rightarrow> finality_engine \<Rightarrow>
   'a dag_scheme \<times> finality_engine" where
  "FE_finalizeClothosForRound x ko now r [] d fe = (d, fe)"
| "FE_finalizeClothosForRound x ko now r (p # ps) d fe =
     (if ev_Atropos (d_heap d p) \<noteq> 0 then FE_finalizeClothosForRound x ko now r ps d fe
      else
        let (ok, fe1) = FE_canBecomeAtropos x ko p r d fe;
            (d2, fe2) = (if ok then FE_convertToAtropos x ko (now p) p r d fe1 else (d, fe1))
        in FE_finalizeClothosForRound x ko now r ps d2 fe2)"

fun FE_FinalizeEvents ::
  "crypto \<Rightarrow> orders_of \<Rightarrow> (eref \<Rightarrow> u64) \<Rightarrow> u64 list \<Rightarrow> 'a dag_scheme \<Rightarrow> finality_engine \<Rightarrow>
   'a dag_scheme \<times> finality_engine" where
  "FE_FinalizeEvents x ko now [] d fe = (d, fe)"
| "FE_FinalizeEvents x ko now (r # rs) d fe =
     (let (clothos, fe1) = FE_getClothos ko r d fe;
          (d2, fe2) = (if clothos = [] then (d, fe1) else FE_finalizeClothosForRound x ko now r clothos d fe1)
      in FE_FinalizeEvents x ko now rs d2 fe2)"

section \<open>Queries\<close>

definition FE_GetAtropos :: "u64 \<Rightarrow> 'a dag_scheme \<Rightarrow> eref list" where
  "FE_GetAtropos r d = (case go_get (d_Rounds d) r of None \<Rightarrow> [] | Some ri \<Rightarrow> map snd (ri_Atropos ri))"

text \<open>The events a \<open>range\<close> loop over \<open>dag.Events\<close> keeps.\<close>

definition events_where :: "(event \<Rightarrow> bool) \<Rightarrow> 'a dag_scheme \<Rightarrow> eref list" where
  "events_where c d = filter (\<lambda>p. c (d_heap d p)) (map snd (d_Events d))"

definition FE_GetFinalizedEvents :: "'a dag_scheme \<Rightarrow> eref list" where
  "FE_GetFinalizedEvents d = events_where (\<lambda>e. ev_Atropos e \<noteq> 0) d"

definition FE_IsFinalized :: "event_id \<Rightarrow> 'a dag_scheme \<Rightarrow> bool" where
  "FE_IsFinalized i d =
     (case go_get (d_Events d) i of None \<Rightarrow> False | Some p \<Rightarrow> ev_Atropos (d_heap d p) \<noteq> 0)"

definition FE_GetFinalizedEventsInRange :: "u64 \<Rightarrow> u64 \<Rightarrow> 'a dag_scheme \<Rightarrow> eref list" where
  "FE_GetFinalizedEventsInRange fromTime toTime d =
     events_where (\<lambda>e. ev_Atropos e \<noteq> 0 \<and> ev_AtroposTime e \<ge> fromTime \<and> ev_AtroposTime e \<le> toTime) d"

definition FE_GetFinalizedEventsByStake :: "int \<Rightarrow> 'a dag_scheme \<Rightarrow> eref list" where
  "FE_GetFinalizedEventsByStake minStake d =
     events_where (\<lambda>e. ev_Atropos e \<noteq> 0 \<and> (let stake = 1000000 in stake \<ge> minStake)) d"

definition FE_GetFinalizedEventsByCreator :: "string \<Rightarrow> 'a dag_scheme \<Rightarrow> eref list" where
  "FE_GetFinalizedEventsByCreator creatorID d =
     events_where (\<lambda>e. ev_Atropos e \<noteq> 0 \<and> ev_CreatorID e = creatorID) d"

definition FE_ValidateFinality ::
  "crypto \<Rightarrow> orders_of \<Rightarrow> eref \<Rightarrow> u64 \<Rightarrow> 'a dag_scheme \<Rightarrow> finality_engine \<Rightarrow> bool \<times> finality_engine" where
  "FE_ValidateFinality x ko p r d fe =
     (if ev_Atropos (d_heap d p) = 0 then (False, fe)
      else if \<not> ev_IsClotho (d_heap d p) then (False, fe)
      else if ev_IsFamous (d_heap d p) \<noteq> Some True then (False, fe)
      else if ev_RoundReceived (d_heap d p) \<noteq> r + fe_finalityDelay fe then (False, fe)
      else
        let nextRound = r + fe_finalityDelay fe;
            (famousWitnessesNextRound, fe1) = FE_getFamousWitnesses ko nextRound d fe
        in (FE_enough fe1 (count_if (\<lambda>w. sees_event x d w p) famousWitnessesNextRound)
              (length famousWitnessesNextRound), fe1))"

definition FE_calculateVisibility :: "crypto \<Rightarrow> eref \<Rightarrow> 'a dag_scheme \<Rightarrow> nat" where
  "FE_calculateVisibility x p d = count_if (\<lambda>q. sees_event x d q p) (map snd (d_Events d))"

definition FE_GetFinalityByVisibility :: "crypto \<Rightarrow> int \<Rightarrow> 'a dag_scheme \<Rightarrow> eref list" where
  "FE_GetFinalityByVisibility x minVisibility d =
     filter (\<lambda>p. int (FE_calculateVisibility x p d) \<ge> minVisibility) (FE_GetFinalizedEvents d)"

definition FE_calculateConsensusRatio :: "crypto \<Rightarrow> eref \<Rightarrow> 'a dag_scheme \<Rightarrow> f64" where
  "FE_calculateConsensusRatio x p d =
     (let totalWitnesses = count_if (\<lambda>q. ev_IsFamous (d_heap d q) = Some True) (map snd (d_Events d));
          agreeingWitnesses = count_if (\<lambda>q. ev_IsFamous (d_heap d q) = Some True \<and> sees_event x d q p)
            (map snd (d_Events d))
      in if totalWitnesses = 0 then F64 0 0
         else f64_div (f64_of_nat agreeingWitnesses) (f64_of_nat totalWitnesses))"

definition FE_GetFinalityByConsensus :: "crypto \<Rightarrow> f64 \<Rightarrow> 'a dag_scheme \<Rightarrow> eref list" where
  "FE_GetFinalityByConsensus x consensusThreshold d =
     filter (\<lambda>p. f64_ge (FE_calculateConsensusRatio x p d) consensusThreshold) (FE_GetFinalizedEvents d)"

section \<open>Lemmas on the cached lookups\<close>

lemma getFamousWitnesses_params [simp]:
  "FE_getFamousWitnesses ko r d fe = (ws, fe') \<Longrightarrow>
   fe_byzantineThreshold fe' = fe_byzantineThreshold fe \<and> fe_finalityDelay fe' = fe_finalityDelay fe"
  by (auto simp: FE_getFamousWitnesses_def Let_def split: prod.splits option.splits)

text \<open>A second lookup of the same round answers from the cache, whatever the DAG has become.\<close>

lemma getFamousWitnesses_again:
  assumes "FE_getFamousWitnesses ko r d fe = (ws, fe1)" and "ws \<noteq> [] \<or> go_has (d_Rounds d) r"
  shows "fst (FE_getFamousWitnesses ko r d' fe1) = ws"
proof -
  obtain cd where c: "fst (CM_GetConsensusCache r (fe_cacheManager fe1)) = Some cd"
    "cd_famous_witnesses cd = Some ws"
    using assms consensus_cache.get_after_set
    by (fastforce simp: FE_getFamousWitnesses_def Let_def consensus_cache.getter_eq
        split: option.splits prod.splits bind_splits)
  then show ?thesis
    by (simp add: FE_getFamousWitnesses_def Let_def consensus_cache.getter_eq)
qed

lemma getClothos_again:
  assumes "FE_getClothos ko r d fe = (cs, fe1)" and "cs \<noteq> [] \<or> go_has (d_Rounds d) r"
  shows "fst (FE_getClothos ko r d' fe1) = cs"
proof -
  obtain cd where c: "fst (CM_GetConsensusCache r (fe_cacheManager fe1)) = Some cd" "cd_clothos cd = Some cs"
    using assms consensus_cache.get_after_set
    by (fastforce simp: FE_getClothos_def Let_def consensus_cache.getter_eq
        split: option.splits prod.splits bind_splits)
  then show ?thesis by (simp add: FE_getClothos_def Let_def consensus_cache.getter_eq)
qed

section \<open>Conversion\<close>

lemma FE_required_two_thirds:
  "fe_byzantineThreshold fe = two_thirds \<Longrightarrow> n < 2 ^ 50 \<Longrightarrow> FE_required fe n = Some (2 * n div 3)"
  by (simp add: FE_required_def trunc_two_thirds)

text \<open>What one conversion leaves of the event it converts.\<close>

definition converted :: "crypto \<Rightarrow> u64 \<Rightarrow> u64 \<Rightarrow> u64 list \<Rightarrow> event \<Rightarrow> event" where
  "converted x now delayed ts e = e\<lparr>ev_hash := Some (hash_of x e), ev_Atropos := hash_of x e,
     ev_RoundReceived := delayed, ev_MedianTime := go_median ts, ev_AtroposTime := now\<rparr>"

lemma FE_ensureRound_fields [simp]:
  "d_heap (FE_ensureRound r d) = d_heap d" "d_Events (FE_ensureRound r d) = d_Events d"
  "d_mu (FE_ensureRound r d) = d_mu d"
  by (simp_all add: FE_ensureRound_def)

lemma FE_ensureRound_get: "go_get (d_Rounds (FE_ensureRound r d)) r = Some (round_or_new d r)"
  by (auto simp: FE_ensureRound_def round_or_new_def split: option.split)

text \<open>The DAG after the first two writes of a conversion.\<close>

definition marked :: "crypto \<Rightarrow> eref \<Rightarrow> u64 \<Rightarrow> 'a dag_scheme \<Rightarrow> 'a dag_scheme" where
  "marked x p delayed d = upd_event p (\<lambda>e. e\<lparr>ev_hash := Some (hash_of x e),
     ev_Atropos := hash_of x e, ev_RoundReceived := delayed\<rparr>) d"

lemma convert_unfold:
  assumes "r + fe_finalityDelay fe = delayed"
    and "FE_calculateAtroposTime x ko p delayed (marked x p delayed d) fe = (ts, fe1)"
  shows "FE_convertToAtropos x ko now p r d fe =
    (let ri = round_or_new d delayed; i = hash_of x (d_heap d p) in
     (d\<lparr>d_Rounds := go_put delayed (ri\<lparr>ri_Atropos := go_put i p (ri_Atropos ri)\<rparr>)
          (d_Rounds (FE_ensureRound delayed d)),
        d_heap := (d_heap d)(p := converted x now delayed ts (d_heap d p))\<rparr>, fe1))"
proof -
  have m: "upd_event p (\<lambda>e. e\<lparr>ev_Atropos := hash_of x (d_heap d p), ev_RoundReceived := delayed\<rparr>)
      (upd_event p (\<lambda>e. e\<lparr>ev_hash := Some (hash_of x e)\<rparr>) d) = marked x p delayed d"
    by (simp add: marked_def upd_event_def)
  have g: "go_get (d_Rounds (FE_ensureRound delayed (upd_event p f (upd_event p g (marked x p delayed d))))) delayed
      = Some (round_or_new d delayed)" for f g
    by (simp add: FE_ensureRound_get) (simp add: round_or_new_def marked_def)
  show ?thesis
    unfolding FE_convertToAtropos_def hash_ref_eq Let_def assms(1) prod.case m assms(2) g option.case
    by (simp add: marked_def upd_event_def FE_ensureRound_def converted_def FE_median_def)
qed

lemma convert_heap:
  obtains ts where "d_heap (fst (FE_convertToAtropos x ko now p r d fe)) =
      (d_heap d)(p := converted x now (r + fe_finalityDelay fe) ts (d_heap d p))"
    and "d_Events (fst (FE_convertToAtropos x ko now p r d fe)) = d_Events d"
proof -
  obtain ts fe1 where c: "FE_calculateAtroposTime x ko p (r + fe_finalityDelay fe)
      (marked x p (r + fe_finalityDelay fe) d) fe = (ts, fe1)" by fastforce
  show ?thesis by (rule that [of ts]) (simp_all add: convert_unfold [OF refl c] Let_def)
qed

section \<open>What finalisation may change\<close>

text \<open>
  An event is either left exactly as it was, or it was a famous Clotho without Atropos and now names
  its own hash as Atropos; what the consensus tests read never changes.
\<close>

definition finalised_only :: "crypto \<Rightarrow> event \<Rightarrow> event \<Rightarrow> bool" where
  "finalised_only x e e' \<longleftrightarrow>
     hash_of x e' = hash_of x e \<and> ev_Parents e' = ev_Parents e \<and> ev_IsClotho e' = ev_IsClotho e \<and>
     ev_IsFamous e' = ev_IsFamous e \<and> ev_Round e' = ev_Round e \<and> ev_Lamport e' = ev_Lamport e \<and>
     (e' = e \<or> ev_Atropos e = 0 \<and> ev_IsClotho e \<and> ev_IsFamous e = Some True \<and> ev_Atropos e' = hash_of x e)"

definition finality_frame :: "crypto \<Rightarrow> 'a dag_scheme \<Rightarrow> 'a dag_scheme \<Rightarrow> bool" where
  "finality_frame x d d' \<longleftrightarrow>
     d_Events d' = d_Events d \<and> (\<forall>q. finalised_only x (d_heap d q) (d_heap d' q))"

lemma finalised_only_refl: "finalised_only x e e"
  by (simp add: finalised_only_def)

lemma finalised_only_trans: "finalised_only x e e' \<Longrightarrow> finalised_only x e' e'' \<Longrightarrow> finalised_only x e e''"
  by (auto simp: finalised_only_def)

lemma finality_frame_refl: "finality_frame x d d"
  by (simp add: finality_frame_def finalised_only_refl)

lemma finality_frame_trans: "finality_frame x d d' \<Longrightarrow> finality_frame x d' d'' \<Longrightarrow> finality_frame x d d''"
  unfolding finality_frame_def using finalised_only_trans by metis

lemma converted_finalised_only:
  "ev_Atropos e = 0 \<Longrightarrow> ev_IsClotho e \<Longrightarrow> ev_IsFamous e = Some True \<Longrightarrow>
   finalised_only x e (converted x now delayed ts e)"
  by (simp add: finalised_only_def converted_def)

lemma canBecome_flags:
  "fst (FE_canBecomeAtropos x ko p r d fe) \<Longrightarrow> ev_IsClotho (d_heap d p) \<and> ev_IsFamous (d_heap d p) = Some True"
  by (simp add: FE_canBecomeAtropos_def split: if_splits)

lemma convert_frame:
  assumes "ev_Atropos (d_heap d p) = 0" and "ev_IsClotho (d_heap d p)" and "ev_IsFamous (d_heap d p) = Some True"
  shows "finality_frame x d (fst (FE_convertToAtropos x ko now p r d fe))"
proof -
  obtain ts where "d_heap (fst (FE_convertToAtropos x ko now p r d fe)) =
      (d_heap d)(p := converted x now (r + fe_finalityDelay fe) ts (d_heap d p))"
    "d_Events (fst (FE_convertToAtropos x ko now p r d fe)) = d_Events d" by (rule convert_heap)
  then show ?thesis using converted_finalised_only [OF assms]
    by (simp add: finality_frame_def finalised_only_refl)
qed

lemma finalize_round_frame:
  "finality_frame x d (fst (FE_finalizeClothosForRound x ko now r ps d fe))"
proof (induction ps arbitrary: d fe)
  case Nil
  then show ?case by (simp add: finality_frame_refl)
next
  case (Cons p ps)
  obtain ok fe1 where c: "FE_canBecomeAtropos x ko p r d fe = (ok, fe1)" by fastforce
  obtain d2 fe2 where d2: "(if ok then FE_convertToAtropos x ko (now p) p r d fe1 else (d, fe1)) = (d2, fe2)"
    by fastforce
  show ?case
  proof (cases "ev_Atropos (d_heap d p) = 0")
    case True
    have "finality_frame x d d2"
    proof (cases ok)
      case True
      then have "fst (FE_canBecomeAtropos x ko p r d fe)" using c by simp
      then have "finality_frame x d (fst (FE_convertToAtropos x ko (now p) p r d fe1))"
        using canBecome_flags \<open>ev_Atropos (d_heap d p) = 0\<close> by (intro convert_frame) blast+
      then show ?thesis using d2 True by simp
    next
      case False
      then show ?thesis using d2 by (simp add: finality_frame_refl)
    qed
    then show ?thesis using True c d2 Cons.IH [of d2 fe2] by (auto intro: finality_frame_trans)
  qed (use Cons.IH in simp)
qed

lemma finalize_events_frame: "finality_frame x d (fst (FE_FinalizeEvents x ko now rs d fe))"
proof (induction rs arbitrary: d fe)
  case Nil
  then show ?case by (simp add: finality_frame_refl)
next
  case (Cons r rs)
  obtain cs fe1 where c: "FE_getClothos ko r d fe = (cs, fe1)" by fastforce
  obtain d2 fe2 where d2: "(if cs = [] then (d, fe1) else FE_finalizeClothosForRound x ko now r cs d fe1) = (d2, fe2)"
    by fastforce
  have "finality_frame x d d2"
    using d2 finalize_round_frame [of x d ko now r cs fe1] finality_frame_refl by (auto split: if_splits)
  then show ?case using c d2 Cons.IH [of d2 fe2] by (auto intro: finality_frame_trans)
qed

section \<open>What a conversion keeps\<close>

lemma marked_fields [simp]:
  "d_Rounds (marked x p r d) = d_Rounds d" "d_Events (marked x p r d) = d_Events d"
  "ev_IsFamous (d_heap (marked x p r d) q) = ev_IsFamous (d_heap d q)"
  "ev_Lamport (d_heap (marked x p r d) q) = ev_Lamport (d_heap d q)"
  "hash_of x (d_heap (marked x p r d) q) = hash_of x (d_heap d q)"
  "ev_Parents (d_heap (marked x p r d) q) = ev_Parents (d_heap d q)"
  by (simp_all add: marked_def)

lemma sees_event_cong:
  assumes "d_Events d' = d_Events d" and "\<And>q. ev_Parents (d_heap d' q) = ev_Parents (d_heap d q)"
    and "\<And>q. hash_of x (d_heap d' q) = hash_of x (d_heap d q)"
  shows "sees_event x d' w p = sees_event x d w p"
  using assms by (simp add: sees_event_def parent_graph_of_def)

lemma sees_event_frame: "finality_frame x d d' \<Longrightarrow> sees_event x d' w p = sees_event x d w p"
  by (intro sees_event_cong) (simp_all add: finality_frame_def finalised_only_def)

lemma calculateAtroposTime_marked:
  "FE_calculateAtroposTime x ko p r (marked x p delayed d) fe = FE_calculateAtroposTime x ko p r d fe"
proof -
  have "FE_getFamousWitnesses ko r (marked x p delayed d) fe = FE_getFamousWitnesses ko r d fe"
    unfolding FE_getFamousWitnesses_def marked_fields by (rule refl)
  moreover have "sees_event x (marked x p delayed d) w p = sees_event x d w p" for w
    by (rule sees_event_cong) simp_all
  ultimately show ?thesis by (simp add: FE_calculateAtroposTime_def)
qed

text \<open>A DAG without Clothos, and an engine that has cached none.\<close>

definition no_clothos :: "'a dag_scheme \<Rightarrow> finality_engine \<Rightarrow> bool" where
  "no_clothos d fe \<longleftrightarrow> (\<forall>r ri. go_get (d_Rounds d) r = Some ri \<longrightarrow> ri_Clothos ri = []) \<and>
     (\<forall>r cd. go_get (cm_consensusCache (fe_cacheManager fe)) r = Some cd \<longrightarrow> cd_clothos cd \<in> {None, Some []})"

lemma getClothos_none:
  assumes "no_clothos d fe" and "FE_getClothos ko r d fe = (cs, fe')"
  shows "cs = [] \<and> no_clothos d fe'"
proof -
  let ?cm = "fe_cacheManager fe"
  let ?cm1 = "CM_count (go_get (cm_consensusCache ?cm) r) ?cm"
  have empty: "go_get (cm_consensusCache ?cm) r = Some cd \<Longrightarrow> cd_clothos cd = Some c \<Longrightarrow> c = []" for cd c
    using assms(1) by (force simp: no_clothos_def)
  have stored: "no_clothos d (fe\<lparr>fe_cacheManager := CM_SetConsensusCache (ko ?cm1) r
      \<lparr>cd_clothos = Some [], cd_famous_witnesses = None\<rparr> ?cm1\<rparr>)"
    using assms(1) by (auto simp: no_clothos_def consensus_cache.part_setter dest!: evict_from_get split: if_splits)
  have counted: "no_clothos d (fe\<lparr>fe_cacheManager := ?cm1\<rparr>)"
    using assms(1) by (simp add: no_clothos_def)
  note run = assms(2) [unfolded FE_getClothos_def consensus_cache.getter_eq Let_def prod.case]
  show ?thesis
  proof (cases "Option.bind (go_get (cm_consensusCache ?cm) r) cd_clothos")
    case (Some c)
    then have "c = []" using empty by (auto simp: bind_eq_Some_conv)
    then show ?thesis using run Some counted by simp
  next
    case None
    show ?thesis
    proof (cases "go_get (d_Rounds d) r")
      case None
      then show ?thesis using run \<open>Option.bind _ _ = None\<close> counted by simp
    next
      case (Some ri)
      then have "ri_Clothos ri = []" using assms(1) by (simp add: no_clothos_def)
      then show ?thesis using run \<open>Option.bind _ _ = None\<close> Some stored by simp
    qed
  qed
qed

lemma finalize_without_clothos:
  "no_clothos d fe \<Longrightarrow> fst (FE_FinalizeEvents x ko now rs d fe) = d \<and>
     no_clothos d (snd (FE_FinalizeEvents x ko now rs d fe))"
proof (induction rs arbitrary: fe)
  case Nil
  then show ?case by simp
next
  case (Cons r rs)
  obtain cs fe1 where c: "FE_getClothos ko r d fe = (cs, fe1)" by fastforce
  then have "cs = []" "no_clothos d fe1" using getClothos_none [OF Cons.prems c] by auto
  then show ?case using c Cons.IH by simp
qed

section \<open>Properties\<close>

text \<open>
  Finalisation is safe. Whatever rounds the loop visits, in whatever order, with whatever cached
  lists, evictions and clock, \<open>FinalizeEvents\<close> stores no event and removes none, and leaves each
  event exactly as it was unless the event was a famous Clotho with no Atropos yet; then the
  event's Atropos is its own hash. So a finalised event is never touched again, and
  no event that is not a famous Clotho is ever finalised.
\<close>

theorem finalize_events_safe:
  "d_Events (fst (FE_FinalizeEvents x ko now rs d fe)) = d_Events d \<and>
   (let e = d_heap d q; e' = d_heap (fst (FE_FinalizeEvents x ko now rs d fe)) q in
      e' = e \<or> ev_Atropos e = 0 \<and> ev_IsClotho e \<and> ev_IsFamous e = Some True \<and> ev_Atropos e' = hash_of x e)"
  using finalize_events_frame [of x d ko now rs fe]
  unfolding finality_frame_def finalised_only_def Let_def by blast

text \<open>
  C24. When a Clotho becomes an Atropos, in integers. With the constructor's threshold the test
  accepts exactly the famous Clothos for which the round two later has \<open>n > 0\<close> famous witnesses of
  which at least \<open>2 * n div 3\<close> see the Clotho: the float product is rounded down, so the
  requirement lies below two thirds whenever 3 does not divide \<open>n\<close>.
\<close>

theorem can_become_atropos_iff:
  assumes "fe_byzantineThreshold fe = two_thirds"
    and "FE_getFamousWitnesses ko (r + fe_finalityDelay fe) d fe = (ws, fe1)" and "length ws < 2 ^ 50"
  shows "fst (FE_canBecomeAtropos x ko p r d fe) \<longleftrightarrow>
    ev_IsClotho (d_heap d p) \<and> ev_IsFamous (d_heap d p) = Some True \<and> ws \<noteq> [] \<and>
    2 * length ws div 3 \<le> count_if (\<lambda>w. sees_event x d w p) ws"
proof -
  have "FE_required fe1 (length ws) = Some (2 * length ws div 3)"
    using assms by (intro FE_required_two_thirds) (auto dest: getFamousWitnesses_params)
  then show ?thesis using assms(2) by (simp add: FE_canBecomeAtropos_def FE_enough_def Let_def)
qed

text \<open>A Clotho of round 0 and one famous witness of round 2 that does not see it.\<close>

definition atropos_dag :: dag where
  "atropos_dag = (NewDAG (\<lambda>p. if p = 11
     then (clotho_event ''A'' 0 [] 1)\<lparr>ev_IsClotho := True\<rparr> else clotho_event ''B'' 2 [] 2))
   \<lparr>d_Events := [(1, 11), (2, 12)],
    d_Rounds := [(2, (new_round_info 0)\<lparr>ri_Witnesses := [(2, 12)]\<rparr>)]\<rparr>"

definition no_orders :: orders_of where
  "no_orders cm = \<lparr>ko_event = [], ko_vote = [], ko_consensus = [], ko_state = []\<rparr>"

lemma atropos_dag_lookup: "fst (FE_getFamousWitnesses no_orders 2 atropos_dag NewFinalityEngine) = [12]"
  by (simp add: FE_getFamousWitnesses_def NewFinalityEngine_def NewCacheManager_def
      CM_GetConsensusCache_def atropos_dag_def NewDAG_def clotho_event_def new_round_info_def Let_def)

lemma atropos_dag_unseen: "\<not> sees_event sample_crypto atropos_dag 12 11"
  by (simp add: sees_event_def dfs_ancestor_def parent_graph_of_def atropos_dag_def NewDAG_def clotho_event_def)

theorem can_become_atropos_iff_witness:
  "fst (FE_canBecomeAtropos sample_crypto no_orders 11 0 atropos_dag NewFinalityEngine)"
proof -
  obtain fe1 where l: "FE_getFamousWitnesses no_orders (0 + fe_finalityDelay NewFinalityEngine) atropos_dag
      NewFinalityEngine = ([12], fe1)"
    using atropos_dag_lookup by (cases "FE_getFamousWitnesses no_orders 2 atropos_dag NewFinalityEngine")
      (simp add: NewFinalityEngine_def)
  show ?thesis using can_become_atropos_iff [OF _ l, of sample_crypto 11]
    by (simp add: NewFinalityEngine_def atropos_dag_def NewDAG_def clotho_event_def)
qed

text \<open>
  One famous witness two rounds later finalises any famous Clotho, whether or not it sees the
  Clotho: the required count is \<open>int(1 * 2/3) = 0\<close>.
\<close>

theorem atropos_without_support:
  assumes "fe_byzantineThreshold fe = two_thirds"
    and "fst (FE_getFamousWitnesses ko (r + fe_finalityDelay fe) d fe) = [w]"
    and "ev_IsClotho (d_heap d p)" and "ev_IsFamous (d_heap d p) = Some True"
  shows "fst (FE_canBecomeAtropos x ko p r d fe)"
proof -
  obtain fe1 where l: "FE_getFamousWitnesses ko (r + fe_finalityDelay fe) d fe = ([w], fe1)"
    using assms(2) by (cases "FE_getFamousWitnesses ko (r + fe_finalityDelay fe) d fe") simp
  have "FE_required fe1 1 = Some 0"
    using FE_required_two_thirds [of fe1 1] assms(1) getFamousWitnesses_params [OF l] by simp
  then show ?thesis using l assms(3,4) by (simp add: FE_canBecomeAtropos_def FE_enough_def Let_def)
qed

theorem atropos_without_support_witness:
  "fst (FE_canBecomeAtropos sample_crypto no_orders 11 0 atropos_dag NewFinalityEngine) \<and>
   \<not> sees_event sample_crypto atropos_dag 12 11"
  using atropos_without_support [of NewFinalityEngine no_orders 0 atropos_dag 12 11 sample_crypto]
    atropos_dag_lookup atropos_dag_unseen
  by (simp add: NewFinalityEngine_def) (simp add: atropos_dag_def NewDAG_def clotho_event_def)

text \<open>
  What a conversion writes. The Clotho gets its own hash as Atropos, the round two later as the
  round it was received in, and as median time the median of the Lamport times of the famous
  witnesses of that round that see it; its Atropos time, first set to that median, is
  overwritten with the wall clock. The round table of the later round gains the Atropos under the
  event's hash and keeps its other fields. No other event, no other round and no
  stored key changes.
\<close>

theorem convert_to_atropos_spec:
  assumes "FE_getFamousWitnesses ko (r + fe_finalityDelay fe) d fe = (ws, fe1)"
    and "FE_convertToAtropos x ko now p r d fe = (d', fe')"
  shows "(let delayed = r + fe_finalityDelay fe; e = d_heap d p; e' = d_heap d' p; ri = round_or_new d delayed in
    ev_Atropos e' = hash_of x e \<and> ev_RoundReceived e' = delayed \<and> ev_AtroposTime e' = now \<and>
    ev_MedianTime e' = FE_median (map (\<lambda>w. ev_Lamport (d_heap d w)) (filter (\<lambda>w. sees_event x d w p) ws)) \<and>
    d_heap d' = (d_heap d)(p := e') \<and> d_Events d' = d_Events d \<and>
    go_get (d_Rounds d') = (go_get (d_Rounds d))
      (delayed \<mapsto> ri\<lparr>ri_Atropos := go_put (hash_of x e) p (ri_Atropos ri)\<rparr>))"
proof -
  let ?ts = "map (\<lambda>w. ev_Lamport (d_heap d w)) (filter (\<lambda>w. sees_event x d w p) ws)"
  have "FE_calculateAtroposTime x ko p (r + fe_finalityDelay fe) (marked x p (r + fe_finalityDelay fe) d) fe = (?ts, fe1)"
    unfolding calculateAtroposTime_marked by (simp add: FE_calculateAtroposTime_def assms(1))
  from convert_unfold [OF refl this, of now] assms(2) show ?thesis
    by (auto simp: Let_def converted_def FE_median_def FE_ensureRound_def fun_eq_iff)
qed

theorem convert_to_atropos_spec_witness:
  "ev_AtroposTime (d_heap (fst (FE_convertToAtropos sample_crypto no_orders 777 11 0 atropos_dag NewFinalityEngine)) 11) = 777 \<and>
   ev_MedianTime (d_heap (fst (FE_convertToAtropos sample_crypto no_orders 777 11 0 atropos_dag NewFinalityEngine)) 11) = 0"
proof -
  obtain fe1 where l: "FE_getFamousWitnesses no_orders (0 + fe_finalityDelay NewFinalityEngine) atropos_dag
      NewFinalityEngine = ([12], fe1)"
    using atropos_dag_lookup by (cases "FE_getFamousWitnesses no_orders 2 atropos_dag NewFinalityEngine")
      (simp add: NewFinalityEngine_def)
  show ?thesis using convert_to_atropos_spec [OF l, of sample_crypto 777 11]
    by (simp add: Let_def atropos_dag_unseen FE_median_def split: prod.splits) (metis prod.collapse)
qed

text \<open>
  C23. A conversion passes validation: right after a Clotho with a non-zero hash has met the
  conditions for round \<open>r\<close> and been converted, \<open>ValidateFinality\<close> accepts it for round \<open>r\<close>.
\<close>

theorem converted_event_validates:
  assumes "FE_canBecomeAtropos x ko p r d fe = (True, fe1)" and "hash_of x (d_heap d p) \<noteq> 0"
    and "ev_Atropos (d_heap d p) = 0"
    and "FE_convertToAtropos x ko now p r d fe1 = (d', fe2)"
  shows "fst (FE_ValidateFinality x ko p r d' fe2)"
proof -
  obtain ws where ws: "FE_getFamousWitnesses ko (r + fe_finalityDelay fe) d fe = (ws, fe1)" "ws \<noteq> []"
      "FE_enough fe1 (count_if (\<lambda>w. sees_event x d w p) ws) (length ws)"
    and flags: "ev_IsClotho (d_heap d p)" "ev_IsFamous (d_heap d p) = Some True"
    using assms(1) by (auto simp: FE_canBecomeAtropos_def Let_def split: if_splits prod.splits)
  have par: "fe_finalityDelay fe1 = fe_finalityDelay fe" "fe_byzantineThreshold fe1 = fe_byzantineThreshold fe"
    using getFamousWitnesses_params [OF ws(1)] by simp_all
  let ?r = "r + fe_finalityDelay fe"
  obtain fe3 where l2: "FE_getFamousWitnesses ko ?r d fe1 = (ws, fe3)"
    using getFamousWitnesses_again [OF ws(1), of d] ws(2) by (metis prod.collapse)
  have "FE_calculateAtroposTime x ko p ?r (marked x p ?r d) fe1 =
      (map (\<lambda>w. ev_Lamport (d_heap d w)) (filter (\<lambda>w. sees_event x d w p) ws), fe3)"
    unfolding calculateAtroposTime_marked by (simp add: FE_calculateAtroposTime_def l2)
  from convert_unfold [OF _ this, of r now] assms(4) par
  have d': "d_heap d' p = converted x now ?r (map (\<lambda>w. ev_Lamport (d_heap d w)) (filter (\<lambda>w. sees_event x d w p) ws)) (d_heap d p)"
    and fe2: "fe2 = fe3" by (auto simp: Let_def)
  have p3: "fe_finalityDelay fe3 = fe_finalityDelay fe" "fe_byzantineThreshold fe3 = fe_byzantineThreshold fe1"
    using getFamousWitnesses_params [OF l2] par by simp_all
  obtain fe4 where l3: "FE_getFamousWitnesses ko ?r d' fe3 = (ws, fe4)"
    using getFamousWitnesses_again [OF l2, of d'] ws(2) by (metis prod.collapse)
  have "finality_frame x d d'"
    using convert_frame [OF assms(3) flags, of x ko now r fe1] assms(4) by simp
  then have "sees_event x d' w p = sees_event x d w p" for w by (rule sees_event_frame)
  moreover have "FE_enough fe4 = FE_enough fe1"
    using getFamousWitnesses_params [OF l3] p3 by (simp add: FE_enough_def FE_required_def fun_eq_iff)
  ultimately show ?thesis using ws(3) flags assms(2) l3 p3
    by (simp add: FE_ValidateFinality_def d' converted_def fe2 Let_def)
qed

theorem converted_event_validates_witness:
  "\<exists>d' fe'. fst (FE_ValidateFinality sample_crypto no_orders 11 0 (d' :: dag) fe') \<and> d_Events d' = d_Events atropos_dag"
proof -
  let ?run = "FE_canBecomeAtropos sample_crypto no_orders 11 0 atropos_dag NewFinalityEngine"
  let ?conv = "FE_convertToAtropos sample_crypto no_orders 777 11 0 atropos_dag (snd ?run)"
  have "fst (FE_getFamousWitnesses no_orders (0 + fe_finalityDelay NewFinalityEngine) atropos_dag NewFinalityEngine) = [12]"
    using atropos_dag_lookup by (simp add: NewFinalityEngine_def)
  then have "fst ?run"
    by (cases "FE_getFamousWitnesses no_orders (0 + fe_finalityDelay NewFinalityEngine) atropos_dag NewFinalityEngine")
       (auto simp: FE_canBecomeAtropos_def FE_enough_def Let_def atropos_dag_def NewDAG_def clotho_event_def
         FE_required_two_thirds NewFinalityEngine_def dest: getFamousWitnesses_params)
  then have c: "?run = (True, snd ?run)" by (cases ?run) simp
  have "fst (FE_ValidateFinality sample_crypto no_orders 11 0 (fst ?conv) (snd ?conv))"
    by (rule converted_event_validates [OF c, of 777])
       (simp_all add: atropos_dag_def NewDAG_def clotho_event_def zero_event_def)
  moreover have "d_Events (fst ?conv) = d_Events atropos_dag" by (rule convert_heap)
  ultimately show ?thesis by blast
qed

text \<open>
  The median time is a median: for times below \<open>2 ^ 63\<close>, at least half of the values are at most
  the result and at least half are at least the result, and the result does not depend on the
  order of the values. (Above, the sum of the two middle values can wrap:
  \<open>go_median_wraps\<close> has two values of \<open>2 ^ 63\<close> with median 0.)
\<close>

theorem median_is_median:
  assumes "vs \<noteq> []" and "\<forall>v \<in> set vs. v < 2 ^ 63" and "mset ws = mset vs"
  shows "length vs \<le> 2 * count_if (\<lambda>v. v \<le> FE_median vs) vs \<and>
    length vs \<le> 2 * count_if (\<lambda>v. FE_median vs \<le> v) vs \<and> FE_median ws = FE_median vs"
  using go_median_halves [OF assms(1,2)] go_median_perm [OF assms(3)] by (simp add: FE_median_def)

theorem median_is_median_witness: "FE_median [5, 1, 9] = FE_median [9, 5, 1] \<and> FE_median [1, 4] \<le> 4"
proof -
  have "FE_median [5, 1, 9] = FE_median [9, 5, 1]"
    using median_is_median [of "[9, 5, 1]" "[5, 1, 9]"] by simp
  moreover have "FE_median [1, 4] \<le> 4"
    by (simp add: FE_median_def go_median_def Let_def)
  ultimately show ?thesis by simp
qed

text \<open>
  The Clothos of a round are read once: after \<open>getClothos\<close> has looked at a round that exists, it
  answers with the same list for any later DAG as long as the entry stays cached, so
  Clothos that appear afterwards are not finalised. With nothing but empty lists cached and no Clotho in
  the table, \<open>FinalizeEvents\<close> changes nothing.
\<close>

theorem clothos_read_once:
  fixes d d' :: "'a dag_scheme"
  assumes "FE_getClothos ko r d fe = (cs, fe1)" and "go_has (d_Rounds d) r"
  shows "fst (FE_getClothos ko r d' fe1) = cs \<and>
    (no_clothos d fe1 \<longrightarrow> fst (FE_FinalizeEvents x ko now rs d fe1) = d)"
  using getClothos_again [OF assms(1), of d'] assms(2) finalize_without_clothos [of d fe1] by blast

theorem clothos_read_once_witness:
  "fst (FE_getClothos no_orders 2 (atropos_dag\<lparr>d_Rounds := [(2, (new_round_info 0)\<lparr>ri_Clothos := [(1, 11)]\<rparr>)]\<rparr>)
     (snd (FE_getClothos no_orders 2 atropos_dag NewFinalityEngine))) = []"
proof -
  have c: "FE_getClothos no_orders 2 atropos_dag NewFinalityEngine =
      ([], snd (FE_getClothos no_orders 2 atropos_dag NewFinalityEngine))"
    by (simp add: FE_getClothos_def NewFinalityEngine_def NewCacheManager_def
        CM_GetConsensusCache_def atropos_dag_def NewDAG_def new_round_info_def Let_def)
  show ?thesis by (rule clothos_read_once [OF c, THEN conjunct1]) (simp add: atropos_dag_def)
qed

end
