(* ===== verification/Finality_Spec.thy ===== *)
theory Finality_Spec
  imports Finality
begin

text \<open>
  What finalisation promises, without caches, floats, hashes and clocks, and the proof that
  \<open>FinalizeEvents\<close> of \<open>finality.go\<close> implements it.

  The abstract state is a view of the DAG: the Clothos listed for each round, the famous witnesses
  of each round, who sees whom, and the round in which each event was finalised. One abstract
  step finalises one Clotho that has enough support two rounds later. The concrete loop is shown to
  compute a run of these steps that leaves no step of a visited round enabled.
\<close>

section \<open>The abstract state and its step\<close>

record finality_view =
  fv_clothos :: "u64 \<Rightarrow> eref list"
  fv_famous :: "u64 \<Rightarrow> eref list"
  fv_candidate :: "eref \<Rightarrow> bool"
  fv_sees :: "eref \<Rightarrow> eref \<Rightarrow> bool"
  fv_final :: "eref \<Rightarrow> u64 option"

definition supported :: "finality_view \<Rightarrow> u64 \<Rightarrow> eref \<Rightarrow> bool" where
  "supported v r p \<longleftrightarrow>
     p \<in> set (fv_clothos v r) \<and> fv_candidate v p \<and> fv_famous v (r + 2) \<noteq> [] \<and>
     2 * length (fv_famous v (r + 2)) div 3 \<le> count_if (\<lambda>w. fv_sees v w p) (fv_famous v (r + 2))"

inductive finality_step :: "finality_view \<Rightarrow> finality_view \<Rightarrow> bool" where
  finalise: "supported v r p \<Longrightarrow> fv_final v p = None \<Longrightarrow>
    finality_step v (v\<lparr>fv_final := (fv_final v)(p \<mapsto> r + 2)\<rparr>)"

text \<open>The effect of visiting some rounds in some order, as a function.\<close>

definition final_after :: "finality_view \<Rightarrow> u64 list \<Rightarrow> eref \<Rightarrow> u64 option" where
  "final_after v rs p =
     (case fv_final v p of
        Some r \<Rightarrow> Some r
      | None \<Rightarrow> map_option (\<lambda>r. r + 2) (find (\<lambda>r. supported v r p) rs))"

lemma supported_final [simp]: "supported (v\<lparr>fv_final := f\<rparr>) r p = supported v r p"
  by (simp add: supported_def)

lemma final_after_Nil [simp]: "final_after v [] = fv_final v"
  by (simp add: final_after_def fun_eq_iff split: option.split)

lemma final_after_Cons:
  "final_after v (r # rs) = final_after (v\<lparr>fv_final := final_after v [r]\<rparr>) rs"
  by (simp add: final_after_def fun_eq_iff split: option.split)

section \<open>The abstraction function\<close>

definition clothos_at :: "'a dag_scheme \<Rightarrow> u64 \<Rightarrow> eref list" where
  "clothos_at d r = (case go_get (d_Rounds d) r of None \<Rightarrow> [] | Some ri \<Rightarrow> map snd (ri_Clothos ri))"

definition famous_at :: "'a dag_scheme \<Rightarrow> u64 \<Rightarrow> eref list" where
  "famous_at d r =
     (case go_get (d_Rounds d) r of
        None \<Rightarrow> []
      | Some ri \<Rightarrow> filter (\<lambda>w. ev_IsFamous (d_heap d w) = Some True) (map snd (ri_Witnesses ri)))"

definition event_final :: "event \<Rightarrow> u64 option" where
  "event_final e = (if ev_Atropos e \<noteq> 0 then Some (ev_RoundReceived e) else None)"

definition view_of :: "crypto \<Rightarrow> 'a dag_scheme \<Rightarrow> finality_view" where
  "view_of x d = \<lparr>fv_clothos = clothos_at d, fv_famous = famous_at d,
     fv_candidate = (\<lambda>p. ev_IsClotho (d_heap d p) \<and> ev_IsFamous (d_heap d p) = Some True),
     fv_sees = sees_event x d, fv_final = (\<lambda>p. event_final (d_heap d p))\<rparr>"

lemma view_of_sel [simp]:
  "fv_clothos (view_of x d) = clothos_at d" "fv_famous (view_of x d) = famous_at d"
  "fv_sees (view_of x d) = sees_event x d" "fv_final (view_of x d) p = event_final (d_heap d p)"
  by (simp_all add: view_of_def)

text \<open>The cached lists are those of the DAG.\<close>

definition cache_sound :: "'a dag_scheme \<Rightarrow> finality_engine \<Rightarrow> bool" where
  "cache_sound d fe \<longleftrightarrow>
     (\<forall>r cd. go_get (cm_consensusCache (fe_cacheManager fe)) r = Some cd \<longrightarrow>
        cd_clothos cd \<in> {None, Some (clothos_at d r)} \<and>
        cd_famous_witnesses cd \<in> {None, Some (famous_at d r)})"

definition standard_params :: "finality_engine \<Rightarrow> bool" where
  "standard_params fe \<longleftrightarrow> fe_byzantineThreshold fe = two_thirds \<and> fe_finalityDelay fe = 2"

text \<open>
  The simulation relation, and what of the DAG the engine relies on: the lists are shorter than
  \<open>2 ^ 50\<close> and no famous Clotho hashes to the value that means \<open>not final\<close>.
\<close>

definition finality_ready :: "crypto \<Rightarrow> 'a dag_scheme \<Rightarrow> finality_engine \<Rightarrow> bool" where
  "finality_ready x d fe \<longleftrightarrow> cache_sound d fe \<and> standard_params fe \<and>
     (\<forall>r. length (famous_at d r) < 2 ^ 50) \<and>
     (\<forall>p. fv_candidate (view_of x d) p \<longrightarrow> hash_of x (d_heap d p) \<noteq> 0)"

section \<open>The cached lookups return what the DAG holds\<close>

lemma bind_cases_sound:
  assumes "\<And>cd. m = Some cd \<Longrightarrow> f cd \<in> {None, Some l}"
  shows "Option.bind m f \<in> {None, Some l}"
  using assms by (cases m) auto

lemma counted_sound:
  "cache_sound d fe \<Longrightarrow> cache_sound d (fe\<lparr>fe_cacheManager := CM_count h (fe_cacheManager fe)\<rparr>)"
  by (simp add: cache_sound_def)

lemma stored_sound:
  assumes "cache_sound d fe" and "cd_clothos cd \<in> {None, Some (clothos_at d r)}"
    and "cd_famous_witnesses cd \<in> {None, Some (famous_at d r)}"
  shows "cache_sound d (fe\<lparr>fe_cacheManager := CM_SetConsensusCache ks r cd (CM_count h (fe_cacheManager fe))\<rparr>)"
  using assms unfolding cache_sound_def
  by (auto simp: consensus_cache.part_setter dest!: evict_from_get split: if_splits)

lemma clothos_at_Some: "go_get (d_Rounds d) r = Some ri \<Longrightarrow> clothos_at d r = map snd (ri_Clothos ri)"
  and clothos_at_None: "go_get (d_Rounds d) r = None \<Longrightarrow> clothos_at d r = []"
  and famous_at_Some: "go_get (d_Rounds d) r = Some ri \<Longrightarrow>
    famous_at d r = filter (\<lambda>w. ev_IsFamous (d_heap d w) = Some True) (map snd (ri_Witnesses ri))"
  and famous_at_None: "go_get (d_Rounds d) r = None \<Longrightarrow> famous_at d r = []"
  by (simp_all add: clothos_at_def famous_at_def)

lemma stored_clothos:
  "cache_sound d fe \<Longrightarrow> clothos_at d r = cs \<Longrightarrow>
   cache_sound d (fe\<lparr>fe_cacheManager := CM_SetConsensusCache ks r
     \<lparr>cd_clothos = Some cs, cd_famous_witnesses = None\<rparr> (CM_count h (fe_cacheManager fe))\<rparr>)"
  and stored_famous:
  "cache_sound d fe \<Longrightarrow> famous_at d r = cs \<Longrightarrow>
   cache_sound d (fe\<lparr>fe_cacheManager := CM_SetConsensusCache ks r
     \<lparr>cd_clothos = None, cd_famous_witnesses = Some cs\<rparr> (CM_count h (fe_cacheManager fe))\<rparr>)"
  by (rule stored_sound; simp)+

lemma getClothos_sound:
  assumes "cache_sound d fe" and "FE_getClothos ko r d fe = (cs, fe')"
  shows "cs = clothos_at d r \<and> cache_sound d fe' \<and> (standard_params fe \<longrightarrow> standard_params fe')"
proof -
  let ?cached = "Option.bind (go_get (cm_consensusCache (fe_cacheManager fe)) r) cd_clothos"
  have cached: "?cached \<in> {None, Some (clothos_at d r)}"
    using assms(1) by (intro bind_cases_sound) (simp add: cache_sound_def)
  note run = assms(2) [unfolded FE_getClothos_def consensus_cache.getter_eq Let_def prod.case]
  show ?thesis
  proof (cases "?cached = None")
    case True
    then show ?thesis
      using run by (cases "go_get (d_Rounds d) r")
        (auto simp: clothos_at_Some clothos_at_None standard_params_def intro!: counted_sound stored_clothos assms(1))
  next
    case False
    then have "?cached = Some (clothos_at d r)" using cached by auto
    then show ?thesis using run by (auto simp: standard_params_def intro!: counted_sound assms(1))
  qed
qed

lemma getFamousWitnesses_sound:
  assumes "cache_sound d fe" and "FE_getFamousWitnesses ko r d fe = (ws, fe')"
  shows "ws = famous_at d r \<and> cache_sound d fe' \<and> (standard_params fe \<longrightarrow> standard_params fe')"
proof -
  let ?cached = "Option.bind (go_get (cm_consensusCache (fe_cacheManager fe)) r) cd_famous_witnesses"
  have cached: "?cached \<in> {None, Some (famous_at d r)}"
    using assms(1) by (intro bind_cases_sound) (simp add: cache_sound_def)
  note run = assms(2) [unfolded FE_getFamousWitnesses_def consensus_cache.getter_eq Let_def prod.case]
  show ?thesis
  proof (cases "?cached = None")
    case True
    then show ?thesis
      using run by (cases "go_get (d_Rounds d) r")
        (auto simp: famous_at_Some famous_at_None standard_params_def intro!: counted_sound stored_famous assms(1))
  next
    case False
    then have "?cached = Some (famous_at d r)" using cached by auto
    then show ?thesis using run by (auto simp: standard_params_def intro!: counted_sound assms(1))
  qed
qed

section \<open>One conversion is one abstract step\<close>

lemma can_become_sound:
  assumes "finality_ready x d fe" and "p \<in> set (clothos_at d r)"
    and "FE_canBecomeAtropos x ko p r d fe = (ok, fe1)"
  shows "ok = supported (view_of x d) r p \<and> finality_ready x d fe1"
proof (cases "fv_candidate (view_of x d) p")
  case False
  then have "ok = False" "fe1 = fe"
    using assms(3) by (auto simp: view_of_def FE_canBecomeAtropos_def split: if_splits)
  then show ?thesis using False assms(1) by (simp add: supported_def)
next
  case True
  have cs: "cache_sound d fe" and sp: "standard_params fe" using assms(1) by (simp_all add: finality_ready_def)
  obtain ws fe2 where g: "FE_getFamousWitnesses ko (r + 2) d fe = (ws, fe2)" by fastforce
  have ws: "ws = famous_at d (r + 2)" "cache_sound d fe2" "standard_params fe2"
    using getFamousWitnesses_sound [OF cs g] sp by simp_all
  have "length ws < 2 ^ 50" using assms(1) ws(1) by (simp add: finality_ready_def)
  then have req: "FE_required fe2 (length ws) = Some (2 * length ws div 3)"
    using ws(3) by (intro FE_required_two_thirds) (simp_all add: standard_params_def)
  from True sp assms(3) g have "fe1 = fe2" and "ok = (ws \<noteq> [] \<and>
      FE_enough fe2 (count_if (\<lambda>w. sees_event x d w p) ws) (length ws))"
    by (auto simp: FE_canBecomeAtropos_def view_of_def standard_params_def Let_def split: if_splits)
  then show ?thesis
    using True assms(1,2) ws req by (auto simp: supported_def FE_enough_def finality_ready_def)
qed

lemma go_get_converted_round:
  "go_get (d_Rounds (fst (FE_convertToAtropos x ko now p r d fe))) r' =
     (if r' = r + fe_finalityDelay fe
      then let ri = round_or_new d r' in
        Some (ri\<lparr>ri_Atropos := go_put (hash_of x (d_heap d p)) p (ri_Atropos ri)\<rparr>)
      else go_get (d_Rounds d) r')"
proof -
  obtain ts fe1 where c: "FE_calculateAtroposTime x ko p (r + fe_finalityDelay fe)
      (marked x p (r + fe_finalityDelay fe) d) fe = (ts, fe1)" by fastforce
  show ?thesis by (simp add: convert_unfold [OF refl c] Let_def) (simp add: FE_ensureRound_def)
qed

lemma convert_engine:
  assumes "cache_sound d fe" and "standard_params fe"
  shows "cache_sound d (snd (FE_convertToAtropos x ko now p r d fe)) \<and>
    standard_params (snd (FE_convertToAtropos x ko now p r d fe))"
proof -
  let ?r = "r + fe_finalityDelay fe"
  obtain ws fe1 where g: "FE_getFamousWitnesses ko ?r d fe = (ws, fe1)" by fastforce
  have c: "FE_calculateAtroposTime x ko p ?r (marked x p ?r d) fe =
      (map (\<lambda>w. ev_Lamport (d_heap d w)) (filter (\<lambda>w. sees_event x d w p) ws), fe1)"
    unfolding calculateAtroposTime_marked by (simp add: FE_calculateAtroposTime_def g)
  show ?thesis using getFamousWitnesses_sound [OF assms(1) g] assms(2)
    by (simp add: convert_unfold [OF refl c] Let_def)
qed

lemma tables_kept:
  assumes "finality_frame x d d'"
    and "\<And>r. map_option ri_Clothos (go_get (d_Rounds d') r) \<in>
      {map_option ri_Clothos (go_get (d_Rounds d) r), Some (ri_Clothos (round_or_new d r))}"
    and "\<And>r. map_option ri_Witnesses (go_get (d_Rounds d') r) \<in>
      {map_option ri_Witnesses (go_get (d_Rounds d) r), Some (ri_Witnesses (round_or_new d r))}"
  shows "clothos_at d' = clothos_at d \<and> famous_at d' = famous_at d"
proof -
  have fame: "ev_IsFamous (d_heap d' q) = ev_IsFamous (d_heap d q)" for q
    using assms(1) by (simp add: finality_frame_def finalised_only_def)
  have "clothos_at d' r = clothos_at d r" for r
    using assms(2) [of r] by (auto simp: clothos_at_def round_or_new_def new_round_info_def split: option.splits)
  moreover have "famous_at d' r = famous_at d r" for r
    using assms(3) [of r]
    by (auto simp: famous_at_def fame round_or_new_def new_round_info_def split: option.splits)
  ultimately show ?thesis by blast
qed

lemma convert_simulates:
  assumes "finality_ready x d fe" and "ev_Atropos (d_heap d p) = 0" and "fv_candidate (view_of x d) p"
    and "FE_convertToAtropos x ko now p r d fe = (d', fe')"
  shows "view_of x d' = (view_of x d)\<lparr>fv_final := (fv_final (view_of x d))(p \<mapsto> r + 2)\<rparr> \<and> finality_ready x d' fe'"
proof -
  have flags: "ev_IsClotho (d_heap d p)" "ev_IsFamous (d_heap d p) = Some True"
    using assms(3) by (simp_all add: view_of_def)
  have sp: "standard_params fe" "cache_sound d fe" using assms(1) by (simp_all add: finality_ready_def)
  have frame: "finality_frame x d d'" using convert_frame [OF assms(2) flags, of x ko now r fe] assms(4) by simp
  have rounds: "go_get (d_Rounds d') r' = (if r' = r + 2 then let ri = round_or_new d r' in
        Some (ri\<lparr>ri_Atropos := go_put (hash_of x (d_heap d p)) p (ri_Atropos ri)\<rparr>) else go_get (d_Rounds d) r')" for r'
    using go_get_converted_round [of x ko now p r d fe] assms(4) sp(1) by (simp add: standard_params_def)
  have tables: "clothos_at d' = clothos_at d" "famous_at d' = famous_at d"
    using tables_kept [OF frame] rounds by (auto simp: Let_def)
  have kept: "hash_of x (d_heap d' q) = hash_of x (d_heap d q)" "ev_IsClotho (d_heap d' q) = ev_IsClotho (d_heap d q)"
    "ev_IsFamous (d_heap d' q) = ev_IsFamous (d_heap d q)" for q
    using frame by (simp_all add: finality_frame_def finalised_only_def)
  obtain ts where h: "d_heap d' = (d_heap d)(p := converted x now (r + 2) ts (d_heap d p))"
    using convert_heap [of x ko now p r d fe] assms(4) sp(1) by (metis fst_conv standard_params_def)
  have "hash_of x (d_heap d p) \<noteq> 0" using assms(1,3) by (simp add: finality_ready_def)
  then have final: "(\<lambda>q. event_final (d_heap d' q)) = (\<lambda>q. event_final (d_heap d q))(p \<mapsto> r + 2)"
    by (auto simp: h event_final_def converted_def fun_eq_iff)
  have sees: "sees_event x d' = sees_event x d" using sees_event_frame [OF frame] by (simp add: fun_eq_iff)
  have view: "view_of x d' = (view_of x d)\<lparr>fv_final := (fv_final (view_of x d))(p \<mapsto> r + 2)\<rparr>"
    using final by (simp add: view_of_def tables kept sees)
  moreover have "cache_sound d' fe'" "standard_params fe'"
    using convert_engine [OF sp(2,1), of x ko now p r] assms(4) by (simp_all add: cache_sound_def tables)
  ultimately show ?thesis using assms(1) by (simp add: finality_ready_def tables kept)
qed

section \<open>The loops are runs\<close>

text \<open>Visiting a prefix of the Clothos of one round.\<close>

definition round_visited :: "finality_view \<Rightarrow> u64 \<Rightarrow> eref list \<Rightarrow> finality_view" where
  "round_visited v r ps = v\<lparr>fv_final := (\<lambda>p. if fv_final v p = None \<and> p \<in> set ps \<and> supported v r p
     then Some (r + 2) else fv_final v p)\<rparr>"

lemma round_visited_Nil [simp]: "round_visited v r [] = v"
  by (simp add: round_visited_def)

lemma round_visited_skip:
  "fv_final v p \<noteq> None \<or> \<not> supported v r p \<Longrightarrow> round_visited v r (p # ps) = round_visited v r ps"
  unfolding round_visited_def by (rule arg_cong [where f = "\<lambda>f. v\<lparr>fv_final := f\<rparr>"]) (auto simp: fun_eq_iff)

lemma round_visited_take:
  "fv_final v p = None \<Longrightarrow> supported v r p \<Longrightarrow>
   round_visited v r (p # ps) = round_visited (v\<lparr>fv_final := (fv_final v)(p \<mapsto> r + 2)\<rparr>) r ps"
  by (auto simp: round_visited_def fun_eq_iff)

lemma round_visited_all: "round_visited v r (fv_clothos v r) = v\<lparr>fv_final := final_after v [r]\<rparr>"
proof -
  have "p \<in> set (fv_clothos v r)" if "supported v r p" for p using that by (simp add: supported_def)
  then show ?thesis by (auto simp: round_visited_def final_after_def fun_eq_iff split: option.split)
qed

lemma finalize_round_simulates:
  assumes "finality_ready x d fe" and "set ps \<subseteq> set (clothos_at d r)"
    and "FE_finalizeClothosForRound x ko now r ps d fe = (d', fe')"
  shows "view_of x d' = round_visited (view_of x d) r ps \<and> finality_ready x d' fe' \<and>
    finality_step\<^sup>*\<^sup>* (view_of x d) (view_of x d')"
  using assms
proof (induction ps arbitrary: d fe)
  case (Cons p ps)
  show ?case
  proof (cases "ev_Atropos (d_heap d p) = 0")
    case False
    then have "round_visited (view_of x d) r (p # ps) = round_visited (view_of x d) r ps"
      by (intro round_visited_skip) (simp add: event_final_def)
    moreover have "FE_finalizeClothosForRound x ko now r ps d fe = (d', fe')" using Cons.prems(3) False by simp
    ultimately show ?thesis using Cons.IH [OF Cons.prems(1)] Cons.prems(2) by (metis set_subset_Cons subset_trans)
  next
    case True
    then have open_p: "fv_final (view_of x d) p = None" by (simp add: event_final_def)
    obtain ok fe1 where c: "FE_canBecomeAtropos x ko p r d fe = (ok, fe1)" by fastforce
    have ok: "ok = supported (view_of x d) r p" and fe1: "finality_ready x d fe1"
      using can_become_sound [OF Cons.prems(1) _ c] Cons.prems(2) by simp_all
    show ?thesis
    proof (cases ok)
      case False
      then have "round_visited (view_of x d) r (p # ps) = round_visited (view_of x d) r ps"
        using ok by (intro round_visited_skip) simp
      moreover have "FE_finalizeClothosForRound x ko now r ps d fe1 = (d', fe')"
        using Cons.prems(3) True c False by simp
      ultimately show ?thesis using Cons.IH [OF fe1] Cons.prems(2) by (metis set_subset_Cons subset_trans)
    next
      case ok_p: True
      obtain d2 fe2 where d2: "FE_convertToAtropos x ko (now p) p r d fe1 = (d2, fe2)" by fastforce
      have sup: "supported (view_of x d) r p" using ok ok_p by simp
      then have "fv_candidate (view_of x d) p" by (simp add: supported_def)
      from convert_simulates [OF fe1 True this d2]
      have v2: "view_of x d2 = (view_of x d)\<lparr>fv_final := (fv_final (view_of x d))(p \<mapsto> r + 2)\<rparr>"
        and r2: "finality_ready x d2 fe2" by simp_all
      have "clothos_at d2 = clothos_at d" using arg_cong [OF v2, of fv_clothos] by simp
      then have "view_of x d' = round_visited (view_of x d2) r ps \<and> finality_ready x d' fe' \<and>
          finality_step\<^sup>*\<^sup>* (view_of x d2) (view_of x d')"
        using Cons.prems(2,3) True c ok_p d2 by (intro Cons.IH [OF r2]) simp_all
      moreover have "finality_step (view_of x d) (view_of x d2)"
        unfolding v2 by (rule finalise [OF sup open_p])
      moreover have "round_visited (view_of x d) r (p # ps) = round_visited (view_of x d2) r ps"
        unfolding v2 by (rule round_visited_take [OF open_p sup])
      ultimately show ?thesis by (metis converse_rtranclp_into_rtranclp)
    qed
  qed
qed simp

lemma finalize_events_simulates:
  assumes "finality_ready x d fe" and "FE_FinalizeEvents x ko now rs d fe = (d', fe')"
  shows "view_of x d' = (view_of x d)\<lparr>fv_final := final_after (view_of x d) rs\<rparr> \<and> finality_ready x d' fe' \<and>
    finality_step\<^sup>*\<^sup>* (view_of x d) (view_of x d')"
  using assms
proof (induction rs arbitrary: d fe)
  case Nil
  then show ?case by (simp del: view_of_sel)
next
  case (Cons r rs)
  obtain cs fe1 where c: "FE_getClothos ko r d fe = (cs, fe1)" by fastforce
  have cs: "cs = clothos_at d r" and fe1: "finality_ready x d fe1"
    using getClothos_sound [OF _ c] Cons.prems(1) by (auto simp: finality_ready_def)
  obtain d2 fe2 where d2: "FE_finalizeClothosForRound x ko now r cs d fe1 = (d2, fe2)" by fastforce
  note run = finalize_round_simulates [OF fe1 _ d2, unfolded cs, OF subset_refl]
  have v2: "view_of x d2 = (view_of x d)\<lparr>fv_final := final_after (view_of x d) [r]\<rparr>"
    using run round_visited_all [of "view_of x d" r] by simp
  have r2: "finality_ready x d2 fe2" and s2: "finality_step\<^sup>*\<^sup>* (view_of x d) (view_of x d2)"
    using run by blast+
  have "FE_FinalizeEvents x ko now rs d2 fe2 = (d', fe')"
    using Cons.prems(2) c d2 by (cases "cs = []") simp_all
  note rest = Cons.IH [OF r2 this]
  moreover have "(view_of x d2)\<lparr>fv_final := final_after (view_of x d2) rs\<rparr> =
      (view_of x d)\<lparr>fv_final := final_after (view_of x d) (r # rs)\<rparr>"
    unfolding v2 final_after_Cons [of "view_of x d" r rs] by simp
  ultimately show ?case using rtranclp_trans [OF s2] by metis
qed

section \<open>Properties\<close>

text \<open>
  C4. \<open>FinalizeEvents\<close> refines the specification. When the cached lists are those of the DAG (as they
  are for a new engine), whatever is evicted meanwhile and whatever the clock says, the call takes the
  view of the DAG to the one in which exactly the supported Clothos of the visited rounds are
  finalised, each in the round two after the first visited round that supports it; everything else of
  the view is kept, the change is a run of abstract steps, and the cache is sound again afterwards.
\<close>

theorem finalize_events_refines:
  assumes "finality_ready x d fe" and "FE_FinalizeEvents x ko now rs d fe = (d', fe')"
  shows "view_of x d' = (view_of x d)\<lparr>fv_final := final_after (view_of x d) rs\<rparr> \<and>
    finality_step\<^sup>*\<^sup>* (view_of x d) (view_of x d') \<and> finality_ready x d' fe'"
  using finalize_events_simulates [OF assms] by blast

text \<open>A famous Clotho of round 0 and one famous witness of round 2.\<close>

definition listed_dag :: dag where
  "listed_dag = atropos_dag\<lparr>d_Rounds := [(0, (new_round_info 0)\<lparr>ri_Clothos := [(1, 11)]\<rparr>),
     (2, (new_round_info 0)\<lparr>ri_Witnesses := [(2, 12)]\<rparr>)]\<rparr>"

lemma listed_dag_lists:
  "clothos_at listed_dag r = (if r = 0 then [11] else [])" "famous_at listed_dag r = (if r = 2 then [12] else [])"
  by (simp_all add: clothos_at_def famous_at_def listed_dag_def atropos_dag_def NewDAG_def clotho_event_def
      new_round_info_def)

lemma listed_dag_ready: "finality_ready sample_crypto listed_dag NewFinalityEngine"
  by (simp add: finality_ready_def cache_sound_def standard_params_def listed_dag_lists NewFinalityEngine_def
      NewCacheManager_def view_of_def) (simp add: listed_dag_def atropos_dag_def NewDAG_def clotho_event_def zero_event_def)

lemma listed_dag_supported: "supported (view_of sample_crypto listed_dag) r p \<longleftrightarrow> r = 0 \<and> p = 11"
  by (auto simp: supported_def listed_dag_lists)
     (simp add: view_of_def listed_dag_def atropos_dag_def NewDAG_def clotho_event_def)

lemma listed_dag_final: "fv_final (view_of sample_crypto listed_dag) = (\<lambda>p. None)"
  by (simp add: fun_eq_iff event_final_def listed_dag_def atropos_dag_def NewDAG_def clotho_event_def zero_event_def)

theorem finalize_events_refines_witness:
  "fv_final (view_of sample_crypto (fst (FE_FinalizeEvents sample_crypto no_orders (\<lambda>_. 777) [2, 0] listed_dag
     NewFinalityEngine))) = [11 \<mapsto> 2]"
proof -
  have "final_after (view_of sample_crypto listed_dag) [2, 0] p = ([11 \<mapsto> 2] p)" for p
    by (simp add: final_after_def listed_dag_final listed_dag_supported)
  then show ?thesis
    using finalize_events_refines [OF listed_dag_ready surjective_pairing, of no_orders "\<lambda>_. 777" "[2, 0]"]
    by (simp add: fun_eq_iff del: view_of_sel)
qed

section \<open>The same tables in another order\<close>

text \<open>
  A Go map has no order: two runs over one DAG may range over its events, its rounds, and the Clothos and
  witnesses of each round in different orders. The two DAGs here hold the same entries, listed differently.
\<close>

definition reordered :: "'a dag_scheme \<Rightarrow> 'a dag_scheme \<Rightarrow> bool" where
  "reordered d d' \<longleftrightarrow> d_heap d' = d_heap d \<and> go_get (d_Events d') = go_get (d_Events d) \<and>
     (\<forall>r. rel_option (\<lambda>ri ri'. mset (ri_Clothos ri') = mset (ri_Clothos ri) \<and>
        mset (ri_Witnesses ri') = mset (ri_Witnesses ri)) (go_get (d_Rounds d) r) (go_get (d_Rounds d') r))"

lemma reordered_refl [simp]: "reordered d d"
  by (simp add: reordered_def option.rel_refl)

lemma reordered_lists:
  assumes "reordered d d'"
  shows "mset (clothos_at d' r) = mset (clothos_at d r)" "mset (famous_at d' r) = mset (famous_at d r)"
proof -
  have h: "d_heap d' = d_heap d" using assms by (simp add: reordered_def)
  have rel: "rel_option (\<lambda>ri ri'. mset (ri_Clothos ri') = mset (ri_Clothos ri) \<and>
      mset (ri_Witnesses ri') = mset (ri_Witnesses ri)) (go_get (d_Rounds d) r) (go_get (d_Rounds d') r)"
    using assms by (simp add: reordered_def)
  show "mset (clothos_at d' r) = mset (clothos_at d r)" using rel
    by (cases rule: option.rel_cases) (simp_all add: clothos_at_def)
  show "mset (famous_at d' r) = mset (famous_at d r)" using rel
    by (cases rule: option.rel_cases) (simp_all add: famous_at_def h)
qed

lemma reordered_sees: "reordered d d' \<Longrightarrow> sees_event x d' w p = sees_event x d w p"
proof -
  assume same: "reordered d d'"
  have "go_get (parent_graph_of d') i = go_get (parent_graph_of d) i" for i
    using same by (simp add: parent_graph_of_def map_of_map reordered_def)
  then have "parent_of (parent_graph_of d') = parent_of (parent_graph_of d)"
    by (simp add: fun_eq_iff parent_of_def)
  then show ?thesis using same by (simp add: sees_event_def dfs_ancestor_iff reordered_def)
qed

lemma reordered_supported:
  assumes "reordered d d'"
  shows "supported (view_of x d') r p \<longleftrightarrow> supported (view_of x d) r p"
proof -
  note same = reordered_lists [OF assms]
  have "set (clothos_at d' r) = set (clothos_at d r)" by (rule mset_eq_setD [OF same(1)])
  moreover have "length (famous_at d' (r + 2)) = length (famous_at d (r + 2))"
    by (rule mset_eq_length [OF same(2)])
  moreover have "count_if P (famous_at d' (r + 2)) = count_if P (famous_at d (r + 2))" for P
    by (rule count_if_perm [OF same(2)])
  moreover have "fv_candidate (view_of x d') p = fv_candidate (view_of x d) p"
    using assms by (simp add: view_of_def reordered_def)
  ultimately show ?thesis
    by (simp add: supported_def reordered_sees [OF assms] flip: length_greater_0_conv)
qed

text \<open>
  C15. The order of iteration does not matter, and one pass is enough. Go visits the rounds of the table, and
  the Clothos and witnesses of each round, in an unspecified order. Take two runs over the same DAG: the tables
  hold the same entries in any two orders, the loop visits the same rounds in any two orders, and the engines
  differ in what they have cached, in their evictions and their clocks. The two runs finalise the same events,
  and a further pass over these rounds by the same engine finalises nothing more.
\<close>

theorem finalize_order_irrelevant:
  assumes "finality_ready x d fe" and "finality_ready x d' fe'" and "reordered d d'" and "set rs = set rs'"
    and "FE_FinalizeEvents x ko now rs d fe = (d1, fe1)" and "FE_FinalizeEvents x ko' now' rs' d' fe' = (d2, fe2)"
  shows "dom (fv_final (view_of x d1)) = dom (fv_final (view_of x d2)) \<and>
    view_of x (fst (FE_FinalizeEvents x ko'' now'' rs' d1 fe1)) = view_of x d1"
proof -
  let ?v = "view_of x d" and ?v' = "view_of x d'"
  note s1 = finalize_events_simulates [OF assms(1,5)] and s2 = finalize_events_simulates [OF assms(2,6)]
  have found: "find (\<lambda>r. supported v r p) rs = None \<longleftrightarrow> find (\<lambda>r. supported v r p) rs' = None" for v p
    using assms(4) by (simp add: find_None_iff)
  have "fv_final ?v' p = fv_final ?v p" for p using assms(3) by (simp add: reordered_def)
  then have "final_after ?v rs p = None \<longleftrightarrow> final_after ?v' rs' p = None" for p
    using found [of ?v p] by (simp add: final_after_def reordered_supported [OF assms(3)] del: view_of_sel split: option.split)
  then have "dom (fv_final (view_of x d1)) = dom (fv_final (view_of x d2))"
    using s1 s2 by (auto simp: dom_def)
  moreover have "final_after (?v\<lparr>fv_final := final_after ?v rs\<rparr>) rs' p = final_after ?v rs p" for p
    using found [of ?v p] by (simp add: final_after_def split: option.split)
  then have "view_of x (fst (FE_FinalizeEvents x ko'' now'' rs' d1 fe1)) = view_of x d1"
    using s1 finalize_events_simulates [of x d1 fe1 ko'' now'' rs']
    by (cases "FE_FinalizeEvents x ko'' now'' rs' d1 fe1") (simp add: fun_eq_iff)
  ultimately show ?thesis by blast
qed

text \<open>The example's DAG with two Clothos in round 0, in both orders.\<close>

definition two_clothos_dag :: "(event_id \<times> eref) list \<Rightarrow> dag" where
  "two_clothos_dag cs = atropos_dag\<lparr>d_Rounds := [(0, (new_round_info 0)\<lparr>ri_Clothos := cs\<rparr>),
     (2, (new_round_info 0)\<lparr>ri_Witnesses := [(2, 12)]\<rparr>)]\<rparr>"

lemma two_clothos_ready: "finality_ready sample_crypto (two_clothos_dag cs) NewFinalityEngine"
proof -
  have "length (famous_at (two_clothos_dag cs) r) < 2 ^ 50" for r
    by (simp add: famous_at_def two_clothos_dag_def atropos_dag_def NewDAG_def clotho_event_def new_round_info_def)
  then show ?thesis
    by (simp add: finality_ready_def cache_sound_def standard_params_def NewFinalityEngine_def NewCacheManager_def
        view_of_def) (simp add: two_clothos_dag_def atropos_dag_def NewDAG_def clotho_event_def zero_event_def)
qed

lemma two_clothos_reordered: "mset cs = mset cs' \<Longrightarrow> reordered (two_clothos_dag cs) (two_clothos_dag cs')"
  by (simp add: reordered_def two_clothos_dag_def)

theorem finalize_order_irrelevant_witness:
  "dom (fv_final (view_of sample_crypto (fst (FE_FinalizeEvents sample_crypto no_orders (\<lambda>_. 777) [2, 0]
     (two_clothos_dag [(1, 11), (2, 12)]) NewFinalityEngine)))) =
   dom (fv_final (view_of sample_crypto (fst (FE_FinalizeEvents sample_crypto no_orders (\<lambda>_. 5) [0, 2, 0]
     (two_clothos_dag [(2, 12), (1, 11)]) NewFinalityEngine))))"
  using finalize_order_irrelevant [OF two_clothos_ready two_clothos_ready two_clothos_reordered _
      surjective_pairing surjective_pairing, of "[(1, 11), (2, 12)]" "[(2, 12), (1, 11)]" "[2, 0]" "[0, 2, 0]"
      no_orders "\<lambda>_. 777" no_orders "\<lambda>_. 5"]
  by (simp add: insert_commute)

end
