(* ===== verification/Blocks.thy ===== *)
theory Blocks
  imports Sinar_Event
begin

text \<open>
  The block data of \<open>blockchain.go\<close>: header, hash with its cache, signature and \<open>Reset\<close>.

  The encoders of a header and of a list of identifiers come from go-ethereum and are fields of
  \<open>block_crypto\<close>, next to those the events use. Unlike an event header, a block header has no
  signed integer field, so its encoding need not fail.
\<close>

section \<open>Data\<close>

record block_header =
  bh_Number :: u64
  bh_ParentHash :: hash32
  bh_Root :: hash32
  bh_AtroposTime :: u64
  bh_CreatedAt :: int
  bh_Creator :: string
  bh_Signature :: "byte list"
  bh_GasLimit :: u64
  bh_GasUsed :: u64
  bh_BaseFee :: "int option"

record block =
  bk_Header :: block_header
  bk_Transactions :: "transaction list"
  bk_Events :: "event_id list"
  bk_hash :: hash32 \<comment> \<open>the cache; zero when not computed\<close>

record block_crypto = crypto +
  rlp_blockHeader :: "block_header \<Rightarrow> byte list option"
  rlp_eventIDs :: "event_id list \<Rightarrow> byte list option"

definition zero_header :: block_header where
  "zero_header = \<lparr>bh_Number = 0, bh_ParentHash = 0, bh_Root = 0, bh_AtroposTime = 0, bh_CreatedAt = 0,
     bh_Creator = '''', bh_Signature = [], bh_GasLimit = 0, bh_GasUsed = 0, bh_BaseFee = None\<rparr>"

definition zero_block :: block where
  "zero_block = \<lparr>bk_Header = zero_header, bk_Transactions = [], bk_Events = [], bk_hash = 0\<rparr>"

section \<open>Operations\<close>

definition Block_digest :: "block_crypto \<Rightarrow> block \<Rightarrow> hash32" where
  "Block_digest x b =
     keccak x (case_option [] id (rlp_blockHeader x (bk_Header b)) @
               case_option [] id (rlp_txs x (bk_Transactions b)) @
               case_option [] id (rlp_eventIDs x (bk_Events b)))"

definition Block_Hash :: "block_crypto \<Rightarrow> block \<Rightarrow> hash32 \<times> block" where
  "Block_Hash x b =
     (if bk_hash b \<noteq> 0 then (bk_hash b, b)
      else let h = Block_digest x b in (h, b\<lparr>bk_hash := h\<rparr>))"

definition Block_Sign :: "block_crypto \<Rightarrow> private_key \<Rightarrow> block \<Rightarrow> bool \<times> block" where
  "Block_Sign x priv b =
     (case Block_Hash x b of (h, b1) \<Rightarrow>
        (case ecdsa_Sign x (keccak x (hash_bytes h)) priv of
           None \<Rightarrow> (False, b1)
         | Some sig \<Rightarrow> (True, b1\<lparr>bk_Header := (bk_Header b1)\<lparr>bh_Signature := sig\<rparr>\<rparr>)))"

definition Block_VerifySignature :: "block_crypto \<Rightarrow> public_key \<Rightarrow> block \<Rightarrow> bool \<times> block" where
  "Block_VerifySignature x pub b =
     (case Block_Hash x b of (h, b1) \<Rightarrow>
        (case ecdsa_SigToPub x (keccak x (hash_bytes h)) (bh_Signature (bk_Header b1)) of
           None \<Rightarrow> (False, b1)
         | Some recovered \<Rightarrow> (pk_X recovered = pk_X pub \<and> pk_Y recovered = pk_Y pub, b1)))"

definition Block_Reset :: "block \<Rightarrow> block" where
  "Block_Reset b = b\<lparr>bk_Header := (bk_Header b)\<lparr>bh_Number := 0, bh_ParentHash := 0, bh_Root := 0,
       bh_AtroposTime := 0, bh_CreatedAt := 0, bh_Creator := '''', bh_Signature := [],
       bh_GasLimit := 0, bh_GasUsed := 0, bh_BaseFee := None\<rparr>,
     bk_Transactions := [], bk_Events := [], bk_hash := 0\<rparr>"

section \<open>Lemmas\<close>

lemma Block_Hash_fields [simp]:
  "bk_Header (snd (Block_Hash x b)) = bk_Header b"
  "bk_Transactions (snd (Block_Hash x b)) = bk_Transactions b"
  "bk_Events (snd (Block_Hash x b)) = bk_Events b"
  by (simp_all add: Block_Hash_def Let_def)

lemma Block_Hash_stable: "fst (Block_Hash x (snd (Block_Hash x b))) = fst (Block_Hash x b)"
  by (simp add: Block_Hash_def Let_def) (simp add: Block_digest_def)

lemma Block_Reset_zero: "Block_Reset b = zero_block"
  by (simp add: Block_Reset_def zero_block_def zero_header_def)

section \<open>A provider for the examples\<close>

definition sample_block_crypto :: block_crypto where
  "sample_block_crypto = crypto.extend sample_crypto
     \<lparr>rlp_blockHeader = (\<lambda>h. Some (ucast (bh_Number h) # bh_Signature h)),
      rlp_eventIDs = (\<lambda>is. Some (map ucast is))\<rparr>"

lemma sample_block_crypto_fields [simp]:
  "rlp_header sample_block_crypto = rlp_header sample_crypto" "rlp_txs sample_block_crypto = rlp_txs sample_crypto"
  "keccak sample_block_crypto = keccak sample_crypto" "ecdsa_Sign sample_block_crypto = ecdsa_Sign sample_crypto"
  "ecdsa_SigToPub sample_block_crypto = ecdsa_SigToPub sample_crypto"
  "rlp_blockHeader sample_block_crypto = (\<lambda>h. Some (ucast (bh_Number h) # bh_Signature h))"
  "rlp_eventIDs sample_block_crypto = (\<lambda>is. Some (map ucast is))"
  by (simp_all add: sample_block_crypto_def crypto.defs sample_crypto_def)

section \<open>Properties\<close>

text \<open>
  What a block signature covers. A block signed with a key verifies under that key's public half
  as long as its cached hash is kept (and is not the zero hash); a copy of the block that
  arrives without the cache hashes its header with the signature in it, and is verified against that
  other digest.
\<close>

theorem block_sign_verifies:
  assumes "\<forall>d sig. ecdsa_Sign x d priv = Some sig \<longrightarrow> ecdsa_SigToPub x d sig = Some (sk_Public priv)"
    and "Block_Sign x priv b = (True, b')" and "fst (Block_Hash x b) \<noteq> 0"
  shows "Block_VerifySignature x (sk_Public priv) b' = (True, b') \<and>
    fst (Block_Hash x (b'\<lparr>bk_hash := 0\<rparr>)) =
      Block_digest x (b\<lparr>bk_Header := (bk_Header b)\<lparr>bh_Signature := bh_Signature (bk_Header b')\<rparr>\<rparr>)"
proof -
  obtain h b1 where h: "Block_Hash x b = (h, b1)" by fastforce
  then have hn: "h \<noteq> 0" and b1: "bk_hash b1 = h" "bk_Header b1 = bk_Header b"
      "bk_Transactions b1 = bk_Transactions b" "bk_Events b1 = bk_Events b"
    using assms(3) by (auto simp: Block_Hash_def Let_def split: if_splits)
  obtain sig where sig: "ecdsa_Sign x (keccak x (hash_bytes h)) priv = Some sig"
    and b': "b' = b1\<lparr>bk_Header := (bk_Header b1)\<lparr>bh_Signature := sig\<rparr>\<rparr>"
    using assms(2) h by (auto simp: Block_Sign_def split: option.splits)
  have "Block_Hash x b' = (h, b')" using hn b1(1) by (simp add: Block_Hash_def b')
  then show ?thesis using assms(1) sig b1
    by (simp add: Block_VerifySignature_def b') (simp add: Block_Hash_def Block_digest_def Let_def)
qed

theorem block_sign_verifies_witness:
  "fst (Block_VerifySignature sample_block_crypto (sk_Public sample_key)
     (snd (Block_Sign sample_block_crypto sample_key zero_block)))"
proof -
  have s: "\<forall>d sig. ecdsa_Sign sample_block_crypto d sample_key = Some sig \<longrightarrow>
      ecdsa_SigToPub sample_block_crypto d sig = Some (sk_Public sample_key)"
    using sample_crypto_ecdsa by (simp add: ecdsa_correct_def)
  have n: "fst (Block_Hash sample_block_crypto zero_block) \<noteq> 0"
    by (simp add: Block_Hash_def Block_digest_def zero_block_def zero_header_def Let_def) (simp add: sample_crypto_def)
  have "Block_Sign sample_block_crypto sample_key zero_block =
      (True, snd (Block_Sign sample_block_crypto sample_key zero_block))"
    by (simp add: Block_Sign_def split: prod.split) (simp add: sample_crypto_def)
  from block_sign_verifies [OF s this n] show ?thesis by simp
qed

text \<open>
  A recycled block starts afresh: \<open>Reset\<close> zeroes every field and empties the hash cache, so the hash
  of what is written to the block next is the digest of those contents (events, by contrast, keep
  a pinned hash).
\<close>

theorem block_reset_fresh:
  "Block_Reset b = zero_block \<and>
   fst (Block_Hash x ((Block_Reset b)\<lparr>bk_Header := h, bk_Transactions := txs, bk_Events := is\<rparr>)) =
     keccak x (case_option [] id (rlp_blockHeader x h) @ case_option [] id (rlp_txs x txs) @
       case_option [] id (rlp_eventIDs x is))"
  by (simp add: Block_Reset_zero Block_Hash_def Block_digest_def zero_block_def Let_def)

end
