(* ===== verification/Poset_Model.thy ===== *)
theory Poset_Model
  imports Dag Blocks Go_Format "HOL-Library.Signed_Division"
begin

text \<open>
  \<open>poset.go\<close>: the event store the engine feeds, its own notion of rounds and roots, and its getters.

  The engine builds its \<open>DAG\<close> over the very maps \<open>Events\<close> and \<open>Rounds\<close> of its poset, so the
  poset record extends the DAG record: \<open>d_Events\<close>, \<open>d_Rounds\<close> and the heap are shared,
  \<open>d_mu\<close> is the DAG's mutex, \<open>p_mu\<close> the poset's. The two components use the shared round
  table for two different numberings: here the round is the Lamport time divided by the block time.
  The remaining fields of \<open>Poset\<close> (frames, validators, state, network) are never read by it; its
  four \<open>...IfNeeded\<close> steps loop over the tables and end in functions that are empty in the code.
\<close>

section \<open>State\<close>

record poset = dag +
  p_mu :: rwmutex
  p_Heads :: "(string, event_id) gomap"
  p_LastRound :: u64
  p_Blocks :: "(hash32, block) gomap"
  p_LastBlock :: hash32
  p_BlockTime :: int \<comment> \<open>\<open>Config.BlockTime\<close> in nanoseconds\<close>

definition NewPoset :: "(eref \<Rightarrow> event) \<Rightarrow> int \<Rightarrow> poset" where
  "NewPoset heap blockTime = dag.extend (NewDAG heap)
     \<lparr>p_mu = unlocked, p_Heads = [], p_LastRound = 0, p_Blocks = [], p_LastBlock = 0, p_BlockTime = blockTime\<rparr>"

definition set_p_mu :: "rwmutex \<Rightarrow> poset \<Rightarrow> poset" where
  "set_p_mu m P = P\<lparr>p_mu := m\<rparr>"

interpretation poset_mu: mutex_field p_mu set_p_mu
  by unfold_locales (simp_all add: set_p_mu_def)

section \<open>Rounds, witnesses and roots\<close>

text \<open>\<open>uint64(p.Config.BlockTime.Milliseconds())\<close>\<close>

definition block_millis :: "'a poset_scheme \<Rightarrow> u64" where
  "block_millis P = word_of_int (p_BlockTime P sdiv 1000000)"

definition P_isWitness :: "event \<Rightarrow> u64 \<Rightarrow> poset \<Rightarrow> bool" where
  "P_isWitness event r P \<longleftrightarrow>
     \<not> list_ex (\<lambda>e. ev_CreatorID e = ev_CreatorID event \<and> ev_Lamport e div block_millis P = r \<and>
                 ev_Lamport e < ev_Lamport event) (events_seq P)"

definition P_isAncestor :: "event_id \<Rightarrow> event_id \<Rightarrow> poset \<Rightarrow> bool" where
  "P_isAncestor ancestor descendant P = bfs_ancestor (parent_graph_of P) ancestor descendant"

definition P_isRoot :: "crypto \<Rightarrow> event \<Rightarrow> u64 \<Rightarrow> poset \<Rightarrow> bool" where
  "P_isRoot x event r P =
     (let witnesses = (case go_get (d_Rounds P) r of None \<Rightarrow> [] | Some ri \<Rightarrow> map snd (ri_Witnesses ri));
          totalWitnesses = length witnesses;
          witnessCount = count_if (\<lambda>w. P_isAncestor (hash_of x (d_heap P w)) (hash_of x event) P) witnesses
      in witnessCount > totalWitnesses div 2)"

definition upd_round :: "u64 \<Rightarrow> (round_info \<Rightarrow> round_info) \<Rightarrow> poset \<Rightarrow> poset" where
  "upd_round r f P = (case go_get (d_Rounds P) r of
     None \<Rightarrow> P | Some ri \<Rightarrow> P\<lparr>d_Rounds := go_put r (f ri) (d_Rounds P)\<rparr>)"

definition P_updateRoundAssignment :: "crypto \<Rightarrow> eref \<Rightarrow> poset \<Rightarrow> poset outcome" where
  "P_updateRoundAssignment x p P =
     (let event = d_heap P p; i = hash_of x event in
      if block_millis P = 0 then Panics
      else
        let r = ev_Lamport event div block_millis P;
            P1 = (if go_has (d_Rounds P) r then P
                  else P\<lparr>d_Rounds := go_put r (new_round_info r) (d_Rounds P)\<rparr>);
            P2 = (if P_isWitness event r P1
                  then upd_round r (\<lambda>ri. ri\<lparr>ri_Witnesses := go_put i p (ri_Witnesses ri)\<rparr>) P1 else P1);
            P3 = (if P_isRoot x event r P2
                  then upd_round r (\<lambda>ri. ri\<lparr>ri_Roots := go_put i p (ri_Roots ri)\<rparr>) P2 else P2)
        in Returns (if r > p_LastRound P3 then P3\<lparr>p_LastRound := r\<rparr> else P3))"

section \<open>The later stages\<close>

text \<open>
  What \<open>AddEvent\<close> starts after the round assignment: the loops over the undecided rounds and their witnesses are
  there, the computations inside are empty in the code.
\<close>

definition P_calculateFameVoting :: "event_id \<Rightarrow> u64 \<Rightarrow> poset \<Rightarrow> poset" where
  "P_calculateFameVoting witnessID r P = P"

definition P_startFameVoting :: "u64 \<Rightarrow> poset \<Rightarrow> poset" where
  "P_startFameVoting r P =
     fold (\<lambda>(witnessID, w) Q. if ev_IsFamous (d_heap Q w) \<noteq> None then Q else P_calculateFameVoting witnessID r Q)
       (case go_get (d_Rounds P) r of None \<Rightarrow> [] | Some ri \<Rightarrow> ri_Witnesses ri) P"

definition P_startFameVotingIfNeeded :: "poset \<Rightarrow> poset" where
  "P_startFameVotingIfNeeded P =
     fold (\<lambda>(r, ri) Q. if ri_Decided ri then Q else P_startFameVoting r Q) (d_Rounds P) P"

definition P_selectClothosIfNeeded :: "poset \<Rightarrow> poset" where
  "P_selectClothosIfNeeded P = P"

definition P_finalizeEventsIfNeeded :: "poset \<Rightarrow> poset" where
  "P_finalizeEventsIfNeeded P = P"

definition P_createBlockIfNeeded :: "poset \<Rightarrow> poset" where
  "P_createBlockIfNeeded P = P"

lemma fold_id: "(\<And>a s. f a s = s) \<Longrightarrow> fold f xs s = s"
  by (induction xs) simp_all

lemma later_stages_idle [simp]:
  "P_startFameVoting r P = P" "P_startFameVotingIfNeeded P = P" "P_selectClothosIfNeeded P = P"
  "P_finalizeEventsIfNeeded P = P" "P_createBlockIfNeeded P = P"
proof -
  show sv: "P_startFameVoting r P = P" for r P
    unfolding P_startFameVoting_def by (rule fold_id) (simp add: P_calculateFameVoting_def split: prod.split)
  show "P_startFameVotingIfNeeded P = P"
    unfolding P_startFameVotingIfNeeded_def by (rule fold_id) (simp add: sv split: prod.split)
qed (simp_all add: P_selectClothosIfNeeded_def P_finalizeEventsIfNeeded_def P_createBlockIfNeeded_def)

section \<open>Adding and reading events\<close>

definition P_AddEvent :: "crypto \<Rightarrow> eref \<Rightarrow> poset \<Rightarrow> (string option \<times> poset) outcome" where
  "P_AddEvent x p = with_Lock p_mu set_p_mu (\<lambda>P.
     let (i, P1) = hash_ref x p P in
     if go_has (d_Events P1) i then Returns (Some ''event already exists'', P1)
     else
       let P2 = P1\<lparr>d_Events := go_put i p (d_Events P1),
                   p_Heads := go_put (ev_CreatorID (d_heap P1 p)) i (p_Heads P1)\<rparr>
       in and_then (P_updateRoundAssignment x p P2) (\<lambda>P3.
          Returns (None, P_createBlockIfNeeded (P_finalizeEventsIfNeeded (P_selectClothosIfNeeded
            (P_startFameVotingIfNeeded P3))))))"

definition P_GetEvent :: "event_id \<Rightarrow> poset \<Rightarrow> (eref option \<times> poset) outcome" where
  "P_GetEvent i = with_RLock p_mu set_p_mu (\<lambda>P. Returns (go_get (d_Events P) i, P))"

fun latest_events :: "(event_id, eref) gomap \<Rightarrow> (string, event_id) gomap \<Rightarrow> (string, eref) gomap \<Rightarrow> (string, eref) gomap" where
  "latest_events evs [] latest = latest"
| "latest_events evs ((creatorID, eventID) # hs) latest =
     latest_events evs hs (case go_get evs eventID of Some p \<Rightarrow> go_put creatorID p latest | None \<Rightarrow> latest)"

definition P_GetLatestEvents :: "poset \<Rightarrow> ((string, eref) gomap \<times> poset) outcome" where
  "P_GetLatestEvents = with_RLock p_mu set_p_mu (\<lambda>P. Returns (latest_events (d_Events P) (p_Heads P) [], P))"

definition P_GetRoundInfo :: "u64 \<Rightarrow> poset \<Rightarrow> (round_info option \<times> poset) outcome" where
  "P_GetRoundInfo r = with_RLock p_mu set_p_mu (\<lambda>P. Returns (go_get (d_Rounds P) r, P))"

definition P_GetBlock :: "hash32 \<Rightarrow> poset \<Rightarrow> (block option \<times> poset) outcome" where
  "P_GetBlock h = with_RLock p_mu set_p_mu (\<lambda>P. Returns (go_get (p_Blocks P) h, P))"

definition P_GetLatestBlock :: "poset \<Rightarrow> (block option \<times> poset) outcome" where
  "P_GetLatestBlock = with_RLock p_mu set_p_mu (\<lambda>P.
     Returns (if p_LastBlock P = 0 then None else go_get (p_Blocks P) (p_LastBlock P), P))"

section \<open>Lemmas\<close>

lemma block_millis_writes [simp]:
  fixes P :: poset
  shows "block_millis (P\<lparr>d_Events := a\<rparr>) = block_millis P" "block_millis (P\<lparr>p_Heads := h\<rparr>) = block_millis P"
  by (simp_all add: block_millis_def)

lemma set_p_mu_fields [simp]:
  "d_heap (set_p_mu m P) = d_heap P" "d_Events (set_p_mu m P) = d_Events P" "d_Rounds (set_p_mu m P) = d_Rounds P"
  "d_mu (set_p_mu m P) = d_mu P" "p_Heads (set_p_mu m P) = p_Heads P" "p_LastRound (set_p_mu m P) = p_LastRound P"
  "p_BlockTime (set_p_mu m P) = p_BlockTime P" "block_millis (set_p_mu m P) = block_millis P"
  by (simp_all add: set_p_mu_def block_millis_def)

lemma upd_round_fields [simp]:
  "d_heap (upd_round r f P) = d_heap P" "d_Events (upd_round r f P) = d_Events P" "p_mu (upd_round r f P) = p_mu P"
  "p_LastRound (upd_round r f P) = p_LastRound P" "p_Heads (upd_round r f P) = p_Heads P"
  "block_millis (upd_round r f P) = block_millis P"
  "go_get (d_Rounds (upd_round r f P)) r = map_option f (go_get (d_Rounds P) r)"
  "r' \<noteq> r \<Longrightarrow> go_get (d_Rounds (upd_round r f P)) r' = go_get (d_Rounds P) r'"
  by (simp_all add: upd_round_def block_millis_def split: option.split)

lemma upd_event_poset [simp]:
  fixes P :: poset
  shows "p_mu (upd_event p f P) = p_mu P" "p_Heads (upd_event p f P) = p_Heads P"
    "p_LastRound (upd_event p f P) = p_LastRound P" "block_millis (upd_event p f P) = block_millis P"
  by (simp_all add: upd_event_def block_millis_def)

lemma P_isWitness_cong:
  "d_heap P' = d_heap P \<Longrightarrow> d_Events P' = d_Events P \<Longrightarrow> block_millis P' = block_millis P \<Longrightarrow>
   P_isWitness e r P' = P_isWitness e r P"
  by (simp add: P_isWitness_def events_seq_def)

lemma P_isAncestor_iff: "P_isAncestor a b P \<longleftrightarrow> reaches_up (parent_graph_of P) b a"
  by (simp add: P_isAncestor_def poset_anc.is_ancestor_iff)

lemma update_fields:
  assumes "P_updateRoundAssignment x p P = Returns P'"
  shows "d_heap P' = d_heap P" "d_Events P' = d_Events P" "p_mu P' = p_mu P" "p_Heads P' = p_Heads P"
    "block_millis P' = block_millis P"
  using assms
  by (auto simp: P_updateRoundAssignment_def Let_def block_millis_def split: if_splits)
     (auto simp: upd_round_def split: option.splits)

text \<open>The witness table a round has when the roots are computed, and the final round record.\<close>

definition lamport_round :: "eref \<Rightarrow> poset \<Rightarrow> u64" where
  "lamport_round p P = ev_Lamport (d_heap P p) div block_millis P"

definition round_before :: "u64 \<Rightarrow> poset \<Rightarrow> round_info" where
  "round_before r P = (case go_get (d_Rounds P) r of None \<Rightarrow> new_round_info r | Some ri \<Rightarrow> ri)"

text \<open>The specification of \<open>isWitness\<close>: the creator has no stored event in the same time slot with a smaller Lamport time.\<close>

definition first_in_slot :: "eref \<Rightarrow> poset \<Rightarrow> bool" where
  "first_in_slot p P \<longleftrightarrow>
     (\<forall>(i, q) \<in> set (d_Events P). ev_CreatorID (d_heap P q) = ev_CreatorID (d_heap P p) \<and>
        ev_Lamport (d_heap P q) div block_millis P = ev_Lamport (d_heap P p) div block_millis P \<longrightarrow>
        ev_Lamport (d_heap P p) \<le> ev_Lamport (d_heap P q))"

lemma P_isWitness_iff: "P_isWitness (d_heap P p) (lamport_round p P) P \<longleftrightarrow> first_in_slot p P"
  by (fastforce simp: P_isWitness_def list_ex_events_seq first_in_slot_def lamport_round_def)

definition witnesses_after :: "crypto \<Rightarrow> eref \<Rightarrow> poset \<Rightarrow> (event_id, eref) gomap" where
  "witnesses_after x p P =
     (let ws = ri_Witnesses (round_before (lamport_round p P) P) in
      if first_in_slot p P then go_put (hash_of x (d_heap P p)) p ws else ws)"

definition root_after :: "crypto \<Rightarrow> eref \<Rightarrow> poset \<Rightarrow> bool" where
  "root_after x p P \<longleftrightarrow>
     length (witnesses_after x p P) div 2 <
       count_if (\<lambda>w. reaches_up (parent_graph_of P) (hash_of x (d_heap P p)) (hash_of x (d_heap P w)))
         (map snd (witnesses_after x p P))"

lemma witnesses_after_cong:
  assumes "d_heap P' = d_heap P" "d_Events P' = d_Events P" "d_Rounds P' = d_Rounds P" "block_millis P' = block_millis P"
  shows "witnesses_after x p P' = witnesses_after x p P" "root_after x p P' = root_after x p P"
proof -
  show ws: "witnesses_after x p P' = witnesses_after x p P"
    unfolding witnesses_after_def lamport_round_def round_before_def first_in_slot_def assms by (rule refl)
  show "root_after x p P' = root_after x p P"
    unfolding root_after_def ws parent_graph_of_def assms by (rule refl)
qed

text \<open>Storing the event itself, and caching its hash, does not change whether it is the first of its slot.\<close>

lemma first_in_slot_stored:
  "first_in_slot p ((snd (hash_ref x p P))\<lparr>d_Events := d_Events P @ [(i, p)]\<rparr>) \<longleftrightarrow> first_in_slot p P"
  by (auto simp: first_in_slot_def hash_ref_eq upd_event_def block_millis_def)

lemma upd_round_get:
  "go_get (d_Rounds (upd_round r f P)) = (go_get (d_Rounds P))(r := map_option f (go_get (d_Rounds P) r))"
  by (auto simp: upd_round_def split: option.split)

lemma update_spec:
  assumes "block_millis P \<noteq> 0"
  shows "\<exists>P'. P_updateRoundAssignment x p P = Returns P' \<and>
    (let r = lamport_round p P; i = hash_of x (d_heap P p); ri = round_before r P in
     go_get (d_Rounds P') = (go_get (d_Rounds P))(r \<mapsto> ri\<lparr>ri_Witnesses := witnesses_after x p P,
       ri_Roots := (if root_after x p P then go_put i p (ri_Roots ri) else ri_Roots ri)\<rparr>) \<and>
     p_LastRound P' = max (p_LastRound P) r)"
proof -
  let ?r = "lamport_round p P" and ?i = "hash_of x (d_heap P p)" and ?e = "d_heap P p"
  define P1 where "P1 = (if go_has (d_Rounds P) ?r then P else P\<lparr>d_Rounds := go_put ?r (new_round_info ?r) (d_Rounds P)\<rparr>)"
  define P2 where "P2 = (if P_isWitness ?e ?r P1 then upd_round ?r (\<lambda>ri. ri\<lparr>ri_Witnesses := go_put ?i p (ri_Witnesses ri)\<rparr>) P1 else P1)"
  define P3 where "P3 = (if P_isRoot x ?e ?r P2 then upd_round ?r (\<lambda>ri. ri\<lparr>ri_Roots := go_put ?i p (ri_Roots ri)\<rparr>) P2 else P2)"
  have run: "P_updateRoundAssignment x p P = Returns (if ?r > p_LastRound P3 then P3\<lparr>p_LastRound := ?r\<rparr> else P3)"
    using assms by (simp add: P_updateRoundAssignment_def Let_def lamport_round_def P1_def P2_def P3_def)
  have same1: "d_heap P1 = d_heap P" "d_Events P1 = d_Events P" "p_LastRound P1 = p_LastRound P" "block_millis P1 = block_millis P"
    by (simp_all add: P1_def block_millis_def)
  have "P_isWitness ?e ?r P1 = P_isWitness ?e ?r P" using same1 by (intro P_isWitness_cong)
  then have w: "P_isWitness ?e ?r P1 = first_in_slot p P" by (simp add: P_isWitness_iff)
  have g1: "go_get (d_Rounds P1) = (go_get (d_Rounds P))(?r \<mapsto> round_before ?r P)"
    by (auto simp: round_before_def P1_def)
  have g2: "go_get (d_Rounds P2) = (go_get (d_Rounds P))(?r \<mapsto> (round_before ?r P)\<lparr>ri_Witnesses := witnesses_after x p P\<rparr>)"
    by (simp add: P2_def w upd_round_get g1 witnesses_after_def Let_def)
  have same2: "d_heap P2 = d_heap P" "d_Events P2 = d_Events P" "p_LastRound P2 = p_LastRound P"
    by (simp_all add: P2_def same1)
  have root: "P_isRoot x ?e ?r P2 \<longleftrightarrow> root_after x p P"
    unfolding P_isRoot_def Let_def g2 root_after_def P_isAncestor_iff parent_graph_of_def same2 by simp
  have g3: "go_get (d_Rounds P3) = (go_get (d_Rounds P))(?r \<mapsto> (round_before ?r P)\<lparr>ri_Witnesses := witnesses_after x p P,
      ri_Roots := (if root_after x p P then go_put ?i p (ri_Roots (round_before ?r P)) else ri_Roots (round_before ?r P))\<rparr>)"
    by (simp add: P3_def root upd_round_get g2)
  have "p_LastRound P3 = p_LastRound P" by (simp add: P3_def same2)
  then show ?thesis unfolding run Let_def using g3 by (auto simp: max_def)
qed

section \<open>The store invariant\<close>

text \<open>Keys are the hashes of the events under them, and each head is a stored event of its creator.\<close>

definition poset_ok :: "crypto \<Rightarrow> poset \<Rightarrow> bool" where
  "poset_ok x P \<longleftrightarrow> wf_gomap (d_Events P) \<and> wf_gomap (p_Heads P) \<and>
     (\<forall>(i, p) \<in> set (d_Events P). hash_of x (d_heap P p) = i) \<and>
     (\<forall>(c, i) \<in> set (p_Heads P). \<exists>p. (i, p) \<in> set (d_Events P) \<and> ev_CreatorID (d_heap P p) = c)"

lemma poset_ok_cong:
  "d_heap P' = d_heap P \<Longrightarrow> d_Events P' = d_Events P \<Longrightarrow> p_Heads P' = p_Heads P \<Longrightarrow> poset_ok x P' = poset_ok x P"
  by (simp add: poset_ok_def)

lemma poset_ok_same_ids:
  assumes "d_Events P' = d_Events P" "p_Heads P' = p_Heads P"
    and "\<And>q. hash_of x (d_heap P' q) = hash_of x (d_heap P q)"
    and "\<And>q. ev_CreatorID (d_heap P' q) = ev_CreatorID (d_heap P q)"
  shows "poset_ok x P' = poset_ok x P"
  unfolding poset_ok_def assms by (rule refl)

lemma hash_ref_poset:
  fixes P :: poset
  shows "hash_of x (d_heap (snd (hash_ref x p P)) q) = hash_of x (d_heap P q)"
    "ev_CreatorID (d_heap (snd (hash_ref x p P)) q) = ev_CreatorID (d_heap P q)"
    "p_Heads (snd (hash_ref x p P)) = p_Heads P" "d_Events (snd (hash_ref x p P)) = d_Events P"
  by (simp_all add: hash_ref_eq)

lemma poset_ok_insert:
  assumes "poset_ok x P" and "go_get (d_Events P) (hash_of x (d_heap P p)) = None"
    and "d_Events P' = go_put (hash_of x (d_heap P p)) p (d_Events P)"
    and "p_Heads P' = go_put (ev_CreatorID (d_heap P p)) (hash_of x (d_heap P p)) (p_Heads P)"
    and "\<And>q. hash_of x (d_heap P' q) = hash_of x (d_heap P q)"
    and "\<And>q. ev_CreatorID (d_heap P' q) = ev_CreatorID (d_heap P q)"
  shows "poset_ok x P'"
proof -
  let ?i = "hash_of x (d_heap P p)" and ?c = "ev_CreatorID (d_heap P p)"
  have ev: "d_Events P' = d_Events P @ [(?i, p)]" by (simp add: assms(2,3) go_put_fresh)
  have "wf_gomap (d_Events P')" "wf_gomap (p_Heads P')" using assms(1,3,4) by (simp_all add: poset_ok_def)
  moreover have "\<forall>(i, q) \<in> set (d_Events P'). hash_of x (d_heap P' q) = i"
    using assms(1,5) by (auto simp: ev poset_ok_def)
  moreover have "\<forall>(c, i) \<in> set (p_Heads P'). \<exists>q. (i, q) \<in> set (d_Events P') \<and> ev_CreatorID (d_heap P' q) = c"
    using assms(1,6) set_go_put_subset [of ?c ?i "p_Heads P"] by (fastforce simp: ev assms(4) poset_ok_def)
  ultimately show ?thesis by (simp add: poset_ok_def)
qed

lemma AddEvent_run:
  assumes "p_mu P = unlocked"
  shows "P_AddEvent x p P =
    (let i = hash_of x (d_heap P p); P1 = snd (hash_ref x p P);
         P2 = P1\<lparr>d_Events := go_put i p (d_Events P), p_Heads := go_put (ev_CreatorID (d_heap P p)) i (p_Heads P)\<rparr> in
     if go_has (d_Events P) i then Returns (Some ''event already exists'', P1)
     else and_then (P_updateRoundAssignment x p (set_p_mu (unlocked\<lparr>rw_writer := True\<rparr>) P2))
            (\<lambda>P3. Returns (None, set_p_mu unlocked P3)))"
proof -
  let ?m = "unlocked\<lparr>rw_writer := True\<rparr>" and ?i = "hash_of x (d_heap P p)"
  let ?P2 = "(snd (hash_ref x p P))\<lparr>d_Events := go_put ?i p (d_Events P),
    p_Heads := go_put (ev_CreatorID (d_heap P p)) ?i (p_Heads P)\<rparr>"
  have lock: "with_Lock p_mu set_p_mu body P = and_then (body (set_p_mu ?m P))
      (\<lambda>(r, s'). and_then (rw_Unlock (p_mu s')) (\<lambda>m'. Returns (r, set_p_mu m' s')))" for body :: "poset \<Rightarrow> ('r \<times> poset) outcome"
    using assms by (simp add: with_Lock_def rw_Lock_def unlocked_def)
  have un: "rw_Unlock ?m = Returns unlocked" by (simp add: rw_Unlock_def unlocked_def)
  show ?thesis
  proof (cases "go_has (d_Events P) ?i")
    case True
    have "set_p_mu unlocked (upd_event p f (set_p_mu ?m P)) = upd_event p f P" for f
      using assms by (cases P) (simp add: set_p_mu_def upd_event_def)
    then show ?thesis using True un
      by (simp add: P_AddEvent_def lock hash_ref_eq Let_def)
  next
    case False
    have P2: "(upd_event p f (set_p_mu ?m P))\<lparr>d_Events := a, p_Heads := b\<rparr> =
        set_p_mu ?m ((upd_event p f P)\<lparr>d_Events := a, p_Heads := b\<rparr>)" for f a b
      by (simp add: set_p_mu_def upd_event_def)
    show ?thesis
    proof (cases "P_updateRoundAssignment x p (set_p_mu ?m ?P2)")
      case (Returns P3)
      then have "p_mu P3 = ?m" using update_fields(3) by fastforce
      then show ?thesis using False un Returns
        by (simp add: P_AddEvent_def lock hash_ref_eq Let_def P2)
    qed (use False in \<open>simp_all add: P_AddEvent_def lock hash_ref_eq Let_def P2\<close>)
  qed
qed

section \<open>Properties\<close>

text \<open>
  C11. What \<open>Poset.AddEvent\<close> does to a new event. With a free mutex and a block time of at least a
  millisecond it returns without error and leaves the mutex free; the event is stored under its
  hash and becomes its creator's head; in the round \<open>Lamport / block time\<close> it is entered as a witness
  exactly when it is \<open>first_in_slot\<close>: no event stored before by its creator in that time slot has a smaller
  Lamport time. It is entered as a root exactly when more than half of the round's witnesses (itself
  included, if it is one) are reached from it along the parents. No other round changes, and
  \<open>LastRound\<close> is the maximum so far.
\<close>

theorem poset_add_event_spec:
  assumes "p_mu P = unlocked" and "block_millis P \<noteq> 0"
    and "go_get (d_Events P) (hash_of x (d_heap P p)) = None"
  defines "i \<equiv> hash_of x (d_heap P p)" and "r \<equiv> ev_Lamport (d_heap P p) div block_millis P"
    and "ws \<equiv> (let old = ri_Witnesses (round_before (ev_Lamport (d_heap P p) div block_millis P) P) in
      if first_in_slot p P then go_put (hash_of x (d_heap P p)) p old else old)"
    and "descends \<equiv> reaches_up (parent_graph_of ((snd (hash_ref x p P))
      \<lparr>d_Events := go_put (hash_of x (d_heap P p)) p (d_Events P)\<rparr>)) (hash_of x (d_heap P p))"
  shows "\<exists>P'. P_AddEvent x p P = Returns (None, P') \<and> p_mu P' = unlocked \<and>
    go_get (d_Events P') = (go_get (d_Events P))(i \<mapsto> p) \<and>
    go_get (p_Heads P') = (go_get (p_Heads P))(ev_CreatorID (d_heap P p) \<mapsto> i) \<and>
    p_LastRound P' = max (p_LastRound P) r \<and>
    (\<forall>r'. r' \<noteq> r \<longrightarrow> go_get (d_Rounds P') r' = go_get (d_Rounds P) r') \<and>
    go_get (d_Rounds P') r = Some ((round_before r P)\<lparr>ri_Witnesses := ws,
      ri_Roots := (if length ws div 2 < length (filter (\<lambda>w. descends (hash_of x (d_heap P w))) (map snd ws))
        then go_put i p (ri_Roots (round_before r P)) else ri_Roots (round_before r P))\<rparr>)"
proof -
  define Q where "Q = (snd (hash_ref x p P))\<lparr>d_Events := go_put i p (d_Events P)\<rparr>"
  have Q: "lamport_round p Q = r" "round_before r' Q = round_before r' P" "hash_of x (d_heap Q w) = hash_of x (d_heap P w)"
    "first_in_slot p Q = first_in_slot p P" for w r'
    using first_in_slot_stored [of p P i x] assms(3)
    by (simp_all add: Q_def lamport_round_def round_before_def r_def i_def hash_ref_eq block_millis_def upd_event_def go_put_fresh)
  have wsQ: "witnesses_after x p Q = ws"
    unfolding witnesses_after_def Let_def Q ws_def r_def by (rule refl)
  have rootQ: "root_after x p Q \<longleftrightarrow>
      length ws div 2 < length (filter (\<lambda>w. descends (hash_of x (d_heap P w))) (map snd ws))"
    unfolding root_after_def wsQ Q count_if_filter descends_def by (simp add: Q_def i_def)
  let ?P2 = "(snd (hash_ref x p P))\<lparr>d_Events := go_put i p (d_Events P),
    p_Heads := go_put (ev_CreatorID (d_heap P p)) i (p_Heads P)\<rparr>"
  let ?S = "set_p_mu (unlocked\<lparr>rw_writer := True\<rparr>) ?P2"
  have bm: "block_millis ?S = block_millis P" by (simp add: block_millis_def hash_ref_eq upd_event_def)
  have ws: "witnesses_after x p ?S = witnesses_after x p Q" "root_after x p ?S = root_after x p Q"
    by (rule witnesses_after_cong; simp add: Q_def i_def block_millis_def)+
  have here: "lamport_round p ?S = r" "hash_of x (d_heap ?S p) = i" "round_before r ?S = round_before r P"
    by (simp_all add: lamport_round_def bm r_def i_def round_before_def hash_ref_eq)
  obtain P3 where P3: "P_updateRoundAssignment x p ?S = Returns P3"
    and rounds: "go_get (d_Rounds P3) = (go_get (d_Rounds P))(r \<mapsto> (round_before r P)\<lparr>ri_Witnesses := witnesses_after x p Q,
      ri_Roots := (if root_after x p Q then go_put i p (ri_Roots (round_before r P)) else ri_Roots (round_before r P))\<rparr>)"
    and last: "p_LastRound P3 = max (p_LastRound P) r"
    using update_spec [of ?S x p] assms(2) unfolding bm here Let_def ws by (auto simp: hash_ref_eq)
  have "P_AddEvent x p P = Returns (None, set_p_mu unlocked P3)"
    using assms(3) P3 by (simp add: AddEvent_run [OF assms(1)] Let_def i_def)
  then show ?thesis using rounds last update_fields [OF P3] unfolding wsQ rootQ
    by (intro exI [of _ "set_p_mu unlocked P3"]) simp
qed

text \<open>A poset over a heap of empty events, with two-second blocks.\<close>

definition empty_poset :: poset where
  "empty_poset = NewPoset (\<lambda>_. zero_event) 2000000000"

lemma empty_poset_fields [simp]:
  "p_mu empty_poset = unlocked" "d_Events empty_poset = []" "d_heap empty_poset = (\<lambda>_. zero_event)"
  "p_Heads empty_poset = []" "block_millis empty_poset = 2000"
  by (simp_all add: empty_poset_def NewPoset_def NewDAG_def block_millis_def dag.defs signed_divide_int_def)

theorem poset_add_event_spec_witness:
  "\<exists>P'. P_AddEvent sample_crypto 3 empty_poset = Returns (None, P') \<and> go_has (d_Events P') (hash_of sample_crypto zero_event)"
  using poset_add_event_spec [of empty_poset sample_crypto 3] by auto

text \<open>
  When \<open>Poset.AddEvent\<close> fails. An event whose hash is already a key is refused and nothing but the
  hash cache changes. With a block time below one millisecond every new event panics: the round is a
  division by zero.
\<close>

theorem poset_add_event_errors:
  assumes "p_mu P = unlocked"
  shows "(go_has (d_Events P) (hash_of x (d_heap P p)) \<longrightarrow>
      P_AddEvent x p P = Returns (Some ''event already exists'', snd (hash_ref x p P))) \<and>
    (\<not> go_has (d_Events P) (hash_of x (d_heap P p)) \<and> block_millis P = 0 \<longrightarrow> P_AddEvent x p P = Panics)"
proof -
  have "block_millis P = 0 \<Longrightarrow> P_updateRoundAssignment x p (set_p_mu m ((snd (hash_ref x p P))\<lparr>d_Events := a, p_Heads := b\<rparr>)) = Panics"
    for m a b by (simp add: P_updateRoundAssignment_def Let_def) (simp add: block_millis_def hash_ref_eq upd_event_def)
  then show ?thesis by (simp add: AddEvent_run [OF assms] Let_def)
qed

theorem poset_add_event_errors_witness:
  "P_AddEvent sample_crypto 3 (empty_poset\<lparr>p_BlockTime := 999999\<rparr>) = Panics"
  using poset_add_event_errors [of "empty_poset\<lparr>p_BlockTime := 999999\<rparr>" sample_crypto 3]
  by (simp add: block_millis_def signed_divide_int_def)

text \<open>
  The store stays consistent: after every call of \<open>AddEvent\<close> that returns, keys are distinct and are the
  hashes of the events stored under them, and each head names a stored event of its creator.
\<close>

theorem poset_invariant:
  assumes "poset_ok x P" and "p_mu P = unlocked" and "P_AddEvent x p P = Returns (res, P')"
  shows "poset_ok x P' \<and> p_mu P' = unlocked"
proof (cases "go_has (d_Events P) (hash_of x (d_heap P p))")
  case True
  then have "P' = snd (hash_ref x p P)" using assms(3) by (simp add: AddEvent_run [OF assms(2)] Let_def)
  moreover have "poset_ok x (snd (hash_ref x p P)) = poset_ok x P"
    by (rule poset_ok_same_ids) (simp_all add: hash_ref_poset)
  moreover have "p_mu (snd (hash_ref x p P)) = p_mu P" by (simp add: hash_ref_eq)
  ultimately show ?thesis using assms(1,2) by simp
next
  case False
  then obtain P3 where P3: "P_updateRoundAssignment x p (set_p_mu (unlocked\<lparr>rw_writer := True\<rparr>)
      ((snd (hash_ref x p P))\<lparr>d_Events := go_put (hash_of x (d_heap P p)) p (d_Events P),
        p_Heads := go_put (ev_CreatorID (d_heap P p)) (hash_of x (d_heap P p)) (p_Heads P)\<rparr>)) = Returns P3"
    and P': "P' = set_p_mu unlocked P3"
    using assms(3) by (auto simp: AddEvent_run [OF assms(2)] Let_def and_then_Returns_iff)
  have "poset_ok x P'"
    by (rule poset_ok_insert [OF assms(1), of p])
       (use False update_fields [OF P3] in \<open>simp_all add: P' hash_ref_poset\<close>)
  then show ?thesis by (simp add: P')
qed

theorem poset_invariant_witness:
  "\<exists>P'. P_AddEvent sample_crypto 3 empty_poset = Returns (None, P') \<and> poset_ok sample_crypto P'"
proof -
  let ?S = "set_p_mu (unlocked\<lparr>rw_writer := True\<rparr>) ((snd (hash_ref sample_crypto 3 empty_poset))
    \<lparr>d_Events := go_put (hash_of sample_crypto zero_event) 3 [], p_Heads := go_put [] (hash_of sample_crypto zero_event) []\<rparr>)"
  have "block_millis ?S = block_millis empty_poset" by (simp add: block_millis_def hash_ref_eq upd_event_def)
  then obtain P3 where "P_updateRoundAssignment sample_crypto 3 ?S = Returns P3"
    using update_spec [of ?S sample_crypto 3] by auto
  then obtain P3 where "P_AddEvent sample_crypto 3 empty_poset = Returns (None, P3)"
    by (simp add: AddEvent_run Let_def) (simp add: zero_event_def)
  then show ?thesis using poset_invariant [of sample_crypto empty_poset 3 None P3] by (simp add: poset_ok_def)
qed

text \<open>
  One event per transaction list: once any node's event is stored, a different event with the same
  transactions, from any creator, with any parents and times, is refused as a duplicate; in
  particular at most one event without transactions can ever be stored. (The events' hash ignores
  the header, since its encoding fails.)
\<close>

theorem poset_one_event_per_tx_list:
  assumes "rlp_rejects_signed_ints x" and "p_mu P = unlocked"
    and "ev_hash (d_heap P p) = None" and "ev_hash e = None" and "ev_Transactions e = ev_Transactions (d_heap P p)"
    and "go_has (d_Events P) (hash_of x e)"
  shows "P_AddEvent x p P = Returns (Some ''event already exists'', snd (hash_ref x p P))"
proof -
  have "hash_of x (d_heap P p) = hash_of x e"
    using assms(1,3,4,5) by (simp add: hash_of_def Event_Hash_def rlp_rejects_signed_ints_def Let_def)
  then show ?thesis using assms(6) by (simp add: AddEvent_run [OF assms(2)] Let_def)
qed

theorem poset_one_event_per_tx_list_witness:
  "\<exists>P'. P_AddEvent sample_crypto 4 (empty_poset\<lparr>d_heap := \<lambda>q. zero_event\<lparr>ev_Height := of_nat q\<rparr>,
     d_Events := [(hash_of sample_crypto zero_event, 3)]\<rparr>) = Returns (Some ''event already exists'', P')"
  using poset_one_event_per_tx_list [OF sample_crypto_rejects, of "empty_poset\<lparr>d_heap := \<lambda>q. zero_event\<lparr>ev_Height := of_nat q\<rparr>,
     d_Events := [(hash_of sample_crypto zero_event, 3)]\<rparr>" 4 zero_event]
  by (simp add: zero_event_def)

end
