(* ===== verification/Search_Cost.thy ===== *)
theory Search_Cost
  imports Poset_Model
begin

text \<open>
  How long the two ancestor searches run: the loop of \<open>Poset.isAncestor\<close> with its iterations counted by fuel, and a
  bound on them that holds for every graph of events, cyclic ones and missing parents included.
\<close>

text \<open>None: the fuel ran out before the loop returned.\<close>

fun bfs_fuel :: "nat \<Rightarrow> parent_graph \<Rightarrow> event_id \<Rightarrow> event_id list \<Rightarrow> event_id list \<Rightarrow> bool option" where
  "bfs_fuel 0 g ancestor queue visited = None"
| "bfs_fuel (Suc n) g ancestor [] visited = Some False"
| "bfs_fuel (Suc n) g ancestor (current # queue) visited =
     (if current = ancestor then Some True
      else if current \<in> set visited then bfs_fuel n g ancestor queue visited
      else (case map_of g current of
              None \<Rightarrow> bfs_fuel n g ancestor queue (current # visited)
            | Some parents \<Rightarrow> bfs_fuel n g ancestor (queue @ parents) (current # visited)))"

text \<open>The parent links of the events not visited yet: what can still enter the queue.\<close>

definition open_links :: "parent_graph \<Rightarrow> event_id list \<Rightarrow> nat" where
  "open_links g visited = sum_list (map (\<lambda>(i, ps). if i \<in> set visited then 0 else length ps) g)"

definition parent_links :: "parent_graph \<Rightarrow> nat" where
  "parent_links g = sum_list (map (length \<circ> snd) g)"

lemma open_links_visit: "open_links g (c # visited) \<le> open_links g visited"
  by (induction g) (auto simp: open_links_def)

lemma open_links_expand:
  "map_of g c = Some ps \<Longrightarrow> c \<notin> set visited \<Longrightarrow> open_links g (c # visited) + length ps \<le> open_links g visited"
proof (induction g)
  case Nil
  then show ?case by simp
next
  case (Cons a g)
  obtain i qs where a: "a = (i, qs)" by (cases a)
  show ?case
  proof (cases "i = c")
    case True
    then show ?thesis using Cons.prems open_links_visit [of g c visited] by (simp add: a open_links_def)
  next
    case False
    then show ?thesis using Cons by (auto simp: a open_links_def)
  qed
qed

lemma bfs_fuel_enough:
  "length queue + open_links g visited < n \<Longrightarrow> bfs_fuel n g ancestor queue visited = Some (bfs g ancestor queue visited)"
proof (induction n g ancestor queue visited rule: bfs_fuel.induct)
  case (3 n g ancestor current queue visited)
  show ?case
  proof (cases "map_of g current")
    case None
    then show ?thesis using 3 open_links_visit [of g current visited] by auto
  next
    case (Some ps)
    then show ?thesis using 3 open_links_expand [OF Some, of visited] by auto
  qed
qed simp_all

lemma open_links_Nil: "open_links g [] = parent_links g"
  by (simp add: open_links_def parent_links_def case_prod_unfold comp_def)

section \<open>Property\<close>

text \<open>
  C10. Both ancestor searches end. On every store, whatever cycles and missing parents its events have, the loop of
  \<open>isAncestor\<close> takes an item from its queue at most as often as there are parent links, plus one, before it
  returns its answer; the recursion of \<open>IsAncestor\<close> is never deeper than the number of stored events, plus one; and
  the two give the same answer.
\<close>

theorem ancestor_searches_terminate:
  "bfs_fuel (parent_links (parent_graph_of P) + 2) (parent_graph_of P) ancestor [descendant] [] =
     Some (P_isAncestor ancestor descendant P) \<and>
   (\<exists>visited. dfs (length (d_Events P) + 1) (parent_graph_of P) ancestor descendant [] =
     Some (P_isAncestor ancestor descendant P, visited))"
proof -
  let ?g = "parent_graph_of P"
  have "bfs_fuel (parent_links ?g + 2) ?g ancestor [descendant] [] = Some (P_isAncestor ancestor descendant P)"
    by (subst bfs_fuel_enough) (simp_all add: open_links_Nil P_isAncestor_def bfs_ancestor_def)
  moreover have len: "length ?g = length (d_Events P)" by (simp add: parent_graph_of_def)
  obtain r visited where "dfs (Suc (length ?g)) ?g ancestor descendant [] = Some (r, visited)"
    using dfs_ancestor_terminates [of ?g ancestor descendant] by auto
  moreover from this have "r = dfs_ancestor ?g ancestor descendant" by (simp add: dfs_ancestor_def del: dfs.simps)
  ultimately show ?thesis by (simp add: len P_isAncestor_iff dfs_ancestor_iff del: dfs.simps)
qed

end
