(* ===== verification/Registry.thy ===== *)
theory Registry
  imports Sinar_Prelude
begin

text \<open>
  The interface of a keyed registry: the contract that \<open>ValidatorSet\<close> and
  \<open>TransactionPool\<close> share. A registry refuses a key it already holds with an error and no change,
  and stores a new key. The lemmas on sequences of registrations are proved once here.
\<close>

locale registry =
  fixes entries :: "'s \<Rightarrow> ('k, 'v) gomap"
    and taken :: "'s \<Rightarrow> 'k \<Rightarrow> bool"
    and key_of :: "'s \<Rightarrow> 'v \<Rightarrow> 'k"
    and add :: "'v \<Rightarrow> 's \<Rightarrow> string option \<times> 's"
  assumes held_is_taken: "go_has (entries s) k \<Longrightarrow> taken s k"
    and add_taken: "taken s (key_of s v) \<Longrightarrow> fst (add v s) \<noteq> None \<and> snd (add v s) = s"
    and add_new: "\<not> taken s (key_of s v) \<Longrightarrow> fst (add v s) = None \<and>
      entries (snd (add v s)) = go_put (key_of s v) v (entries s)"
    and taken_after: "\<not> taken s (key_of s v) \<Longrightarrow> taken (snd (add v s)) k \<longleftrightarrow> k = key_of s v \<or> taken s k"
    and key_stable: "key_of (snd (add v s)) w = key_of s w"
begin

lemma add_ok_iff: "fst (add v s) = None \<longleftrightarrow> \<not> taken s (key_of s v)"
  using add_taken add_new by blast

lemma lookup_after_add: "fst (add v s) = None \<Longrightarrow> go_get (entries (snd (add v s))) (key_of s v) = Some v"
  using add_new add_ok_iff by simp

text \<open>A second registration under the same key always fails.\<close>

lemma add_twice: "key_of s w = key_of s v \<Longrightarrow> fst (add w (snd (add v s))) \<noteq> None"
  by (metis add_ok_iff add_taken key_stable taken_after)

lemma add_wf: "wf_gomap (entries s) \<Longrightarrow> wf_gomap (entries (snd (add v s)))"
  using add_taken add_new by (cases "taken s (key_of s v)") simp_all

text \<open>A new entry is exactly one more; a refused one changes nothing.\<close>

lemma add_size: "length (entries (snd (add v s))) = length (entries s) + (if fst (add v s) = None then 1 else 0)"
proof (cases "taken s (key_of s v)")
  case True
  then show ?thesis using add_taken by simp
next
  case False
  then have "\<not> go_has (entries s) (key_of s v)" using held_is_taken by blast
  then show ?thesis using add_new [OF False] by (simp add: length_go_put)
qed

lemma add_keeps: "k \<noteq> key_of s v \<Longrightarrow> go_get (entries (snd (add v s))) k = go_get (entries s) k"
  using add_taken add_new by (cases "taken s (key_of s v)") simp_all

end

end
