(* ===== verification/Tx_Pool.thy ===== *)
theory Tx_Pool
  imports Sinar_Event Registry
begin

text \<open>
  \<open>txpool.go\<close>: the pool of pending transactions and the choice of transactions for a block.

  Every method holds the pool's mutex for its whole body and calls no other locking method: each is
  one step. \<open>sortTransactionsByGasPrice\<close> is the exchange sort of the source, index by index;
  \<open>GetTransactionsForBlock\<close> adds gas in \<open>uint64\<close>, which may wrap.
\<close>

section \<open>State\<close>

record transaction_pool =
  tp_pending :: "(hash32, transaction) gomap"
  tp_queued :: "(hash32, transaction) gomap"

definition NewTransactionPool :: transaction_pool where
  "NewTransactionPool = \<lparr>tp_pending = [], tp_queued = []\<rparr>"

section \<open>Operations\<close>

definition TP_AddTransaction :: "transaction \<Rightarrow> transaction_pool \<Rightarrow> string option \<times> transaction_pool" where
  "TP_AddTransaction tx tp =
     (let txHash = tx_Hash tx in
      if go_has (tp_pending tp) txHash then (Some ''transaction already exists in pending pool'', tp)
      else if go_has (tp_queued tp) txHash then (Some ''transaction already exists in queued pool'', tp)
      else (None, tp\<lparr>tp_pending := go_put txHash tx (tp_pending tp)\<rparr>))"

definition TP_GetPendingTransactions :: "transaction_pool \<Rightarrow> transaction list" where
  "TP_GetPendingTransactions tp = map snd (tp_pending tp)"

text \<open>\<open>if txs[i].GasPrice() < txs[j].GasPrice() \{ swap \}\<close> for each \<open>j\<close> after \<open>i\<close>, for each \<open>i\<close>.\<close>

definition exchange :: "nat \<Rightarrow> nat \<Rightarrow> transaction list \<Rightarrow> transaction list" where
  "exchange i j txs =
     (if tx_GasPrice (txs ! i) < tx_GasPrice (txs ! j) then txs[i := txs ! j, j := txs ! i] else txs)"

definition exchange_row :: "nat \<Rightarrow> transaction list \<Rightarrow> transaction list" where
  "exchange_row i txs = fold (exchange i) [Suc i..<length txs] txs"

definition TP_sortTransactionsByGasPrice :: "transaction_pool \<Rightarrow> transaction list" where
  "TP_sortTransactionsByGasPrice tp =
     (let txs = map snd (tp_pending tp) in fold exchange_row [0..<length txs - 1] txs)"

fun TP_select :: "u64 \<Rightarrow> u64 \<Rightarrow> transaction list \<Rightarrow> transaction list" where
  "TP_select blockGasLimit currentGas [] = []"
| "TP_select blockGasLimit currentGas (tx # txs) =
     (if currentGas + tx_Gas tx \<le> blockGasLimit
      then tx # TP_select blockGasLimit (currentGas + tx_Gas tx) txs else [])"

definition TP_GetTransactionsForBlock ::
  "u64 \<Rightarrow> transaction_pool \<Rightarrow> transaction list \<times> transaction_pool" where
  "TP_GetTransactionsForBlock blockGasLimit tp =
     (let selectedTxs = TP_select blockGasLimit 0 (TP_sortTransactionsByGasPrice tp)
      in (selectedTxs, tp\<lparr>tp_pending := fold (\<lambda>tx. go_del (tx_Hash tx)) selectedTxs (tp_pending tp)\<rparr>))"

definition TP_RemoveTransaction :: "hash32 \<Rightarrow> transaction_pool \<Rightarrow> transaction_pool" where
  "TP_RemoveTransaction txHash tp =
     tp\<lparr>tp_pending := go_del txHash (tp_pending tp), tp_queued := go_del txHash (tp_queued tp)\<rparr>"

definition TP_GetPoolStats :: "transaction_pool \<Rightarrow> nat \<times> nat" where
  "TP_GetPoolStats tp = (length (tp_pending tp), length (tp_queued tp))"

definition TP_ClearPool :: "transaction_pool \<Rightarrow> transaction_pool" where
  "TP_ClearPool tp = tp\<lparr>tp_pending := [], tp_queued := []\<rparr>"

interpretation pool: registry tp_pending "\<lambda>tp k. go_has (tp_pending tp) k \<or> go_has (tp_queued tp) k"
    "\<lambda>tp. tx_Hash" TP_AddTransaction
  by unfold_locales (auto simp: TP_AddTransaction_def Let_def)

section \<open>The exchange sort\<close>

abbreviation price_at :: "transaction list \<Rightarrow> nat \<Rightarrow> int" where
  "price_at txs i \<equiv> tx_GasPrice (txs ! i)"

lemma length_exchange [simp]: "length (exchange i j txs) = length txs"
  by (simp add: exchange_def)

lemma mset_exchange: "i < length txs \<Longrightarrow> j < length txs \<Longrightarrow> mset (exchange i j txs) = mset txs"
  by (simp add: exchange_def mset_swap)

text \<open>One row: the maximum of the tail moves to the front, the rest of the list is a permutation.\<close>

lemma exchange_row_part:
  assumes "i < m" and "m \<le> length txs"
  defines "ys \<equiv> fold (exchange i) [Suc i..<m] txs"
  shows "length ys = length txs \<and> mset ys = mset txs \<and> (\<forall>k < i. ys ! k = txs ! k) \<and>
    (\<forall>k. i < k \<longrightarrow> k < m \<longrightarrow> price_at ys k \<le> price_at ys i) \<and> (\<forall>k. m \<le> k \<longrightarrow> k < length txs \<longrightarrow> ys ! k = txs ! k) \<and>
    (\<forall>k. i \<le> k \<longrightarrow> k < m \<longrightarrow> (\<exists>l. i \<le> l \<and> l < m \<and> ys ! k = txs ! l))"
  using assms(1,2) unfolding ys_def
proof (induction m)
  case 0
  then show ?case by simp
next
  case (Suc m)
  show ?case
  proof (cases "i = m")
    case True
    then show ?thesis by (auto simp: less_Suc_eq)
  next
    case False
    let ?zs = "fold (exchange i) [Suc i..<m] txs"
    have im: "i < m" "m < length txs" using Suc.prems False by auto
    note ih = Suc.IH [OF im(1)]
    have z: "length ?zs = length txs" "mset ?zs = mset txs" "\<forall>k < i. ?zs ! k = txs ! k"
      "\<forall>k. i < k \<longrightarrow> k < m \<longrightarrow> price_at ?zs k \<le> price_at ?zs i"
      "\<forall>k. m \<le> k \<longrightarrow> k < length txs \<longrightarrow> ?zs ! k = txs ! k"
      "\<forall>k. i \<le> k \<longrightarrow> k < m \<longrightarrow> (\<exists>l. i \<le> l \<and> l < m \<and> ?zs ! k = txs ! l)"
      using ih im(2) by auto
    have step: "fold (exchange i) [Suc i..<Suc m] txs = exchange i m ?zs" using im(1) by simp
    have nth: "exchange i m ?zs ! k = (if price_at ?zs i < price_at ?zs m then
        (if k = m then ?zs ! i else if k = i then ?zs ! m else ?zs ! k) else ?zs ! k)" if "k < length txs" for k
      using that im z(1) by (simp add: exchange_def nth_list_update)
    have ms: "mset (exchange i m ?zs) = mset txs" using im z(1,2) by (simp add: mset_exchange)
    have front: "\<forall>k < i. exchange i m ?zs ! k = txs ! k" using nth im z(3) by auto
    have top: "\<forall>k. i < k \<longrightarrow> k < Suc m \<longrightarrow> price_at (exchange i m ?zs) k \<le> price_at (exchange i m ?zs) i"
      using nth im z(4) by (auto simp: less_Suc_eq)
    have rest: "\<forall>k. Suc m \<le> k \<longrightarrow> k < length txs \<longrightarrow> exchange i m ?zs ! k = txs ! k" using nth im z(5) by auto
    have zm: "?zs ! m = txs ! m" using z(5) im by simp
    have zi: "\<exists>l. i \<le> l \<and> l < Suc m \<and> ?zs ! k = txs ! l" if "i \<le> k" "k < m" for k
      using z(6) that less_Suc_eq by meson
    have within: "\<exists>l. i \<le> l \<and> l < Suc m \<and> exchange i m ?zs ! k = txs ! l" if k: "i \<le> k" "k < Suc m" for k
    proof -
      have "k < length txs" using k im by simp
      moreover have "\<exists>l. i \<le> l \<and> l < Suc m \<and> ?zs ! k = txs ! l"
        using zi [of k] k zm im by (cases "k = m") (auto intro: exI [of _ m])
      moreover have "\<exists>l. i \<le> l \<and> l < Suc m \<and> ?zs ! m = txs ! l" using zm im by (auto intro: exI [of _ m])
      ultimately show ?thesis using nth zi [of i] im by simp
    qed
    show ?thesis unfolding step using ms front top rest within z(1) by simp
  qed
qed

lemma exchange_rows:
  assumes "m < length txs \<or> m = 0"
  defines "ys \<equiv> fold exchange_row [0..<m] txs"
  shows "length ys = length txs \<and> mset ys = mset txs \<and>
    (\<forall>a b. a < b \<longrightarrow> a < m \<longrightarrow> b < length txs \<longrightarrow> price_at ys b \<le> price_at ys a)"
  using assms(1) unfolding ys_def
proof (induction m)
  case 0
  then show ?case by simp
next
  case (Suc m)
  let ?zs = "fold exchange_row [0..<m] txs" and ?ys = "exchange_row m (fold exchange_row [0..<m] txs)"
  have m: "m < length txs" using Suc.prems by auto
  then have z: "length ?zs = length txs" "mset ?zs = mset txs"
    "\<forall>a b. a < b \<longrightarrow> a < m \<longrightarrow> b < length txs \<longrightarrow> price_at ?zs b \<le> price_at ?zs a"
    using Suc.IH by auto
  note row = exchange_row_part [of m "length ?zs" ?zs, folded exchange_row_def, unfolded z(1), OF m order_refl]
  have r: "length ?ys = length txs" "mset ?ys = mset txs" "\<forall>k < m. ?ys ! k = ?zs ! k"
    "\<forall>k. m < k \<longrightarrow> k < length txs \<longrightarrow> price_at ?ys k \<le> price_at ?ys m"
    "\<forall>k. m \<le> k \<longrightarrow> k < length txs \<longrightarrow> (\<exists>l. m \<le> l \<and> l < length txs \<and> ?ys ! k = ?zs ! l)"
    using row z(1,2) by (auto simp: exchange_row_def)
  have "price_at ?ys b \<le> price_at ?ys a" if ab: "a < b" "a < Suc m" "b < length txs" for a b
  proof (cases "a = m")
    case True
    then show ?thesis using r(4) ab by simp
  next
    case False
    then have a: "a < m" "?ys ! a = ?zs ! a" using ab(2) r(3) by auto
    show ?thesis
    proof (cases "b < m")
      case True
      then show ?thesis using a z(3) r(3) ab by simp
    next
      case False
      then obtain l where "m \<le> l" "l < length txs" "?ys ! b = ?zs ! l" using r(5) ab(3) by (meson not_less)
      then show ?thesis using a z(3) by simp
    qed
  qed
  then show ?case using r(1,2) by simp
qed

lemma sort_is_permutation: "mset (TP_sortTransactionsByGasPrice tp) = mset (map snd (tp_pending tp))"
  using exchange_rows [of "length (tp_pending tp) - 1" "map snd (tp_pending tp)"]
  by (cases "tp_pending tp") (auto simp: TP_sortTransactionsByGasPrice_def Let_def)

lemma sort_is_sorted: "sorted_wrt (\<lambda>a b. tx_GasPrice b \<le> tx_GasPrice a) (TP_sortTransactionsByGasPrice tp)"
proof -
  let ?n = "length (tp_pending tp)" and ?ys = "TP_sortTransactionsByGasPrice tp"
  have m: "?n - 1 < length (map snd (tp_pending tp)) \<or> ?n - 1 = 0" by (cases "tp_pending tp") auto
  have "length ?ys = ?n" "\<forall>a b. a < b \<longrightarrow> a < ?n - 1 \<longrightarrow> b < ?n \<longrightarrow> price_at ?ys b \<le> price_at ?ys a"
    using exchange_rows [OF m] by (simp_all add: TP_sortTransactionsByGasPrice_def Let_def)
  then show ?thesis by (auto simp: sorted_wrt_iff_nth_less)
qed

section \<open>Selection under the gas limit\<close>

abbreviation gas_sum :: "transaction list \<Rightarrow> nat" where
  "gas_sum txs \<equiv> sum_list (map (unat \<circ> tx_Gas) txs)"

lemma select_prefix: "TP_select g c txs = take (length (TP_select g c txs)) txs"
  by (induction txs arbitrary: c) auto

text \<open>Without wrap-around: the chosen prefix fits and the next transaction would not.\<close>

lemma select_fits:
  assumes "unat c + gas_sum txs < 2 ^ 64" and "unat c \<le> unat g"
  shows "unat c + gas_sum (TP_select g c txs) \<le> unat g \<and>
    (\<forall>tx rest. txs = TP_select g c txs @ tx # rest \<longrightarrow>
       unat g < unat c + gas_sum (TP_select g c txs) + unat (tx_Gas tx))"
  using assms
proof (induction txs arbitrary: c)
  case Nil
  then show ?case by simp
next
  case (Cons a txs)
  have sum: "unat (c + tx_Gas a) = unat c + unat (tx_Gas a)"
    using Cons.prems(1) by (simp add: unat_word_ariths)
  show ?case
  proof (cases "c + tx_Gas a \<le> g")
    case True
    then have "unat (c + tx_Gas a) \<le> unat g" by (simp add: word_le_nat_alt)
    then show ?thesis using Cons.IH [of "c + tx_Gas a"] Cons.prems(1) True by (simp add: sum add.assoc)
  next
    case False
    then show ?thesis using Cons.prems(2) by (simp add: word_le_nat_alt sum)
  qed
qed

lemma pending_after_select:
  "go_get (fold (\<lambda>tx. go_del (tx_Hash tx)) sel m) k = (if k \<in> tx_Hash ` set sel then None else go_get m k)"
  by (induction sel arbitrary: m) auto

section \<open>Properties\<close>

text \<open>
  The exchange sort is a sort: its result is a permutation of the pending transactions, in order of
  falling gas price.
\<close>

theorem sort_by_gas_price_correct:
  "mset (TP_sortTransactionsByGasPrice tp) = mset (TP_GetPendingTransactions tp) \<and>
   sorted_wrt (\<lambda>a b. tx_GasPrice b \<le> tx_GasPrice a) (TP_sortTransactionsByGasPrice tp)"
  using sort_is_permutation sort_is_sorted by (simp add: TP_GetPendingTransactions_def)

text \<open>
  C27. The transactions for a block. When the gas of all pending transactions adds up to less than \<open>2 ^ 64\<close>,
  the selection is the longest run of best-paying transactions that fits: its gas is within the limit, the
  next transaction in price order would exceed it, every transaction left out pays at most what each chosen
  one pays, and exactly the hashes of the chosen ones leave the pool.
\<close>

theorem transactions_for_block_spec:
  assumes "gas_sum (TP_GetPendingTransactions tp) < 2 ^ 64"
    and "TP_GetTransactionsForBlock g tp = (sel, tp')" and "TP_sortTransactionsByGasPrice tp = ranked"
  shows "\<exists>rest. ranked = sel @ rest \<and> gas_sum sel \<le> unat g \<and>
    (rest = [] \<or> unat g < gas_sum sel + unat (tx_Gas (hd rest))) \<and>
    (\<forall>a \<in> set sel. \<forall>b \<in> set rest. tx_GasPrice b \<le> tx_GasPrice a) \<and>
    go_get (tp_pending tp') = (\<lambda>k. if k \<in> tx_Hash ` set sel then None else go_get (tp_pending tp) k)"
proof -
  let ?rest = "drop (length sel) ranked"
  have sel: "sel = TP_select g 0 ranked"
    and tp': "tp' = tp\<lparr>tp_pending := fold (\<lambda>tx. go_del (tx_Hash tx)) sel (tp_pending tp)\<rparr>"
    using assms(2,3) by (auto simp: TP_GetTransactionsForBlock_def Let_def)
  have split: "ranked = sel @ ?rest"
    by (metis append_take_drop_id sel select_prefix)
  have "mset (map (unat \<circ> tx_Gas) ranked) = mset (map (unat \<circ> tx_Gas) (TP_GetPendingTransactions tp))"
    using sort_is_permutation [of tp] assms(3) by (simp only: mset_map TP_GetPendingTransactions_def)
  then have "gas_sum ranked = gas_sum (TP_GetPendingTransactions tp)" by (metis sum_mset_sum_list)
  then have fits: "gas_sum sel \<le> unat g"
    "\<forall>tx rest. ranked = sel @ tx # rest \<longrightarrow> unat g < gas_sum sel + unat (tx_Gas tx)"
    using select_fits [of 0 ranked g] assms(1) by (simp_all add: sel)
  have "?rest = [] \<or> unat g < gas_sum sel + unat (tx_Gas (hd ?rest))"
    using fits(2) split by (cases ?rest) auto
  moreover have "\<forall>a \<in> set sel. \<forall>b \<in> set ?rest. tx_GasPrice b \<le> tx_GasPrice a"
    using sort_is_sorted [of tp] unfolding assms(3) by (subst (asm) split) (auto simp: sorted_wrt_append)
  moreover have "go_get (tp_pending tp') = (\<lambda>k. if k \<in> tx_Hash ` set sel then None else go_get (tp_pending tp) k)"
    by (rule ext) (simp add: tp' pending_after_select)
  ultimately show ?thesis using split fits(1) by blast
qed

text \<open>Transactions for the examples.\<close>

definition sample_tx :: "hash32 \<Rightarrow> u64 \<Rightarrow> int \<Rightarrow> transaction" where
  "sample_tx h g price = \<lparr>tx_Hash = h, tx_Gas = g, tx_GasPrice = price, tx_Value = 0, tx_To = None,
     tx_Data = [], tx_Sender = None\<rparr>"

theorem transactions_for_block_spec_witness:
  "\<exists>rest. [sample_tx 2 21000 9, sample_tx 1 21000 5] =
     fst (TP_GetTransactionsForBlock 30000 (NewTransactionPool
       \<lparr>tp_pending := [(1, sample_tx 1 21000 5), (2, sample_tx 2 21000 9)]\<rparr>)) @ rest"
proof -
  let ?tp = "NewTransactionPool\<lparr>tp_pending := [(1, sample_tx 1 21000 5), (2, sample_tx 2 21000 9)]\<rparr>"
  have g: "gas_sum (TP_GetPendingTransactions ?tp) < 2 ^ 64"
    by (simp add: TP_GetPendingTransactions_def sample_tx_def)
  have s: "TP_sortTransactionsByGasPrice ?tp = [sample_tx 2 21000 9, sample_tx 1 21000 5]"
    by (simp add: TP_sortTransactionsByGasPrice_def exchange_row_def exchange_def sample_tx_def numeral_2_eq_2)
  show ?thesis using transactions_for_block_spec [OF g prod.collapse [symmetric] s, of 30000] by blast
qed

text \<open>
  The limit can be passed: the gas sum is kept in \<open>uint64\<close>, so a transaction whose gas wraps the sum is
  accepted, and the selection needs far more gas than the block has. There is a pool of two
  transactions that is selected whole for a block of 30000000 gas although one of them alone asks for
  more than \<open>2 ^ 63\<close>.
\<close>

theorem gas_limit_wraps:
  "\<exists>tp sel tp'. TP_GetTransactionsForBlock 30000000 tp = (sel, tp') \<and> length sel = 2 \<and> 2 ^ 63 < gas_sum sel \<and>
     tp_pending tp' = []"
proof -
  let ?a = "sample_tx 1 21000 9" and ?b = "sample_tx 2 (- 20000) 5"
  let ?tp = "NewTransactionPool\<lparr>tp_pending := [(1, ?a), (2, ?b)]\<rparr>"
  have "TP_sortTransactionsByGasPrice ?tp = [?a, ?b]"
    by (simp add: TP_sortTransactionsByGasPrice_def exchange_row_def exchange_def sample_tx_def numeral_2_eq_2)
  moreover have "TP_select 30000000 0 [?a, ?b] = [?a, ?b]" by (simp add: sample_tx_def)
  moreover have "2 ^ 63 < gas_sum [?a, ?b]" by (simp add: sample_tx_def)
  ultimately show ?thesis
    by (intro exI [of _ ?tp] exI [of _ "[?a, ?b]"] exI [of _ "NewTransactionPool"])
       (simp add: TP_GetTransactionsForBlock_def NewTransactionPool_def, simp add: sample_tx_def)
qed

section \<open>The sample transaction\<close>

text \<open>
  \<open>CreateSampleTransaction\<close>; \<open>txhash\<close> is the hash go-ethereum computes from the contents. The transaction is not
  signed and \<open>from\<close> is dropped, so it has no sender.
\<close>

definition CreateSampleTransaction ::
  "(address \<Rightarrow> int \<Rightarrow> int \<Rightarrow> hash32) \<Rightarrow> address \<Rightarrow> address \<Rightarrow> int \<Rightarrow> int \<Rightarrow> transaction" where
  "CreateSampleTransaction txhash from to value gasPrice =
     \<lparr>tx_Hash = txhash to value gasPrice, tx_Gas = 21000, tx_GasPrice = gasPrice, tx_Value = value, tx_To = Some to,
      tx_Data = [], tx_Sender = None\<rparr>"

text \<open>Two samples with the same receiver, value and price are one transaction, whoever they are from: the pool refuses the second.\<close>

lemma second_sample_refused:
  assumes "TP_AddTransaction (CreateSampleTransaction h a to value price) tp = (None, tp')"
  shows "\<exists>err. TP_AddTransaction (CreateSampleTransaction h b to value price) tp' = (Some err, tp')"
  using assms by (auto simp: TP_AddTransaction_def CreateSampleTransaction_def Let_def split: if_splits)

end
