(* ===== verification/Validators.thy ===== *)
theory Validators
  imports Sinar_Event Registry
begin

text \<open>
  \<open>validator.go\<close>: validators and the validator set.

  Validators are heap objects: the set, the consensus engine and the caller share the pointers, and
  \<open>UpdateValidatorStake\<close> writes through them. \<open>vs_heap\<close> is that part of the heap. Every method holds
  the set's mutex \<open>vs_mu\<close> for its whole body and calls no other locking method: a definition below is the
  body of its method, and a call is the body under the mutex, \<open>VS_locked\<close> (for the methods that only
  read, \<open>VS_rlocked\<close>). Times are nanoseconds.
\<close>

section \<open>State\<close>

type_synonym vref = nat

record validator =
  vd_ID :: string
  vd_Address :: string
  vd_PublicKey :: "public_key option"
  vd_PrivateKey :: "private_key option"
  vd_Stake :: u64
  vd_IsActive :: bool
  vd_LastSeen :: int

record validator_set =
  vs_heap :: "vref \<Rightarrow> validator"
  vs_validators :: "(string, vref) gomap"
  vs_mu :: rwmutex

definition NewValidatorSet :: "(vref \<Rightarrow> validator) \<Rightarrow> validator_set" where
  "NewValidatorSet heap = \<lparr>vs_heap = heap, vs_validators = [], vs_mu = unlocked\<rparr>"

definition set_vs_mu :: "rwmutex \<Rightarrow> validator_set \<Rightarrow> validator_set" where
  "set_vs_mu m vs = vs\<lparr>vs_mu := m\<rparr>"

interpretation vs_mutex: mutex_field vs_mu set_vs_mu
  by unfold_locales (simp_all add: set_vs_mu_def)

text \<open>A call of a method: its body between \<open>mu.Lock()\<close> and the deferred \<open>mu.Unlock()\<close>, or the read lock's.\<close>

definition VS_locked ::
  "(validator_set \<Rightarrow> 'r \<times> validator_set) \<Rightarrow> validator_set \<Rightarrow> ('r \<times> validator_set) outcome" where
  "VS_locked body = with_Lock vs_mu set_vs_mu (\<lambda>vs. Returns (body vs))"

definition VS_rlocked :: "(validator_set \<Rightarrow> 'r) \<Rightarrow> validator_set \<Rightarrow> ('r \<times> validator_set) outcome" where
  "VS_rlocked body = with_RLock vs_mu set_vs_mu (\<lambda>vs. Returns (body vs, vs))"

text \<open>A body that leaves the mutex alone runs atomically.\<close>

lemma VS_locked_free:
  assumes "vs_mu vs = unlocked" and "vs_mu (snd (body vs)) = vs_mu vs"
    and "\<And>m. body (set_vs_mu m vs) = (fst (body vs), set_vs_mu m (snd (body vs)))"
  shows "VS_locked body vs = Returns (body vs)"
proof -
  let ?held = "unlocked\<lparr>rw_writer := True\<rparr>"
  have "VS_locked body vs = Returns (fst (body vs), set_vs_mu unlocked (set_vs_mu ?held (snd (body vs))))"
    unfolding VS_locked_def by (rule vs_mutex.Lock_returns [OF assms(1)]) (simp_all add: assms(3))
  also have "set_vs_mu unlocked (set_vs_mu ?held (snd (body vs))) = snd (body vs)"
    using vs_mutex.set_mu_same [of "snd (body vs)"] assms(1,2) by simp
  finally show ?thesis by simp
qed

definition NewValidator :: "string \<Rightarrow> private_key \<Rightarrow> u64 \<Rightarrow> int \<Rightarrow> validator" where
  "NewValidator vid privKey stake now = \<lparr>vd_ID = vid, vd_Address = '''', vd_PublicKey = Some (sk_Public privKey),
     vd_PrivateKey = Some privKey, vd_Stake = stake, vd_IsActive = True, vd_LastSeen = now\<rparr>"

section \<open>Operations\<close>

definition VS_AddValidator :: "vref \<Rightarrow> validator_set \<Rightarrow> string option \<times> validator_set" where
  "VS_AddValidator v vs =
     (let vid = vd_ID (vs_heap vs v) in
      if go_has (vs_validators vs) vid then (Some (''validator '' @ vid @ '' already exists''), vs)
      else (None, vs\<lparr>vs_validators := go_put vid v (vs_validators vs)\<rparr>))"

definition VS_RemoveValidator :: "string \<Rightarrow> validator_set \<Rightarrow> string option \<times> validator_set" where
  "VS_RemoveValidator vid vs =
     (if \<not> go_has (vs_validators vs) vid then (Some (''validator '' @ vid @ '' not found''), vs)
      else (None, vs\<lparr>vs_validators := go_del vid (vs_validators vs)\<rparr>))"

definition VS_GetValidator :: "string \<Rightarrow> validator_set \<Rightarrow> vref option" where
  "VS_GetValidator vid vs = go_get (vs_validators vs) vid"

definition VS_GetAllValidators :: "validator_set \<Rightarrow> vref list" where
  "VS_GetAllValidators vs = map snd (vs_validators vs)"

definition VS_GetActiveValidators :: "validator_set \<Rightarrow> vref list" where
  "VS_GetActiveValidators vs = filter (\<lambda>v. vd_IsActive (vs_heap vs v)) (map snd (vs_validators vs))"

definition upd_validator :: "vref \<Rightarrow> (validator \<Rightarrow> validator) \<Rightarrow> validator_set \<Rightarrow> validator_set" where
  "upd_validator v f vs = vs\<lparr>vs_heap := (vs_heap vs)(v := f (vs_heap vs v))\<rparr>"

definition VS_UpdateValidatorStake :: "string \<Rightarrow> u64 \<Rightarrow> validator_set \<Rightarrow> string option \<times> validator_set" where
  "VS_UpdateValidatorStake vid newStake vs =
     (case go_get (vs_validators vs) vid of
        None \<Rightarrow> (Some (''validator '' @ vid @ '' not found''), vs)
      | Some v \<Rightarrow> (None, upd_validator v (\<lambda>x. x\<lparr>vd_Stake := newStake\<rparr>) vs))"

definition VS_SetValidatorActive :: "string \<Rightarrow> bool \<Rightarrow> int \<Rightarrow> validator_set \<Rightarrow> string option \<times> validator_set" where
  "VS_SetValidatorActive vid active now vs =
     (case go_get (vs_validators vs) vid of
        None \<Rightarrow> (Some (''validator '' @ vid @ '' not found''), vs)
      | Some v \<Rightarrow> (None, upd_validator v (\<lambda>x.
          (if active then x\<lparr>vd_IsActive := active, vd_LastSeen := now\<rparr> else x\<lparr>vd_IsActive := active\<rparr>)) vs))"

definition VS_GetTotalStake :: "validator_set \<Rightarrow> u64" where
  "VS_GetTotalStake vs = fold (\<lambda>(vid, v) total.
     if vd_IsActive (vs_heap vs v) then total + vd_Stake (vs_heap vs v) else total) (vs_validators vs) 0"

fun find_address :: "(vref \<Rightarrow> validator) \<Rightarrow> string \<Rightarrow> (string, vref) gomap \<Rightarrow> vref option" where
  "find_address heap a [] = None"
| "find_address heap a ((vid, v) # m) = (if vd_Address (heap v) = a then Some v else find_address heap a m)"

definition VS_GetValidatorByAddress :: "string \<Rightarrow> validator_set \<Rightarrow> vref option" where
  "VS_GetValidatorByAddress a vs = find_address (vs_heap vs) a (vs_validators vs)"

definition VS_CleanupInactiveValidators :: "int \<Rightarrow> int \<Rightarrow> validator_set \<Rightarrow> validator_set" where
  "VS_CleanupInactiveValidators timeout now vs = vs\<lparr>vs_validators := filter (\<lambda>(vid, v).
     \<not> (\<not> vd_IsActive (vs_heap vs v) \<and> now - vd_LastSeen (vs_heap vs v) > timeout)) (vs_validators vs)\<rparr>"

lemma VS_rlocked_free:
  assumes "\<not> rw_writer (vs_mu vs)" and "\<And>m. body (set_vs_mu m vs) = body vs"
  shows "VS_rlocked body vs = Returns (body vs, vs)"
  unfolding VS_rlocked_def using assms by (simp add: vs_mutex.RLock_pure_read)

lemma VS_readers_free:
  assumes "\<not> rw_writer (vs_mu vs)"
  shows "VS_rlocked (VS_GetValidator vid) vs = Returns (VS_GetValidator vid vs, vs)"
    "VS_rlocked VS_GetActiveValidators vs = Returns (VS_GetActiveValidators vs, vs)"
    "VS_rlocked VS_GetTotalStake vs = Returns (VS_GetTotalStake vs, vs)"
  by (rule VS_rlocked_free [OF assms];
      simp add: VS_GetValidator_def VS_GetActiveValidators_def VS_GetTotalStake_def set_vs_mu_def cong: if_cong)+

lemma VS_AddValidator_mu [simp]: "vs_mu (snd (VS_AddValidator v vs)) = vs_mu vs"
  and VS_RemoveValidator_mu [simp]: "vs_mu (snd (VS_RemoveValidator vid vs)) = vs_mu vs"
  by (simp_all add: VS_AddValidator_def VS_RemoveValidator_def Let_def)

lemma VS_AddValidator_free: "vs_mu vs = unlocked \<Longrightarrow> VS_locked (VS_AddValidator v) vs = Returns (VS_AddValidator v vs)"
  and VS_RemoveValidator_free:
    "vs_mu vs = unlocked \<Longrightarrow> VS_locked (VS_RemoveValidator vid) vs = Returns (VS_RemoveValidator vid vs)"
  by (rule VS_locked_free; simp add: VS_AddValidator_def VS_RemoveValidator_def set_vs_mu_def Let_def)+

section \<open>The set as a registry\<close>

interpretation vset: registry vs_validators "\<lambda>vs vid. go_has (vs_validators vs) vid"
    "\<lambda>vs v. vd_ID (vs_heap vs v)" VS_AddValidator
  by unfold_locales (auto simp: VS_AddValidator_def Let_def)

section \<open>Lemmas\<close>

lemma fold_stake:
  "unat (fold (\<lambda>(vid, v) total. if act v then total + stake v else total) m (t :: u64)) =
     (unat t + sum_list (map (\<lambda>(vid, v). if act v then unat (stake v) else 0) m)) mod 2 ^ 64"
proof (induction m arbitrary: t)
  case Nil
  then show ?case using unsigned_less [of t, where ?'a = nat] by simp
next
  case (Cons a m)
  obtain vid v where a: "a = (vid, v)" by (cases a)
  show ?case
    by (simp add: a Cons.IH unat_word_ariths mod_add_left_eq add.assoc)
qed

lemma total_stake_nat:
  "unat (VS_GetTotalStake vs) =
     sum_list (map (\<lambda>(vid, v). if vd_IsActive (vs_heap vs v) then unat (vd_Stake (vs_heap vs v)) else 0)
       (vs_validators vs)) mod 2 ^ 64"
  unfolding VS_GetTotalStake_def by (subst fold_stake) simp

text \<open>Every validator is stored under its own identifier.\<close>

definition vset_ok :: "validator_set \<Rightarrow> bool" where
  "vset_ok vs \<longleftrightarrow> wf_gomap (vs_validators vs) \<and> (\<forall>(vid, v) \<in> set (vs_validators vs). vd_ID (vs_heap vs v) = vid)"

lemma filter_wf_gomap: "wf_gomap m \<Longrightarrow> wf_gomap (filter c m)"
  by (simp add: wf_gomap_def distinct_map_filter)

lemma vset_ok_add: "vset_ok vs \<Longrightarrow> vset_ok (snd (VS_AddValidator v vs))"
  using set_go_put_subset by (fastforce simp: vset_ok_def VS_AddValidator_def Let_def)

lemma vset_ok_remove: "vset_ok vs \<Longrightarrow> vset_ok (snd (VS_RemoveValidator vid vs))"
  by (auto simp: vset_ok_def VS_RemoveValidator_def AList.delete_eq filter_wf_gomap)


lemma vset_ok_cleanup: "vset_ok vs \<Longrightarrow> vset_ok (VS_CleanupInactiveValidators timeout now vs)"
  by (auto simp: vset_ok_def VS_CleanupInactiveValidators_def filter_wf_gomap)

lemma upd_validator_fields [simp]:
  "vs_validators (upd_validator v f vs) = vs_validators vs"
  "vs_heap (upd_validator v f vs) = (vs_heap vs)(v := f (vs_heap vs v))"
  by (simp_all add: upd_validator_def)

lemma upd_validator_ok:
  "(\<And>y. vd_ID (f y) = vd_ID y) \<Longrightarrow> vset_ok vs \<Longrightarrow> vset_ok (upd_validator v f vs)"
  by (auto simp: vset_ok_def split_beta)

lemma vset_ok_stake: "vset_ok vs \<Longrightarrow> vset_ok (snd (VS_UpdateValidatorStake vid n vs))"
  by (simp add: VS_UpdateValidatorStake_def upd_validator_ok split: option.split)

lemma vset_ok_active: "vset_ok vs \<Longrightarrow> vset_ok (snd (VS_SetValidatorActive vid a now vs))"
  by (simp add: VS_SetValidatorActive_def upd_validator_ok split: option.split)

section \<open>Properties\<close>

text \<open>
  The total stake is the sum of the active validators' stakes whenever that sum fits 64 bits (in
  whatever order the map is met), and is that sum modulo \<open>2 ^ 64\<close> otherwise.
\<close>

theorem total_stake_sum:
  "unat (VS_GetTotalStake vs) =
     (\<Sum>v \<leftarrow> VS_GetActiveValidators vs. unat (vd_Stake (vs_heap vs v))) mod 2 ^ 64"
proof -
  have "sum_list (map (\<lambda>(vid, v). if vd_IsActive (vs_heap vs v) then unat (vd_Stake (vs_heap vs v)) else 0) m) =
      (\<Sum>v \<leftarrow> filter (\<lambda>v. vd_IsActive (vs_heap vs v)) (map snd m). unat (vd_Stake (vs_heap vs v)))" for m :: "(string, vref) gomap"
    by (induction m) auto
  then show ?thesis by (simp add: total_stake_nat VS_GetActiveValidators_def)
qed

text \<open>
  The validator set is a faithful registry. From a set whose validators are stored under their own
  identifiers: adding succeeds exactly for a new identifier, and the validator is then found; removing
  succeeds exactly for a stored identifier, which is then not found while every other lookup is
  unchanged; and both keep the set well formed.
\<close>

theorem validator_set_registry:
  assumes "vset_ok vs"
  shows "(fst (VS_AddValidator v vs) = None \<longleftrightarrow> VS_GetValidator (vd_ID (vs_heap vs v)) vs = None) \<and>
    (fst (VS_AddValidator v vs) = None \<longrightarrow>
       VS_GetValidator (vd_ID (vs_heap vs v)) (snd (VS_AddValidator v vs)) = Some v) \<and>
    (fst (VS_RemoveValidator vid vs) = None \<longleftrightarrow> VS_GetValidator vid vs \<noteq> None) \<and>
    VS_GetValidator vid (snd (VS_RemoveValidator vid vs)) = None \<and>
    (\<forall>other. other \<noteq> vid \<longrightarrow>
       VS_GetValidator other (snd (VS_RemoveValidator vid vs)) = VS_GetValidator other vs) \<and>
    vset_ok (snd (VS_AddValidator v vs)) \<and> vset_ok (snd (VS_RemoveValidator vid vs))"
  using vset.add_ok_iff [of v vs] vset.lookup_after_add [of v vs] vset_ok_add [OF assms, of v] vset_ok_remove [OF assms, of vid]
  by (simp add: VS_GetValidator_def VS_RemoveValidator_def)

theorem validator_set_registry_witness:
  "fst (VS_AddValidator 3 (NewValidatorSet (\<lambda>v. NewValidator ''A'' sample_key 5 0))) = None"
  using validator_set_registry [of "NewValidatorSet (\<lambda>v. NewValidator ''A'' sample_key 5 0)" 3]
  by (simp add: vset_ok_def NewValidatorSet_def VS_GetValidator_def)

end
