(* ===== verification/State_DB.thy ===== *)
theory State_DB
  imports Sinar_Prelude
begin

text \<open>
  \<open>state.go\<close>, first half: accounts, contracts, validators, delegation and governance, with the
  mutex of \<open>StateDB\<close>.

  Accounts are reached through the map only, so a pointer returned by \<open>GetAccount\<close> is written here as
  an update of the map. \<open>big.Int\<close> values are integers (the code copies them before it writes). The
  mutex is modelled call by call: \<open>GetAccount\<close> takes the read lock, and most writers hold the write
  lock when they call it. \<open>MemoryOptimizer\<close> is not part of the state.
\<close>

section \<open>State\<close>

record account =
  ac_Address :: address
  ac_Balance :: int
  ac_Nonce :: u64
  ac_Code :: "byte list"
  ac_CodeHash :: hash32
  ac_Storage :: "(hash32, hash32) gomap"
  ac_IsContract :: bool
  ac_Stake :: int
  ac_IsValidator :: bool
  ac_LastSeen :: u64

record contract =
  ct_Address :: address
  ct_Code :: "byte list"
  ct_Storage :: "(hash32, hash32) gomap"
  ct_Balance :: int
  ct_Nonce :: u64
  ct_Creator :: address
  ct_CreatedAt :: u64
  ct_UpdatedAt :: u64

record validator_state =
  vt_Address :: address
  vt_Stake :: int
  vt_IsActive :: bool
  vt_Commission :: u64
  vt_Delegators :: "(address, int) gomap"
  vt_TotalStake :: int
  vt_Rewards :: int
  vt_LastReward :: u64
  vt_LastSeen :: u64

datatype proposal_type = ProposalTypeText | ProposalTypeParameter | ProposalTypeUpgrade | ProposalTypeValidator

datatype vote_choice = VoteChoiceFor | VoteChoiceAgainst | VoteChoiceAbstain

record proposal =
  pr_ID :: u64
  pr_Title :: string
  pr_Description :: string
  pr_Creator :: address
  pr_Type :: proposal_type
  pr_Data :: "byte list"
  pr_StartTime :: u64
  pr_EndTime :: u64
  pr_Executed :: bool
  pr_VotesFor :: int
  pr_VotesAgainst :: int
  pr_TotalVotes :: int

record state_vote =
  sv_Voter :: address
  sv_Proposal :: u64
  sv_Choice :: vote_choice
  sv_Stake :: int
  sv_Time :: u64

text \<open>A finite \<open>big.Float\<close>: \<open>m * 2 ^ e\<close>. The token's creation time, a display value, is left out.\<close>

record big_float =
  bf_mantissa :: int
  bf_exponent :: int

record sinar_token =
  tk_Symbol :: string
  tk_Decimals :: nat
  tk_TotalSupply :: int
  tk_CurrentSupply :: int
  tk_Price :: big_float
  tk_Creator :: address

record state_db =
  sd_mu :: rwmutex
  sd_accounts :: "(address, account) gomap"
  sd_contracts :: "(address, contract) gomap"
  sd_validators :: "(address, validator_state) gomap"
  sd_stakes :: "(address, int) gomap"
  sd_delegations :: "(address, (address, int) gomap) gomap"
  sd_proposals :: "(u64, proposal) gomap"
  sd_votes :: "(u64, (address, state_vote) gomap) gomap"
  sd_sinarToken :: sinar_token
  sd_stateRootCache :: hash32
  sd_stateRootDirty :: bool
  sd_MinStake :: int

definition SINAR_TOTAL_SUPPLY :: int where
  "SINAR_TOTAL_SUPPLY = 1000000000000000000000000000"

text \<open>\<open>SetString("0.01")\<close> rounds to the 64 bits of precision that a new \<open>big.Float\<close> gets.\<close>

definition SINAR_INITIAL_PRICE :: big_float where
  "SINAR_INITIAL_PRICE = \<lparr>bf_mantissa = 11805916207174113034, bf_exponent = - 70\<rparr>"

definition NewSINARToken :: sinar_token where
  "NewSINARToken = \<lparr>tk_Symbol = ''SINAR'', tk_Decimals = 18, tk_TotalSupply = SINAR_TOTAL_SUPPLY,
     tk_CurrentSupply = 0, tk_Price = SINAR_INITIAL_PRICE, tk_Creator = 0\<rparr>"

lemma NewSINARToken_fields [simp]:
  "tk_TotalSupply NewSINARToken = SINAR_TOTAL_SUPPLY" "tk_CurrentSupply NewSINARToken = 0"
  by (simp_all add: NewSINARToken_def)

definition NewStateDB :: state_db where
  "NewStateDB = \<lparr>sd_mu = unlocked, sd_accounts = [], sd_contracts = [], sd_validators = [], sd_stakes = [],
     sd_delegations = [], sd_proposals = [], sd_votes = [],
     sd_sinarToken = NewSINARToken,
     sd_stateRootCache = 0, sd_stateRootDirty = True, sd_MinStake = 1000000\<rparr>"

definition set_sd_mu :: "rwmutex \<Rightarrow> state_db \<Rightarrow> state_db" where
  "set_sd_mu m s = s\<lparr>sd_mu := m\<rparr>"

interpretation sd_mutex: mutex_field sd_mu set_sd_mu
  by unfold_locales (simp_all add: set_sd_mu_def)

section \<open>Accounts\<close>

definition new_account :: "address \<Rightarrow> account" where
  "new_account a = \<lparr>ac_Address = a, ac_Balance = 0, ac_Nonce = 0, ac_Code = [], ac_CodeHash = 0,
     ac_Storage = [], ac_IsContract = False, ac_Stake = 0, ac_IsValidator = False, ac_LastSeen = 0\<rparr>"

definition account_of :: "address \<Rightarrow> state_db \<Rightarrow> account" where
  "account_of a s = (case go_get (sd_accounts s) a of Some acc \<Rightarrow> acc | None \<Rightarrow> new_account a)"

definition with_account :: "address \<Rightarrow> state_db \<Rightarrow> state_db" where
  "with_account a s = (if go_has (sd_accounts s) a then s
     else s\<lparr>sd_accounts := go_put a (new_account a) (sd_accounts s)\<rparr>)"

definition SD_GetAccount :: "address \<Rightarrow> state_db \<Rightarrow> (account \<times> state_db) outcome" where
  "SD_GetAccount a = with_RLock sd_mu set_sd_mu (\<lambda>s. Returns (account_of a s, with_account a s))"

text \<open>A write through the pointer \<open>GetAccount\<close> returned, and \<open>markStateRootDirty\<close>.\<close>

definition upd_account :: "address \<Rightarrow> (account \<Rightarrow> account) \<Rightarrow> state_db \<Rightarrow> state_db" where
  "upd_account a f s = s\<lparr>sd_accounts := go_put a (f (account_of a s)) (sd_accounts s)\<rparr>"

definition markStateRootDirty :: "state_db \<Rightarrow> state_db" where
  "markStateRootDirty s = s\<lparr>sd_stateRootDirty := True\<rparr>"

text \<open>\<open>Lock; account := GetAccount(a); account.field = ...; markStateRootDirty\<close>\<close>

definition locked_account_write ::
  "address \<Rightarrow> (account \<Rightarrow> account) \<Rightarrow> state_db \<Rightarrow> (unit \<times> state_db) outcome" where
  "locked_account_write a f = with_Lock sd_mu set_sd_mu (\<lambda>s.
     and_then (SD_GetAccount a s) (\<lambda>(_, s1). Returns ((), markStateRootDirty (upd_account a f s1))))"

definition SD_SetBalance :: "address \<Rightarrow> int \<Rightarrow> state_db \<Rightarrow> (unit \<times> state_db) outcome" where
  "SD_SetBalance a balance = locked_account_write a (\<lambda>acc. acc\<lparr>ac_Balance := balance\<rparr>)"

definition SD_GetBalance :: "address \<Rightarrow> state_db \<Rightarrow> (int \<times> state_db) outcome" where
  "SD_GetBalance a s = and_then (SD_GetAccount a s) (\<lambda>(acc, s'). Returns (ac_Balance acc, s'))"

definition SD_SetNonce :: "address \<Rightarrow> u64 \<Rightarrow> state_db \<Rightarrow> (unit \<times> state_db) outcome" where
  "SD_SetNonce a nonce = locked_account_write a (\<lambda>acc. acc\<lparr>ac_Nonce := nonce\<rparr>)"

definition SD_GetNonce :: "address \<Rightarrow> state_db \<Rightarrow> (u64 \<times> state_db) outcome" where
  "SD_GetNonce a s = and_then (SD_GetAccount a s) (\<lambda>(acc, s'). Returns (ac_Nonce acc, s'))"

definition SD_SetCode ::
  "(byte list \<Rightarrow> hash32) \<Rightarrow> address \<Rightarrow> byte list \<Rightarrow> state_db \<Rightarrow> (unit \<times> state_db) outcome" where
  "SD_SetCode keccakHash a code = locked_account_write a (\<lambda>acc.
     acc\<lparr>ac_Code := code, ac_CodeHash := keccakHash code, ac_IsContract := (length code > 0)\<rparr>)"

definition SD_GetCode :: "address \<Rightarrow> state_db \<Rightarrow> (byte list \<times> state_db) outcome" where
  "SD_GetCode a s = and_then (SD_GetAccount a s) (\<lambda>(acc, s'). Returns (ac_Code acc, s'))"

definition SD_SetStorage :: "address \<Rightarrow> hash32 \<Rightarrow> hash32 \<Rightarrow> state_db \<Rightarrow> (unit \<times> state_db) outcome" where
  "SD_SetStorage a k v = locked_account_write a (\<lambda>acc. acc\<lparr>ac_Storage := go_put k v (ac_Storage acc)\<rparr>)"

definition SD_GetStorage :: "address \<Rightarrow> hash32 \<Rightarrow> state_db \<Rightarrow> (hash32 \<times> state_db) outcome" where
  "SD_GetStorage a k s = and_then (SD_GetAccount a s) (\<lambda>(acc, s').
     Returns (case go_get (ac_Storage acc) k of Some v \<Rightarrow> v | None \<Rightarrow> 0, s'))"

section \<open>Contracts and validators\<close>

definition SD_CreateContract ::
  "(byte list \<Rightarrow> hash32) \<Rightarrow> address \<Rightarrow> byte list \<Rightarrow> address \<Rightarrow> u64 \<Rightarrow> state_db \<Rightarrow> (string option \<times> state_db) outcome" where
  "SD_CreateContract keccakHash a code creator blockNumber = with_Lock sd_mu set_sd_mu (\<lambda>s.
     and_then (SD_SetCode keccakHash a code s) (\<lambda>(_, s1).
     Returns (None, markStateRootDirty (s1\<lparr>sd_contracts := go_put a
       \<lparr>ct_Address = a, ct_Code = code, ct_Storage = [], ct_Balance = 0, ct_Nonce = 0, ct_Creator = creator,
        ct_CreatedAt = blockNumber, ct_UpdatedAt = blockNumber\<rparr> (sd_contracts s1)\<rparr>))))"

definition SD_GetContract :: "address \<Rightarrow> state_db \<Rightarrow> (contract option \<times> state_db) outcome" where
  "SD_GetContract a = with_RLock sd_mu set_sd_mu (\<lambda>s. Returns (go_get (sd_contracts s) a, s))"

definition SD_AddValidator ::
  "address \<Rightarrow> int \<Rightarrow> u64 \<Rightarrow> state_db \<Rightarrow> (string option \<times> state_db) outcome" where
  "SD_AddValidator a stake commission = with_Lock sd_mu set_sd_mu (\<lambda>s.
     if stake < sd_MinStake s then Returns (Some ''insufficient stake'', s)
     else and_then (SD_GetAccount a s) (\<lambda>(_, s1).
       let s2 = upd_account a (\<lambda>acc. acc\<lparr>ac_IsValidator := True, ac_Stake := stake\<rparr>) s1 in
       Returns (None, markStateRootDirty (s2\<lparr>
         sd_validators := go_put a \<lparr>vt_Address = a, vt_Stake = stake, vt_IsActive = True,
           vt_Commission = commission, vt_Delegators = [], vt_TotalStake = stake, vt_Rewards = 0,
           vt_LastReward = 0, vt_LastSeen = 0\<rparr> (sd_validators s2),
         sd_stakes := go_put a stake (sd_stakes s2)\<rparr>))))"

definition SD_RemoveValidator :: "address \<Rightarrow> state_db \<Rightarrow> (string option \<times> state_db) outcome" where
  "SD_RemoveValidator a = with_Lock sd_mu set_sd_mu (\<lambda>s.
     and_then (SD_GetAccount a s) (\<lambda>(_, s1).
       let s2 = upd_account a (\<lambda>acc. acc\<lparr>ac_IsValidator := False\<rparr>) s1 in
       Returns (None, markStateRootDirty (s2\<lparr>sd_validators := go_del a (sd_validators s2),
         sd_stakes := go_del a (sd_stakes s2)\<rparr>))))"

definition SD_GetValidator :: "address \<Rightarrow> state_db \<Rightarrow> (validator_state option \<times> state_db) outcome" where
  "SD_GetValidator a = with_RLock sd_mu set_sd_mu (\<lambda>s. Returns (go_get (sd_validators s) a, s))"

definition SD_GetTotalStake :: "state_db \<Rightarrow> (int \<times> state_db) outcome" where
  "SD_GetTotalStake = with_RLock sd_mu set_sd_mu (\<lambda>s.
     Returns (fold (\<lambda>(a, v) total. if vt_IsActive v then total + vt_Stake v else total) (sd_validators s) 0, s))"

definition go_get_or :: "'v \<Rightarrow> ('k, 'v) gomap \<Rightarrow> 'k \<Rightarrow> 'v" where
  "go_get_or v m k = (case go_get m k of Some x \<Rightarrow> x | None \<Rightarrow> v)"

definition SD_Delegate ::
  "address \<Rightarrow> address \<Rightarrow> int \<Rightarrow> state_db \<Rightarrow> (string option \<times> state_db) outcome" where
  "SD_Delegate delegator validator amount = with_Lock sd_mu set_sd_mu (\<lambda>s.
     case go_get (sd_validators s) validator of
       None \<Rightarrow> Returns (Some ''validator not found or inactive'', s)
     | Some valState \<Rightarrow>
         if \<not> vt_IsActive valState then Returns (Some ''validator not found or inactive'', s)
         else and_then (SD_GetAccount delegator s) (\<lambda>(acc, s1).
           if ac_Balance acc < amount then Returns (Some ''insufficient balance'', s1)
           else
             let s2 = upd_account delegator (\<lambda>c. c\<lparr>ac_Balance := ac_Balance c - amount\<rparr>) s1;
                 v1 = valState\<lparr>vt_Delegators := go_put delegator
                        (go_get_or 0 (vt_Delegators valState) delegator + amount) (vt_Delegators valState),
                      vt_TotalStake := vt_TotalStake valState + amount\<rparr>;
                 mine = go_get_or [] (sd_delegations s2) delegator
             in Returns (None, markStateRootDirty (s2\<lparr>sd_validators := go_put validator v1 (sd_validators s2),
                  sd_delegations := go_put delegator (go_put validator amount mine) (sd_delegations s2)\<rparr>))))"

definition SD_Undelegate ::
  "address \<Rightarrow> address \<Rightarrow> int \<Rightarrow> state_db \<Rightarrow> (string option \<times> state_db) outcome" where
  "SD_Undelegate delegator validator amount = with_Lock sd_mu set_sd_mu (\<lambda>s.
     case go_get (sd_validators s) validator of
       None \<Rightarrow> Returns (Some ''validator not found'', s)
     | Some valState \<Rightarrow>
         (case go_get (vt_Delegators valState) delegator of
            None \<Rightarrow> Returns (Some ''insufficient delegation'', s)
          | Some delegation \<Rightarrow>
              if delegation < amount then Returns (Some ''insufficient delegation'', s)
              else
                let left = delegation - amount;
                    v1 = valState\<lparr>vt_Delegators := (if left = 0 then go_del delegator (vt_Delegators valState)
                            else go_put delegator left (vt_Delegators valState)),
                          vt_TotalStake := vt_TotalStake valState - amount\<rparr>;
                    s1 = s\<lparr>sd_validators := go_put validator v1 (sd_validators s)\<rparr>
                in and_then (SD_GetAccount delegator s1) (\<lambda>(_, s2).
                     Returns (None, markStateRootDirty
                       (upd_account delegator (\<lambda>c. c\<lparr>ac_Balance := ac_Balance c + amount\<rparr>) s2)))))"

section \<open>Governance\<close>

definition SD_CreateProposal ::
  "u64 \<Rightarrow> string \<Rightarrow> string \<Rightarrow> address \<Rightarrow> proposal_type \<Rightarrow> byte list \<Rightarrow> u64 \<Rightarrow> u64 \<Rightarrow> state_db \<Rightarrow>
   (string option \<times> state_db) outcome" where
  "SD_CreateProposal pid title description creator proposalType data startTime endTime =
     with_Lock sd_mu set_sd_mu (\<lambda>s.
       Returns (None, markStateRootDirty (s\<lparr>
         sd_proposals := go_put pid \<lparr>pr_ID = pid, pr_Title = title, pr_Description = description,
           pr_Creator = creator, pr_Type = proposalType, pr_Data = data, pr_StartTime = startTime,
           pr_EndTime = endTime, pr_Executed = False, pr_VotesFor = 0, pr_VotesAgainst = 0, pr_TotalVotes = 0\<rparr>
           (sd_proposals s),
         sd_votes := go_put pid [] (sd_votes s)\<rparr>)))"

definition tally :: "vote_choice \<Rightarrow> int \<Rightarrow> proposal \<Rightarrow> proposal" where
  "tally choice stake pr =
     (case choice of
        VoteChoiceFor \<Rightarrow> pr\<lparr>pr_VotesFor := pr_VotesFor pr + stake, pr_TotalVotes := pr_TotalVotes pr + stake\<rparr>
      | VoteChoiceAgainst \<Rightarrow> pr\<lparr>pr_VotesAgainst := pr_VotesAgainst pr + stake, pr_TotalVotes := pr_TotalVotes pr + stake\<rparr>
      | VoteChoiceAbstain \<Rightarrow> pr\<lparr>pr_TotalVotes := pr_TotalVotes pr + stake\<rparr>)"

text \<open>A write to the inner map of a proposal without one is a write to a nil map: a panic.\<close>

definition SD_Vote ::
  "u64 \<Rightarrow> address \<Rightarrow> vote_choice \<Rightarrow> int \<Rightarrow> u64 \<Rightarrow> state_db \<Rightarrow> (string option \<times> state_db) outcome" where
  "SD_Vote proposalID voter choice stake time = with_Lock sd_mu set_sd_mu (\<lambda>s.
     case go_get (sd_proposals s) proposalID of
       None \<Rightarrow> Returns (Some ''proposal not found'', s)
     | Some proposal \<Rightarrow>
         if time < pr_StartTime proposal \<or> time > pr_EndTime proposal
         then Returns (Some ''voting period not active'', s)
         else
           (case go_get (sd_votes s) proposalID of
              None \<Rightarrow> Panics
            | Some vs \<Rightarrow>
                Returns (None, markStateRootDirty (s\<lparr>
                  sd_votes := go_put proposalID (go_put voter \<lparr>sv_Voter = voter, sv_Proposal = proposalID,
                    sv_Choice = choice, sv_Stake = stake, sv_Time = time\<rparr> vs) (sd_votes s),
                  sd_proposals := go_put proposalID (tally choice stake proposal) (sd_proposals s)\<rparr>))))"

definition SD_GetProposal :: "u64 \<Rightarrow> state_db \<Rightarrow> (proposal option \<times> state_db) outcome" where
  "SD_GetProposal pid = with_RLock sd_mu set_sd_mu (\<lambda>s. Returns (go_get (sd_proposals s) pid, s))"

section \<open>The state root\<close>

text \<open>
  Each entry is put into a \<open>map[string]interface\{\}\<close> and handed to the RLP encoder; an encoding error is
  dropped, leaving no bytes.
\<close>

datatype state_item =
  Item_account address account
| Item_validator address validator_state
| Item_contract address contract
| Item_proposal u64 proposal

record root_crypto =
  rlp_map :: "state_item \<Rightarrow> byte list option"
  sha256 :: "byte list \<Rightarrow> hash32"

definition SD_calculateStateRoot :: "root_crypto \<Rightarrow> state_db \<Rightarrow> hash32" where
  "SD_calculateStateRoot x s =
     (let stateData = map (\<lambda>(a, acc). Item_account a acc) (sd_accounts s) @
            map (\<lambda>(a, v). Item_validator a v) (sd_validators s) @
            map (\<lambda>(a, c). Item_contract a c) (sd_contracts s) @
            map (\<lambda>(i, pr). Item_proposal i pr) (sd_proposals s)
      in sha256 x (concat (map (\<lambda>d. case_option [] id (rlp_map x d)) stateData)))"

definition SD_IntermediateRoot :: "root_crypto \<Rightarrow> bool \<Rightarrow> state_db \<Rightarrow> (hash32 \<times> state_db) outcome" where
  "SD_IntermediateRoot x commit = with_Lock sd_mu set_sd_mu (\<lambda>s.
     if \<not> sd_stateRootDirty s \<and> sd_stateRootCache s \<noteq> 0 then Returns (sd_stateRootCache s, s)
     else let stateRoot = SD_calculateStateRoot x s in
       Returns (stateRoot, if commit then s\<lparr>sd_stateRootCache := stateRoot, sd_stateRootDirty := False\<rparr> else s))"

definition SD_Commit :: "state_db \<Rightarrow> (string option \<times> state_db) outcome" where
  "SD_Commit = with_Lock sd_mu set_sd_mu (\<lambda>s. Returns (None, s\<lparr>sd_stateRootDirty := True\<rparr>))"

section \<open>Lemmas\<close>

lemma set_sd_mu_fields [simp]:
  "sd_accounts (set_sd_mu m s) = sd_accounts s" "sd_validators (set_sd_mu m s) = sd_validators s"
  "sd_proposals (set_sd_mu m s) = sd_proposals s" "sd_votes (set_sd_mu m s) = sd_votes s"
  "sd_sinarToken (set_sd_mu m s) = sd_sinarToken s" "sd_stateRootDirty (set_sd_mu m s) = sd_stateRootDirty s"
  "sd_stateRootCache (set_sd_mu m s) = sd_stateRootCache s" "sd_MinStake (set_sd_mu m s) = sd_MinStake s"
  "sd_contracts (set_sd_mu m s) = sd_contracts s"
  by (simp_all add: set_sd_mu_def)

lemma markDirty_fields [simp]:
  "sd_mu (markStateRootDirty s) = sd_mu s" "sd_validators (markStateRootDirty s) = sd_validators s"
  "sd_proposals (markStateRootDirty s) = sd_proposals s" "sd_votes (markStateRootDirty s) = sd_votes s"
  "sd_accounts (markStateRootDirty s) = sd_accounts s"
  by (simp_all add: markStateRootDirty_def)

lemma GetAccount_held: "rw_writer (sd_mu s) \<Longrightarrow> SD_GetAccount a s = Blocks"
  by (simp add: SD_GetAccount_def sd_mutex.RLock_under_write)

lemma GetAccount_free:
  assumes "sd_mu s = unlocked"
  shows "SD_GetAccount a s = Returns (account_of a s, with_account a s)"
  using assms
  by (simp add: SD_GetAccount_def with_RLock_def rw_RLock_def rw_RUnlock_def unlocked_def with_account_def
      account_of_def set_sd_mu_def)

lemma locked_account_write_blocks: "locked_account_write a f s = Blocks"
  unfolding locked_account_write_def
  by (rule sd_mutex.Lock_then_blocks) (simp add: GetAccount_held)

lemma CreateContract_blocks: "SD_CreateContract k a code c n s = Blocks"
  unfolding SD_CreateContract_def
  by (rule sd_mutex.Lock_then_blocks) (simp add: SD_SetCode_def locked_account_write_blocks)

lemma RemoveValidator_blocks: "SD_RemoveValidator a s = Blocks"
  unfolding SD_RemoveValidator_def
  by (rule sd_mutex.Lock_then_blocks) (simp add: GetAccount_held)

text \<open>A locked section over a free mutex that returns is its body.\<close>

lemma locked_free:
  assumes "sd_mu s = unlocked" and "body (set_sd_mu (unlocked\<lparr>rw_writer := True\<rparr>) s) = Returns (r, s')"
    and "sd_mu s' = unlocked\<lparr>rw_writer := True\<rparr>"
  shows "with_Lock sd_mu set_sd_mu body s = Returns (r, set_sd_mu unlocked s')"
  using assms by (rule sd_mutex.Lock_returns)

lemma AddValidator_free:
  assumes "sd_mu s = unlocked"
  shows "SD_AddValidator a stake c s =
    (if stake < sd_MinStake s then Returns (Some ''insufficient stake'', s) else Blocks)"
  using assms
  by (simp add: SD_AddValidator_def with_Lock_def rw_Lock_def rw_Unlock_def GetAccount_held unlocked_def)
     (metis sd_mutex.set_mu_same)

lemma Delegate_no_validator:
  assumes "sd_mu s = unlocked" and "go_get (sd_validators s) v = None"
  shows "SD_Delegate d v n s = Returns (Some ''validator not found or inactive'', s)"
  using assms
  by (simp add: SD_Delegate_def with_Lock_def rw_Lock_def rw_Unlock_def unlocked_def)
     (metis sd_mutex.set_mu_same)

lemma Undelegate_no_validator:
  assumes "sd_mu s = unlocked" and "go_get (sd_validators s) v = None"
  shows "SD_Undelegate d v n s = Returns (Some ''validator not found'', s)"
  using assms
  by (simp add: SD_Undelegate_def with_Lock_def rw_Lock_def rw_Unlock_def unlocked_def)
     (metis sd_mutex.set_mu_same)

lemma Vote_free:
  assumes "sd_mu s = unlocked"
  shows "SD_Vote pid voter choice stake time s =
    (case go_get (sd_proposals s) pid of
       None \<Rightarrow> Returns (Some ''proposal not found'', s)
     | Some pr \<Rightarrow>
         if time < pr_StartTime pr \<or> time > pr_EndTime pr then Returns (Some ''voting period not active'', s)
         else (case go_get (sd_votes s) pid of
              None \<Rightarrow> Panics
            | Some vs \<Rightarrow> Returns (None, markStateRootDirty (s\<lparr>
                  sd_votes := go_put pid (go_put voter \<lparr>sv_Voter = voter, sv_Proposal = pid,
                    sv_Choice = choice, sv_Stake = stake, sv_Time = time\<rparr> vs) (sd_votes s),
                  sd_proposals := go_put pid (tally choice stake pr) (sd_proposals s)\<rparr>))))"
proof -
  have same: "s\<lparr>sd_mu := unlocked\<rparr> = s" using assms by simp
  show ?thesis using assms same
    by (simp add: SD_Vote_def with_Lock_def rw_Lock_def rw_Unlock_def unlocked_def set_sd_mu_def
        markStateRootDirty_def split: option.split)
qed

section \<open>Properties\<close>

text \<open>
  C35. The writers of the account state never return. \<open>SetBalance\<close>, \<open>SetNonce\<close>, \<open>SetCode\<close>, \<open>SetStorage\<close>,
  \<open>CreateContract\<close> and \<open>RemoveValidator\<close> block for ever in every state, and \<open>AddValidator\<close> does unless it
  rejects the stake: each holds the write lock and calls \<open>GetAccount\<close> (or a writer), which asks for
  the same mutex.
\<close>

theorem statedb_writers_deadlock:
  assumes "sd_mu s = unlocked"
  shows "SD_SetBalance a v s = Blocks \<and> SD_SetNonce a n s = Blocks \<and> SD_SetCode k a code s = Blocks \<and>
    SD_SetStorage a key val s = Blocks \<and> SD_CreateContract k a code creator n s = Blocks \<and>
    SD_RemoveValidator a s = Blocks \<and>
    SD_AddValidator a stake c s =
      (if stake < sd_MinStake s then Returns (Some ''insufficient stake'', s) else Blocks)"
  by (simp add: SD_SetBalance_def SD_SetNonce_def SD_SetCode_def SD_SetStorage_def locked_account_write_blocks
      CreateContract_blocks RemoveValidator_blocks AddValidator_free [OF assms])

theorem statedb_writers_deadlock_witness: "SD_SetBalance 7 100 NewStateDB = Blocks"
  using statedb_writers_deadlock [of NewStateDB 7 100] by (simp add: NewStateDB_def)

text \<open>
  A voter counts as often as it votes. Two votes for a running proposal by the same voter both return
  without error; the record keeps only the second, and both stakes are in the tally. (Nor is the
  stake compared with anything the voter owns.)
\<close>

theorem double_vote_counts_twice:
  assumes "sd_mu s = unlocked" and "go_get (sd_proposals s) pid = Some pr" and "go_get (sd_votes s) pid = Some vs"
    and "pr_StartTime pr \<le> t1" "t1 \<le> t2" "t2 \<le> pr_EndTime pr"
  shows "\<exists>s1 s2 pr2. SD_Vote pid voter VoteChoiceFor n1 t1 s = Returns (None, s1) \<and>
    SD_Vote pid voter VoteChoiceFor n2 t2 s1 = Returns (None, s2) \<and>
    go_get (sd_proposals s2) pid = Some pr2 \<and> pr_VotesFor pr2 = pr_VotesFor pr + n1 + n2 \<and>
    pr_TotalVotes pr2 = pr_TotalVotes pr + n1 + n2 \<and>
    (\<exists>vs2. go_get (sd_votes s2) pid = Some vs2 \<and> length vs2 \<le> Suc (length vs) \<and>
       map_option sv_Stake (go_get vs2 voter) = Some n2)"
proof -
  have t: "\<not> (t1 < pr_StartTime pr \<or> t1 > pr_EndTime pr)" "\<not> (t2 < pr_StartTime pr \<or> t2 > pr_EndTime pr)"
    using assms(4-6) by auto
  let ?v = "\<lambda>n t. \<lparr>sv_Voter = voter, sv_Proposal = pid, sv_Choice = VoteChoiceFor, sv_Stake = n, sv_Time = t\<rparr>"
  define s1 where "s1 = markStateRootDirty (s\<lparr>sd_votes := go_put pid (go_put voter (?v n1 t1) vs) (sd_votes s),
    sd_proposals := go_put pid (tally VoteChoiceFor n1 pr) (sd_proposals s)\<rparr>)"
  have r1: "SD_Vote pid voter VoteChoiceFor n1 t1 s = Returns (None, s1)"
    using assms(2,3) t(1) by (simp add: Vote_free [OF assms(1)] s1_def)
  have m1: "sd_mu s1 = unlocked" using assms(1) by (simp add: s1_def)
  define s2 where "s2 = markStateRootDirty (s1\<lparr>
    sd_votes := go_put pid (go_put voter (?v n2 t2) (go_put voter (?v n1 t1) vs)) (sd_votes s1),
    sd_proposals := go_put pid (tally VoteChoiceFor n2 (tally VoteChoiceFor n1 pr)) (sd_proposals s1)\<rparr>)"
  have g1: "go_get (sd_proposals s1) pid = Some (tally VoteChoiceFor n1 pr)"
    "go_get (sd_votes s1) pid = Some (go_put voter (?v n1 t1) vs)" by (simp_all add: s1_def)
  have w: "pr_StartTime (tally VoteChoiceFor n1 pr) = pr_StartTime pr" "pr_EndTime (tally VoteChoiceFor n1 pr) = pr_EndTime pr"
    by (simp_all add: tally_def)
  have r2: "SD_Vote pid voter VoteChoiceFor n2 t2 s1 = Returns (None, s2)"
    using g1 t(2) by (simp add: Vote_free [OF m1] s2_def w)
  have len: "length (go_put voter (?v n2 t2) (go_put voter (?v n1 t1) vs)) \<le> Suc (length vs)"
    by (simp add: length_go_put)
  show ?thesis
    by (intro exI [of _ s1] exI [of _ s2] exI [of _ "tally VoteChoiceFor n2 (tally VoteChoiceFor n1 pr)"] conjI r1 r2
        exI [of _ "go_put voter (?v n2 t2) (go_put voter (?v n1 t1) vs)"] len)
       (simp_all add: s2_def tally_def)
qed

definition voting_db :: state_db where
  "voting_db = NewStateDB\<lparr>sd_proposals := [(1, \<lparr>pr_ID = 1, pr_Title = [], pr_Description = [], pr_Creator = 0,
     pr_Type = ProposalTypeText, pr_Data = [], pr_StartTime = 10, pr_EndTime = 20, pr_Executed = False,
     pr_VotesFor = 0, pr_VotesAgainst = 0, pr_TotalVotes = 0\<rparr>)], sd_votes := [(1, [])]\<rparr>"

theorem double_vote_counts_twice_witness:
  "\<exists>s1 s2 pr2. SD_Vote 1 7 VoteChoiceFor 5 11 voting_db = Returns (None, s1) \<and>
     SD_Vote 1 7 VoteChoiceFor 6 12 s1 = Returns (None, s2) \<and>
     go_get (sd_proposals s2) 1 = Some pr2 \<and> pr_VotesFor pr2 = 11"
  using double_vote_counts_twice [of voting_db 1 _ "[]" 11 12 7 5 6]
  by (simp add: voting_db_def NewStateDB_def) blast

text \<open>
  The state root says nothing about the state: the RLP encoder does not support maps, the error is
  dropped, and every state that has no cached root yields the hash of the empty string. (The
  hypothesis is go-ethereum's documented behaviour: maps cannot be encoded.)
\<close>

theorem state_root_constant:
  assumes "\<forall>d. rlp_map x d = None" and "sd_mu s = unlocked" and "sd_stateRootDirty s \<or> sd_stateRootCache s = 0"
  shows "\<exists>s'. SD_IntermediateRoot x commit s = Returns (sha256 x [], s')"
proof -
  let ?m = "unlocked\<lparr>rw_writer := True\<rparr>"
  have "concat (map (\<lambda>d. case_option [] id (rlp_map x d)) ds) = []" for ds
    using assms(1) by (induction ds) simp_all
  then have root: "SD_calculateStateRoot x t = sha256 x []" for t
    by (simp only: SD_calculateStateRoot_def Let_def)
  let ?s' = "if commit then (set_sd_mu ?m s)\<lparr>sd_stateRootCache := sha256 x [], sd_stateRootDirty := False\<rparr>
    else set_sd_mu ?m s"
  have "SD_IntermediateRoot x commit s = Returns (sha256 x [], set_sd_mu unlocked ?s')"
    unfolding SD_IntermediateRoot_def
    by (rule locked_free [OF assms(2)]) (use assms(3) root in \<open>auto simp: Let_def set_sd_mu_def\<close>)
  then show ?thesis by blast
qed

theorem state_root_constant_witness:
  "\<exists>s'. SD_IntermediateRoot \<lparr>rlp_map = \<lambda>_. None, sha256 = (\<lambda>bs. of_nat (length bs) + 99)\<rparr> True
     (NewStateDB\<lparr>sd_accounts := [(7, (new_account 7)\<lparr>ac_Balance := 100\<rparr>)]\<rparr>) = Returns (99, s')"
  using state_root_constant [of "\<lparr>rlp_map = \<lambda>_. None, sha256 = (\<lambda>bs. of_nat (length bs) + 99)\<rparr>"
      "NewStateDB\<lparr>sd_accounts := [(7, (new_account 7)\<lparr>ac_Balance := 100\<rparr>)]\<rparr>" True]
  by (simp add: NewStateDB_def)

end
