(* ===== verification/Ledger.thy ===== *)
theory Ledger
  imports Sinar_Prelude
begin

text \<open>
  The interface of a ledger: balances by address, one write, and the sum of all balances. What a
  transfer, or a distribution to a list of wallets, does to the sum is proved once here.
\<close>

locale ledger =
  fixes ok :: "'s \<Rightarrow> bool"
    and bal :: "'a \<Rightarrow> 's \<Rightarrow> int"
    and put :: "'a \<Rightarrow> int \<Rightarrow> 's \<Rightarrow> 's"
    and tot :: "'s \<Rightarrow> int"
  assumes bal_put [simp]: "bal b (put a v s) = (if b = a then v else bal b s)"
    and supply_put: "ok s \<Longrightarrow> tot (put a v s) = tot s - bal a s + v"
    and ok_put [simp]: "ok s \<Longrightarrow> ok (put a v s)"
begin

lemma transfer_supply:
  "ok s \<Longrightarrow> tot (put b (bal b (put a (bal a s - n) s) + n) (put a (bal a s - n) s)) = tot s"
  by (simp add: supply_put)

lemma transfer_balances:
  "a \<noteq> b \<Longrightarrow> bal c (put b (bal b (put a (bal a s - n) s) + n) (put a (bal a s - n) s)) =
     (if c = a then bal a s - n else if c = b then bal b s + n else bal c s)"
  by simp

lemma self_transfer_balances:
  "bal c (put a (bal a (put a (bal a s - n) s) + n) (put a (bal a s - n) s)) = bal c s"
  by simp

lemma fold_put_ok: "ok s \<Longrightarrow> ok (fold (\<lambda>(w, v). put w v) ps s)"
  by (induction ps arbitrary: s) auto

lemma fold_put_bal:
  "distinct (map fst ps) \<Longrightarrow> bal a (fold (\<lambda>(w, v). put w v) ps s) =
     (case map_of ps a of Some v \<Rightarrow> v | None \<Rightarrow> bal a s)"
proof (induction ps arbitrary: s)
  case Nil
  then show ?case by simp
next
  case (Cons p ps)
  then show ?case by (cases p) (auto simp: map_of_eq_None_iff [symmetric] split: option.split)
qed

lemma fold_put_supply:
  assumes "ok s" and "distinct (map fst ps)"
  shows "tot (fold (\<lambda>(w, v). put w v) ps s) =
    tot s - sum_list (map (\<lambda>(w, v). bal w s) ps) + sum_list (map snd ps)"
  using assms
proof (induction ps arbitrary: s)
  case Nil
  then show ?case by simp
next
  case (Cons p ps)
  obtain w v where p: "p = (w, v)" by (cases p)
  have same: "sum_list (map (\<lambda>(w', v'). bal w' (put w v s)) ps) = sum_list (map (\<lambda>(w', v'). bal w' s) ps)"
    using Cons.prems(2) p by (intro arg_cong [where f = sum_list] map_cong refl) force
  show ?case using Cons.IH [of "put w v s"] Cons.prems same by (simp add: p supply_put del: bal_put)
qed

end

end
