(* ===== verification/Sinar_Token.thy ===== *)
theory Sinar_Token
  imports State_DB Ledger
begin

text \<open>
  \<open>state.go\<close>, second half: the native token. Balances are the account balances; \<open>TotalSupply\<close> is the
  cap, \<open>CurrentSupply\<close> a counter that \<open>SetSINARBalance\<close> recomputes as the sum of all balances
  and \<open>MintSINAR\<close> and \<open>BurnSINAR\<close> then write again. None of these operations takes the write
  lock: each \<open>GetAccount\<close> takes and releases the read lock.
\<close>

section \<open>Operations\<close>

definition SN_GetSINARBalance :: "address \<Rightarrow> state_db \<Rightarrow> (int \<times> state_db) outcome" where
  "SN_GetSINARBalance a s = and_then (SD_GetAccount a s) (\<lambda>(acc, s'). Returns (ac_Balance acc, s'))"

definition SN_calculateTotalSINARSupply :: "state_db \<Rightarrow> int" where
  "SN_calculateTotalSINARSupply s = sum_list (map (ac_Balance \<circ> snd) (sd_accounts s))"

definition set_CurrentSupply :: "int \<Rightarrow> state_db \<Rightarrow> state_db" where
  "set_CurrentSupply n s = s\<lparr>sd_sinarToken := (sd_sinarToken s)\<lparr>tk_CurrentSupply := n\<rparr>\<rparr>"

definition SN_SetSINARBalance :: "address \<Rightarrow> int \<Rightarrow> state_db \<Rightarrow> (unit \<times> state_db) outcome" where
  "SN_SetSINARBalance a balance s =
     and_then (SD_GetAccount a s) (\<lambda>(_, s1).
       let s2 = upd_account a (\<lambda>acc. acc\<lparr>ac_Balance := balance\<rparr>) s1
       in Returns ((), set_CurrentSupply (SN_calculateTotalSINARSupply s2) s2))"

definition SN_TransferSINAR ::
  "address \<Rightarrow> address \<Rightarrow> int \<Rightarrow> state_db \<Rightarrow> (string option \<times> state_db) outcome" where
  "SN_TransferSINAR frm to amount s =
     and_then (SN_GetSINARBalance frm s) (\<lambda>(fromBalance, s1).
     if fromBalance < amount then Returns (Some ''insufficient SINAR balance'', s1)
     else
       and_then (SN_SetSINARBalance frm (fromBalance - amount) s1) (\<lambda>(_, s2).
       and_then (SN_GetSINARBalance to s2) (\<lambda>(toBalance, s3).
       and_then (SN_SetSINARBalance to (toBalance + amount) s3) (\<lambda>(_, s4). Returns (None, s4)))))"

definition SN_MintSINAR :: "address \<Rightarrow> int \<Rightarrow> state_db \<Rightarrow> (string option \<times> state_db) outcome" where
  "SN_MintSINAR to amount s =
     (let newSupply = tk_CurrentSupply (sd_sinarToken s) + amount in
      if newSupply > tk_TotalSupply (sd_sinarToken s) then Returns (Some ''minting would exceed total supply'', s)
      else
        and_then (SN_GetSINARBalance to s) (\<lambda>(currentBalance, s1).
        and_then (SN_SetSINARBalance to (currentBalance + amount) s1) (\<lambda>(_, s2).
        Returns (None, set_CurrentSupply newSupply s2))))"

definition SN_BurnSINAR :: "address \<Rightarrow> int \<Rightarrow> state_db \<Rightarrow> (string option \<times> state_db) outcome" where
  "SN_BurnSINAR frm amount s =
     and_then (SN_GetSINARBalance frm s) (\<lambda>(currentBalance, s1).
     if currentBalance < amount then Returns (Some ''insufficient SINAR balance for burning'', s1)
     else
       and_then (SN_SetSINARBalance frm (currentBalance - amount) s1) (\<lambda>(_, s2).
       Returns (None, set_CurrentSupply (tk_CurrentSupply (sd_sinarToken s2) - amount) s2)))"

section \<open>The initial distribution\<close>

record initial_distribution =
  di_TeamWallets :: "address list"
  di_EcosystemWallets :: "address list"
  di_ValidatorWallets :: "address list"
  di_LiquidityWallets :: "address list"
  di_CommunityWallets :: "address list"
  di_ReserveWallets :: "address list"

definition NewInitialDistribution :: initial_distribution where
  "NewInitialDistribution = \<lparr>
     di_TeamWallets = [0x1111111111111111111111111111111111111111, 0x2222222222222222222222222222222222222222,
       0x3333333333333333333333333333333333333333, 0x4444444444444444444444444444444444444444,
       0x5555555555555555555555555555555555555555],
     di_EcosystemWallets = [0x6666666666666666666666666666666666666666, 0x7777777777777777777777777777777777777777,
       0x8888888888888888888888888888888888888888, 0x9999999999999999999999999999999999999999,
       0xAAAAAAAAAAAAAAAAAAAAAAAAAAAAAAAAAAAAAAAA],
     di_ValidatorWallets = [0xBBBBBBBBBBBBBBBBBBBBBBBBBBBBBBBBBBBBBBBB, 0xCCCCCCCCCCCCCCCCCCCCCCCCCCCCCCCCCCCCCCCC,
       0xDDDDDDDDDDDDDDDDDDDDDDDDDDDDDDDDDDDDDDDD, 0xEEEEEEEEEEEEEEEEEEEEEEEEEEEEEEEEEEEEEEEE,
       0xFFFFFFFFFFFFFFFFFFFFFFFFFFFFFFFFFFFFFFFF],
     di_LiquidityWallets = [0x1010101010101010101010101010101010101010, 0x2020202020202020202020202020202020202020,
       0x3030303030303030303030303030303030303030],
     di_CommunityWallets = [0x4040404040404040404040404040404040404040, 0x5050505050505050505050505050505050505050,
       0x6060606060606060606060606060606060606060, 0x7070707070707070707070707070707070707070,
       0x8080808080808080808080808080808080808080],
     di_ReserveWallets = [0x9090909090909090909090909090909090909090, 0xA0A0A0A0A0A0A0A0A0A0A0A0A0A0A0A0A0A0A0A0,
       0xB0B0B0B0B0B0B0B0B0B0B0B0B0B0B0B0B0B0B0B0]\<rparr>"

text \<open>The loop of \<open>distributeToWallets\<close>: the last wallet also gets the remainder.\<close>

fun distribute_loop :: "int \<Rightarrow> int \<Rightarrow> address list \<Rightarrow> state_db \<Rightarrow> (unit \<times> state_db) outcome" where
  "distribute_loop amountPerWallet remainder [] s = Returns ((), s)"
| "distribute_loop amountPerWallet remainder (w # ws) s =
     and_then (SN_SetSINARBalance w (if ws = [] then amountPerWallet + remainder else amountPerWallet) s)
       (\<lambda>(_, s'). distribute_loop amountPerWallet remainder ws s')"

definition SN_distributeToWallets :: "address list \<Rightarrow> int \<Rightarrow> state_db \<Rightarrow> (unit \<times> state_db) outcome" where
  "SN_distributeToWallets wallets totalAmount s =
     (if wallets = [] then Returns ((), s)
      else distribute_loop (totalAmount div int (length wallets)) (totalAmount mod int (length wallets)) wallets s)"

definition SN_InitializeSINARDistribution :: "state_db \<Rightarrow> (string option \<times> state_db) outcome" where
  "SN_InitializeSINARDistribution s =
     (let totalSupply = SINAR_TOTAL_SUPPLY;
          teamAmount = totalSupply * 15 div 100;
          ecosystemAmount = totalSupply * 25 div 100;
          validatorAmount = totalSupply * 20 div 100;
          liquidityAmount = totalSupply * 10 div 100;
          communityAmount = totalSupply * 20 div 100;
          reserveAmount = totalSupply * 10 div 100;
          distribution = NewInitialDistribution
      in and_then (SN_distributeToWallets (di_TeamWallets distribution) teamAmount s) (\<lambda>(_, s1).
         and_then (SN_distributeToWallets (di_EcosystemWallets distribution) ecosystemAmount s1) (\<lambda>(_, s2).
         and_then (SN_distributeToWallets (di_ValidatorWallets distribution) validatorAmount s2) (\<lambda>(_, s3).
         and_then (SN_distributeToWallets (di_LiquidityWallets distribution) liquidityAmount s3) (\<lambda>(_, s4).
         and_then (SN_distributeToWallets (di_CommunityWallets distribution) communityAmount s4) (\<lambda>(_, s5).
         and_then (SN_distributeToWallets (di_ReserveWallets distribution) reserveAmount s5) (\<lambda>(_, s6).
         Returns (None, set_CurrentSupply (SN_calculateTotalSINARSupply s6) s6))))))))"

section \<open>The ledger behind the operations\<close>

definition balance_of :: "address \<Rightarrow> state_db \<Rightarrow> int" where
  "balance_of a s = ac_Balance (account_of a s)"

definition put_balance :: "address \<Rightarrow> int \<Rightarrow> state_db \<Rightarrow> state_db" where
  "put_balance a v s = (let s2 = upd_account a (\<lambda>acc. acc\<lparr>ac_Balance := v\<rparr>) s
     in set_CurrentSupply (SN_calculateTotalSINARSupply s2) s2)"

definition accounts_ok :: "state_db \<Rightarrow> bool" where
  "accounts_ok s \<longleftrightarrow> wf_gomap (sd_accounts s)"

lemma set_CurrentSupply_fields [simp]:
  "sd_accounts (set_CurrentSupply n s) = sd_accounts s" "sd_mu (set_CurrentSupply n s) = sd_mu s"
  "sd_validators (set_CurrentSupply n s) = sd_validators s"
  "tk_CurrentSupply (sd_sinarToken (set_CurrentSupply n s)) = n"
  "tk_TotalSupply (sd_sinarToken (set_CurrentSupply n s)) = tk_TotalSupply (sd_sinarToken s)"
  "balance_of a (set_CurrentSupply n s) = balance_of a s" "accounts_ok (set_CurrentSupply n s) = accounts_ok s"
  "SN_calculateTotalSINARSupply (set_CurrentSupply n s) = SN_calculateTotalSINARSupply s"
  by (simp_all add: set_CurrentSupply_def balance_of_def account_of_def accounts_ok_def SN_calculateTotalSINARSupply_def)

lemma put_balance_fields [simp]:
  "sd_mu (put_balance a v s) = sd_mu s" "sd_validators (put_balance a v s) = sd_validators s"
  "tk_TotalSupply (sd_sinarToken (put_balance a v s)) = tk_TotalSupply (sd_sinarToken s)"
  "tk_CurrentSupply (sd_sinarToken (put_balance a v s)) = SN_calculateTotalSINARSupply (put_balance a v s)"
  by (simp_all add: put_balance_def upd_account_def Let_def)

interpretation sinar: ledger accounts_ok balance_of put_balance SN_calculateTotalSINARSupply
proof
  fix a b :: address and v :: int and s :: state_db
  show "balance_of b (put_balance a v s) = (if b = a then v else balance_of b s)"
    by (simp add: put_balance_def Let_def) (simp add: balance_of_def account_of_def upd_account_def)
  show "accounts_ok s \<Longrightarrow> accounts_ok (put_balance a v s)"
    by (simp add: put_balance_def Let_def) (simp add: accounts_ok_def upd_account_def)
  assume "accounts_ok s"
  then have "sum_list (map (ac_Balance \<circ> snd) (go_put a ((account_of a s)\<lparr>ac_Balance := v\<rparr>) (sd_accounts s))) =
      sum_list (map (ac_Balance \<circ> snd) (sd_accounts s)) - balance_of a s + v"
    by (subst sum_list_go_put)
       (simp_all add: accounts_ok_def balance_of_def account_of_def new_account_def split: option.split)
  then show "SN_calculateTotalSINARSupply (put_balance a v s) = SN_calculateTotalSINARSupply s - balance_of a s + v"
    by (simp add: put_balance_def Let_def) (simp add: SN_calculateTotalSINARSupply_def upd_account_def)
qed

text \<open>Over a free mutex the operations are reads and writes of the ledger.\<close>

lemma with_account_reads [simp]:
  "account_of b (with_account a s) = account_of b s" "balance_of b (with_account a s) = balance_of b s"
  "sd_mu (with_account a s) = sd_mu s" "sd_sinarToken (with_account a s) = sd_sinarToken s"
  "sd_validators (with_account a s) = sd_validators s" "accounts_ok s \<Longrightarrow> accounts_ok (with_account a s)"
  by (simp_all add: balance_of_def account_of_def with_account_def accounts_ok_def)

lemma upd_with_account: "upd_account a f (with_account a s) = upd_account a f s"
proof -
  have "go_put k v (go_put k w m) = go_put k v m" for k :: address and v w :: account and m
    by (induction m) auto
  then show ?thesis by (simp add: upd_account_def with_account_def account_of_def)
qed

lemma total_with_account [simp]:
  "SN_calculateTotalSINARSupply (with_account a s) = SN_calculateTotalSINARSupply s"
  by (simp add: SN_calculateTotalSINARSupply_def with_account_def go_put_fresh new_account_def)

lemma put_with_account [simp]: "put_balance a v (with_account a s) = put_balance a v s"
  by (simp add: put_balance_def upd_with_account)

lemma GetSINARBalance_free:
  "sd_mu s = unlocked \<Longrightarrow> SN_GetSINARBalance a s = Returns (balance_of a s, with_account a s)"
  by (simp add: SN_GetSINARBalance_def GetAccount_free balance_of_def)

lemma SetSINARBalance_free:
  "sd_mu s = unlocked \<Longrightarrow> SN_SetSINARBalance a v s = Returns ((), put_balance a v s)"
  by (simp add: SN_SetSINARBalance_def GetAccount_free upd_with_account put_balance_def Let_def)

text \<open>The recorded supply is the sum of the balances.\<close>

definition supply_consistent :: "state_db \<Rightarrow> bool" where
  "supply_consistent s \<longleftrightarrow> sd_mu s = unlocked \<and> accounts_ok s \<and>
     tk_CurrentSupply (sd_sinarToken s) = SN_calculateTotalSINARSupply s"

lemma Transfer_free:
  assumes "sd_mu s = unlocked"
  shows "SN_TransferSINAR a b n s =
    (if balance_of a s < n then Returns (Some ''insufficient SINAR balance'', with_account a s)
     else let s1 = put_balance a (balance_of a s - n) s
       in Returns (None, put_balance b (balance_of b s1 + n) s1))"
  using assms by (simp add: SN_TransferSINAR_def GetSINARBalance_free SetSINARBalance_free Let_def)

lemma Mint_free:
  assumes "sd_mu s = unlocked"
  shows "SN_MintSINAR a n s =
    (let newSupply = tk_CurrentSupply (sd_sinarToken s) + n in
     if newSupply > tk_TotalSupply (sd_sinarToken s) then Returns (Some ''minting would exceed total supply'', s)
     else Returns (None, set_CurrentSupply newSupply (put_balance a (balance_of a s + n) s)))"
  using assms by (simp add: SN_MintSINAR_def GetSINARBalance_free SetSINARBalance_free Let_def)

lemma Burn_free:
  assumes "sd_mu s = unlocked"
  shows "SN_BurnSINAR a n s =
    (if balance_of a s < n then Returns (Some ''insufficient SINAR balance for burning'', with_account a s)
     else let s1 = put_balance a (balance_of a s - n) s
       in Returns (None, set_CurrentSupply (SN_calculateTotalSINARSupply s1 - n) s1))"
  using assms by (simp add: SN_BurnSINAR_def GetSINARBalance_free SetSINARBalance_free Let_def)

text \<open>The writes of a distribution: each wallet with its amount.\<close>

fun shares :: "int \<Rightarrow> int \<Rightarrow> address list \<Rightarrow> (address \<times> int) list" where
  "shares per rest [] = []"
| "shares per rest (w # ws) = (w, if ws = [] then per + rest else per) # shares per rest ws"

definition shares_of :: "address list \<Rightarrow> int \<Rightarrow> (address \<times> int) list" where
  "shares_of ws total_amount = shares (total_amount div int (length ws)) (total_amount mod int (length ws)) ws"

lemma shares_fst [simp]: "map fst (shares per rest ws) = ws"
  by (induction ws) auto

lemma shares_of_fst [simp]: "map fst (shares_of ws n) = ws"
  by (simp add: shares_of_def)

lemma shares_sum: "ws \<noteq> [] \<Longrightarrow> sum_list (map snd (shares per rest ws)) = per * int (length ws) + rest"
proof (induction ws)
  case (Cons w ws)
  then show ?case by (cases "ws = []") (simp_all add: algebra_simps)
qed simp

lemma shares_of_sum: "ws \<noteq> [] \<Longrightarrow> sum_list (map snd (shares_of ws n)) = n"
  unfolding shares_of_def by (subst shares_sum) simp_all

lemma fold_put_mu:
  "sd_mu (fold (\<lambda>(w, v). put_balance w v) ps s) = sd_mu s"
  "sd_validators (fold (\<lambda>(w, v). put_balance w v) ps s) = sd_validators s"
  by (induction ps arbitrary: s) auto

lemma distribute_loop_free:
  "sd_mu s = unlocked \<Longrightarrow>
   distribute_loop per rest ws s = Returns ((), fold (\<lambda>(w, v). put_balance w v) (shares per rest ws) s)"
  by (induction ws arbitrary: s) (simp_all add: SetSINARBalance_free)

lemma distribute_free:
  "sd_mu s = unlocked \<Longrightarrow> ws \<noteq> [] \<Longrightarrow>
   SN_distributeToWallets ws n s = Returns ((), fold (\<lambda>(w, v). put_balance w v) (shares_of ws n) s)"
  by (simp add: SN_distributeToWallets_def shares_of_def distribute_loop_free)

definition all_shares :: "(address \<times> int) list" where
  "all_shares =
     shares_of (di_TeamWallets NewInitialDistribution) (SINAR_TOTAL_SUPPLY * 15 div 100) @
     shares_of (di_EcosystemWallets NewInitialDistribution) (SINAR_TOTAL_SUPPLY * 25 div 100) @
     shares_of (di_ValidatorWallets NewInitialDistribution) (SINAR_TOTAL_SUPPLY * 20 div 100) @
     shares_of (di_LiquidityWallets NewInitialDistribution) (SINAR_TOTAL_SUPPLY * 10 div 100) @
     shares_of (di_CommunityWallets NewInitialDistribution) (SINAR_TOTAL_SUPPLY * 20 div 100) @
     shares_of (di_ReserveWallets NewInitialDistribution) (SINAR_TOTAL_SUPPLY * 10 div 100)"

definition all_wallets :: "address list" where
  "all_wallets = (let di = NewInitialDistribution in di_TeamWallets di @ di_EcosystemWallets di @
     di_ValidatorWallets di @ di_LiquidityWallets di @ di_CommunityWallets di @ di_ReserveWallets di)"

lemma wallets_nonempty:
  "di_TeamWallets NewInitialDistribution \<noteq> []" "di_EcosystemWallets NewInitialDistribution \<noteq> []"
  "di_ValidatorWallets NewInitialDistribution \<noteq> []" "di_LiquidityWallets NewInitialDistribution \<noteq> []"
  "di_CommunityWallets NewInitialDistribution \<noteq> []" "di_ReserveWallets NewInitialDistribution \<noteq> []"
  by (simp_all add: NewInitialDistribution_def)

lemma all_wallets_distinct: "distinct all_wallets"
proof -
  have "distinct (map uint all_wallets)"
    by (simp add: all_wallets_def NewInitialDistribution_def)
  then show ?thesis by (simp add: distinct_map)
qed

lemma all_shares_fst: "map fst all_shares = all_wallets"
  by (simp add: all_shares_def all_wallets_def Let_def)

lemma all_shares_sum: "sum_list (map snd all_shares) = SINAR_TOTAL_SUPPLY"
  unfolding all_shares_def map_append sum_list_append
  by (simp add: shares_of_sum wallets_nonempty SINAR_TOTAL_SUPPLY_def)

lemma Initialize_free:
  assumes "sd_mu s = unlocked"
  shows "SN_InitializeSINARDistribution s = (let s6 = fold (\<lambda>(w, v). put_balance w v) all_shares s in
     Returns (None, set_CurrentSupply (SN_calculateTotalSINARSupply s6) s6))"
  using assms
  by (simp add: SN_InitializeSINARDistribution_def Let_def distribute_free wallets_nonempty fold_put_mu all_shares_def)

section \<open>Reachable states\<close>

text \<open>
  One call on a \<open>StateDB\<close> that returns. Reads that may create an empty account are covered by
  \<open>step_touch\<close>.
\<close>

inductive sd_step :: "state_db \<Rightarrow> state_db \<Rightarrow> bool" where
  step_touch: "SD_GetAccount a s = Returns (acc, s') \<Longrightarrow> sd_step s s'"
| step_balance: "SD_SetBalance a v s = Returns ((), s') \<Longrightarrow> sd_step s s'"
| step_nonce: "SD_SetNonce a n s = Returns ((), s') \<Longrightarrow> sd_step s s'"
| step_code: "SD_SetCode k a code s = Returns ((), s') \<Longrightarrow> sd_step s s'"
| step_storage: "SD_SetStorage a key v s = Returns ((), s') \<Longrightarrow> sd_step s s'"
| step_contract: "SD_CreateContract k a code c n s = Returns (res, s') \<Longrightarrow> sd_step s s'"
| step_validator: "SD_AddValidator a stake c s = Returns (res, s') \<Longrightarrow> sd_step s s'"
| step_remove: "SD_RemoveValidator a s = Returns (res, s') \<Longrightarrow> sd_step s s'"
| step_delegate: "SD_Delegate d v amount s = Returns (res, s') \<Longrightarrow> sd_step s s'"
| step_undelegate: "SD_Undelegate d v amount s = Returns (res, s') \<Longrightarrow> sd_step s s'"
| step_proposal: "SD_CreateProposal pid title desc c ty data t0 t1 s = Returns (res, s') \<Longrightarrow> sd_step s s'"
| step_vote: "SD_Vote pid voter ch stake time s = Returns (res, s') \<Longrightarrow> sd_step s s'"
| step_root: "SD_IntermediateRoot x commit s = Returns (root, s') \<Longrightarrow> sd_step s s'"
| step_commit: "SD_Commit s = Returns (res, s') \<Longrightarrow> sd_step s s'"
| step_transfer: "SN_TransferSINAR a b amount s = Returns (res, s') \<Longrightarrow> sd_step s s'"
| step_mint: "SN_MintSINAR a amount s = Returns (res, s') \<Longrightarrow> sd_step s s'"
| step_burn: "SN_BurnSINAR a amount s = Returns (res, s') \<Longrightarrow> sd_step s s'"
| step_distribute: "SN_InitializeSINARDistribution s = Returns (res, s') \<Longrightarrow> sd_step s s'"

inductive_cases sd_stepE: "sd_step s s'"

inductive sd_reachable :: "state_db \<Rightarrow> bool" where
  sd_new: "sd_reachable NewStateDB"
| sd_next: "sd_reachable s \<Longrightarrow> sd_step s s' \<Longrightarrow> sd_reachable s'"

text \<open>No validator was ever stored, and the mutex is free between calls.\<close>

definition no_validators :: "state_db \<Rightarrow> bool" where
  "no_validators s \<longleftrightarrow> sd_mu s = unlocked \<and> sd_validators s = []"

lemma locked_returns:
  assumes "sd_mu s = unlocked" and "with_Lock sd_mu set_sd_mu body s = Returns (r, s')"
  obtains s1 m where "body (set_sd_mu (unlocked\<lparr>rw_writer := True\<rparr>) s) = Returns (r, s1)"
    and "rw_Unlock (sd_mu s1) = Returns m" and "s' = set_sd_mu m s1"
  using assms by (auto simp: with_Lock_def rw_Lock_def unlocked_def and_then_Returns_iff)

text \<open>A locked body that keeps mutex and validators.\<close>

lemma locked_no_validators:
  assumes "no_validators s" and "with_Lock sd_mu set_sd_mu body s = Returns (r, s')"
    and "\<And>t r t'. body t = Returns (r, t') \<Longrightarrow> sd_mu t' = sd_mu t \<and> sd_validators t' = sd_validators t"
  shows "no_validators s'"
proof -
  have free: "sd_mu s = unlocked" using assms(1) by (simp add: no_validators_def)
  obtain s1 m where b: "body (set_sd_mu (unlocked\<lparr>rw_writer := True\<rparr>) s) = Returns (r, s1)"
    "rw_Unlock (sd_mu s1) = Returns m" "s' = set_sd_mu m s1"
    by (rule locked_returns [OF free assms(2)])
  then show ?thesis using assms(1) assms(3) [OF b(1)]
    by (simp add: no_validators_def rw_Unlock_def unlocked_def)
qed

lemma sd_step_no_validators:
  assumes "no_validators s" and "sd_step s s'"
  shows "no_validators s'"
proof -
  have free: "sd_mu s = unlocked" and nv: "sd_validators s = []" using assms(1) by (auto simp: no_validators_def)
  show ?thesis using assms(2)
  proof (cases rule: sd_stepE [consumes 1, case_names touch balance nonce code storage contract validator remove
      delegate undelegate step_proposal step_vote step_root step_commit transfer mint burn distribute])
    case (step_proposal pid title desc c ty data t0 t1 res)
    show ?thesis
      by (rule locked_no_validators [OF assms(1) step_proposal [unfolded SD_CreateProposal_def]])
         (auto simp: markStateRootDirty_def)
  next
    case (step_vote pid voter ch stake time res)
    then show ?thesis using assms(1)
      by (auto simp: Vote_free [OF free] no_validators_def split: option.splits if_splits)
  next
    case (step_root x commit root)
    show ?thesis
      by (rule locked_no_validators [OF assms(1) step_root [unfolded SD_IntermediateRoot_def]])
         (auto simp: Let_def split: if_splits)
  next
    case (step_commit res)
    show ?thesis
      by (rule locked_no_validators [OF assms(1) step_commit [unfolded SD_Commit_def]]) auto
  qed (use assms(1) nv in \<open>auto simp: GetAccount_free [OF free] SD_SetBalance_def SD_SetNonce_def SD_SetCode_def
      SD_SetStorage_def locked_account_write_blocks CreateContract_blocks RemoveValidator_blocks
      AddValidator_free [OF free] Delegate_no_validator [OF free] Undelegate_no_validator [OF free]
      Transfer_free [OF free] Mint_free [OF free] Burn_free [OF free] Initialize_free [OF free] Let_def
      no_validators_def fold_put_mu split: if_splits\<close>)
qed

lemma sd_reachable_no_validators: "sd_reachable s \<Longrightarrow> no_validators s"
proof (induction rule: sd_reachable.induct)
  case sd_new
  then show ?case by (simp add: no_validators_def NewStateDB_def)
next
  case (sd_next s s')
  then show ?case by (blast intro: sd_step_no_validators)
qed

section \<open>Properties\<close>

text \<open>
  Nobody can stake or delegate. In every state that any sequence of returning calls can reach, there is no
  validator: every delegation and every undelegation returns its error and changes nothing, whatever the
  balances, and the total stake is zero.
\<close>

theorem delegation_impossible:
  assumes "sd_reachable s"
  shows "sd_validators s = [] \<and>
    SD_Delegate d v n s = Returns (Some ''validator not found or inactive'', s) \<and>
    SD_Undelegate d v n s = Returns (Some ''validator not found'', s) \<and>
    SD_GetTotalStake s = Returns (0, s)"
proof -
  have free: "sd_mu s = unlocked" and nv: "sd_validators s = []"
    using sd_reachable_no_validators [OF assms] by (auto simp: no_validators_def)
  have "SD_GetTotalStake s = Returns (0, s)"
    unfolding SD_GetTotalStake_def by (subst sd_mutex.RLock_pure_read) (simp_all add: free nv unlocked_def)
  then show ?thesis using nv Delegate_no_validator [OF free] Undelegate_no_validator [OF free] by simp
qed

theorem delegation_impossible_witness:
  "SD_Delegate 7 8 5 (put_balance 7 100 NewStateDB) = Returns (Some ''validator not found or inactive'', put_balance 7 100 NewStateDB)"
proof -
  have free: "sd_mu NewStateDB = unlocked" by (simp add: NewStateDB_def)
  have z: "balance_of 7 NewStateDB = 0" by (simp add: balance_of_def account_of_def NewStateDB_def new_account_def)
  have "SN_MintSINAR 7 100 NewStateDB = Returns (None, set_CurrentSupply 100 (put_balance 7 100 NewStateDB))"
    using z by (simp add: Mint_free [OF free] Let_def) (simp add: NewStateDB_def SINAR_TOTAL_SUPPLY_def)
  moreover have "set_CurrentSupply 100 (put_balance 7 100 NewStateDB) = put_balance 7 100 NewStateDB"
    by (simp add: put_balance_def set_CurrentSupply_def upd_account_def NewStateDB_def SN_calculateTotalSINARSupply_def
        account_of_def new_account_def Let_def)
  ultimately have "sd_step NewStateDB (put_balance 7 100 NewStateDB)"
    using step_mint [of 7 100 NewStateDB] by simp
  then have "sd_reachable (put_balance 7 100 NewStateDB)" by (rule sd_next [OF sd_new])
  then show ?thesis using delegation_impossible by blast
qed

text \<open>
  What a transfer does. It fails, moving nothing, exactly when the sender has less than the amount;
  otherwise it moves the amount, for every integer amount, keeps the sum of all balances, and leaves the
  recorded supply equal to that sum. The amount is not required to be positive: with a negative
  amount the sender is credited from the receiver's account, which may become negative.
\<close>

theorem sinar_transfer_spec:
  assumes "sd_mu s = unlocked" and "accounts_ok s" and "a \<noteq> b"
  shows "\<exists>res s'. SN_TransferSINAR a b n s = Returns (res, s') \<and> (res = None \<longleftrightarrow> n \<le> balance_of a s) \<and>
    (\<forall>c. balance_of c s' = (if res \<noteq> None then balance_of c s else if c = a then balance_of a s - n
       else if c = b then balance_of b s + n else balance_of c s)) \<and>
    SN_calculateTotalSINARSupply s' = SN_calculateTotalSINARSupply s \<and>
    (res = None \<longrightarrow> supply_consistent s')"
proof (cases "balance_of a s < n")
  case True
  then show ?thesis by (simp add: Transfer_free [OF assms(1)])
next
  case False
  then show ?thesis using assms sinar.transfer_supply [OF assms(2), of b a n]
    by (simp add: Transfer_free [OF assms(1)] Let_def supply_consistent_def)
qed

theorem sinar_transfer_spec_witness:
  "\<exists>s'. SN_TransferSINAR 7 8 (- 50) (put_balance 8 20 NewStateDB) = Returns (None, s') \<and>
     balance_of 7 s' = 50 \<and> balance_of 8 s' = - 30"
proof -
  have z: "balance_of a NewStateDB = 0" for a
    by (simp add: balance_of_def account_of_def NewStateDB_def new_account_def)
  have "sd_mu (put_balance 8 20 NewStateDB) = unlocked" "accounts_ok (put_balance 8 20 NewStateDB)"
    by (simp add: NewStateDB_def) (simp add: accounts_ok_def put_balance_def upd_account_def NewStateDB_def Let_def wf_gomap_def)
  then show ?thesis
    using sinar_transfer_spec [of "put_balance 8 20 NewStateDB" 7 8 "- 50"] by (auto simp: z)
qed

text \<open>
  Minting keeps the cap when the books are right: from a state whose recorded supply is the sum of the
  balances, minting fails exactly when the sum would pass \<open>TotalSupply\<close>, and then changes nothing;
  otherwise the receiver gains the amount and the books are right again.
\<close>

theorem sinar_mint_cap:
  assumes "supply_consistent s"
  shows "\<exists>res s'. SN_MintSINAR a n s = Returns (res, s') \<and>
    (res = None \<longleftrightarrow> SN_calculateTotalSINARSupply s + n \<le> tk_TotalSupply (sd_sinarToken s)) \<and>
    (res \<noteq> None \<longrightarrow> s' = s) \<and>
    (res = None \<longrightarrow> supply_consistent s' \<and> balance_of a s' = balance_of a s + n \<and>
       SN_calculateTotalSINARSupply s' = SN_calculateTotalSINARSupply s + n)"
proof -
  have free: "sd_mu s = unlocked" and ok: "accounts_ok s"
    and cs: "tk_CurrentSupply (sd_sinarToken s) = SN_calculateTotalSINARSupply s"
    using assms by (auto simp: supply_consistent_def)
  show ?thesis
    using sinar.supply_put [OF ok, of a "balance_of a s + n"] free ok cs
    by (simp add: Mint_free [OF free] Let_def supply_consistent_def)
qed

theorem sinar_mint_cap_witness:
  "\<exists>s'. SN_MintSINAR 7 (SINAR_TOTAL_SUPPLY + 1) NewStateDB = Returns (Some ''minting would exceed total supply'', s')"
  using sinar_mint_cap [of NewStateDB 7 "SINAR_TOTAL_SUPPLY + 1"]
  by (simp add: supply_consistent_def NewStateDB_def accounts_ok_def SN_calculateTotalSINARSupply_def Mint_free Let_def)

text \<open>
  The cap can be broken by burning first. \<open>BurnSINAR\<close> subtracts the amount from a supply that
  \<open>SetSINARBalance\<close> has already recomputed, so it counts twice. Starting with the whole cap issued and
  right books, whoever burns \<open>b\<close> can then mint \<open>2 * b\<close>: both calls succeed and the balances add
  up to \<open>b\<close> more than \<open>TotalSupply\<close>.
\<close>

theorem burn_breaks_cap:
  assumes "supply_consistent s" and "SN_calculateTotalSINARSupply s = tk_TotalSupply (sd_sinarToken s)"
    and "0 < b" and "b \<le> balance_of a s"
  shows "\<exists>s1 s2. SN_BurnSINAR a b s = Returns (None, s1) \<and>
    tk_CurrentSupply (sd_sinarToken s1) = SN_calculateTotalSINARSupply s1 - b \<and>
    SN_MintSINAR c (2 * b) s1 = Returns (None, s2) \<and>
    SN_calculateTotalSINARSupply s2 = tk_TotalSupply (sd_sinarToken s2) + b"
proof -
  have free: "sd_mu s = unlocked" and ok: "accounts_ok s" using assms(1) by (auto simp: supply_consistent_def)
  let ?p = "put_balance a (balance_of a s - b) s"
  let ?s1 = "set_CurrentSupply (SN_calculateTotalSINARSupply ?p - b) ?p"
  have tot: "SN_calculateTotalSINARSupply ?p = tk_TotalSupply (sd_sinarToken s) - b"
    using sinar.supply_put [OF ok, of a "balance_of a s - b"] assms(2) by simp
  have r1: "SN_BurnSINAR a b s = Returns (None, ?s1)" using assms(4) by (simp add: Burn_free [OF free] Let_def)
  have free1: "sd_mu ?s1 = unlocked" and ok1: "accounts_ok ?s1" using free ok by simp_all
  let ?s2 = "set_CurrentSupply (tk_TotalSupply (sd_sinarToken s)) (put_balance c (balance_of c ?s1 + 2 * b) ?s1)"
  have r2: "SN_MintSINAR c (2 * b) ?s1 = Returns (None, set_CurrentSupply (tk_TotalSupply (sd_sinarToken s))
      (put_balance c (balance_of c ?s1 + 2 * b) ?s1))"
    unfolding Mint_free [OF free1] Let_def using tot by simp
  have t2: "SN_calculateTotalSINARSupply ?s2 = tk_TotalSupply (sd_sinarToken ?s2) + b"
    using sinar.supply_put [OF ok1, of c "balance_of c ?s1 + 2 * b"] tot by simp
  show ?thesis by (rule exI [of _ ?s1], rule exI [of _ ?s2], intro conjI r1 r2 t2) simp
qed

theorem burn_breaks_cap_witness:
  "\<exists>s1 s2. SN_BurnSINAR 7 5 (put_balance 7 SINAR_TOTAL_SUPPLY NewStateDB) = Returns (None, s1) \<and>
     SN_MintSINAR 8 10 s1 = Returns (None, s2) \<and> SN_calculateTotalSINARSupply s2 = SINAR_TOTAL_SUPPLY + 5"
proof -
  let ?s = "put_balance 7 SINAR_TOTAL_SUPPLY NewStateDB"
  have ok: "accounts_ok NewStateDB" by (simp add: accounts_ok_def NewStateDB_def)
  have z: "balance_of 7 NewStateDB = 0" "SN_calculateTotalSINARSupply NewStateDB = 0" "sd_mu NewStateDB = unlocked"
    "tk_TotalSupply (sd_sinarToken NewStateDB) = SINAR_TOTAL_SUPPLY"
    by (simp_all add: balance_of_def account_of_def NewStateDB_def new_account_def SN_calculateTotalSINARSupply_def)
  have t: "SN_calculateTotalSINARSupply ?s = SINAR_TOTAL_SUPPLY"
    using sinar.supply_put [OF ok, of 7 SINAR_TOTAL_SUPPLY] z by simp
  have c: "supply_consistent ?s" using ok z by (simp add: supply_consistent_def)
  have b: "5 \<le> balance_of 7 ?s" by (simp add: SINAR_TOTAL_SUPPLY_def)
  obtain s1 s2 where r: "SN_BurnSINAR 7 5 ?s = Returns (None, s1)" "SN_MintSINAR 8 10 s1 = Returns (None, s2)"
    "SN_calculateTotalSINARSupply s2 = tk_TotalSupply (sd_sinarToken s2) + 5"
    using burn_breaks_cap [OF c _ _ b, of 8] t z by auto
  have "tk_TotalSupply (sd_sinarToken s2) = SINAR_TOTAL_SUPPLY"
    using r(1,2) b z by (auto simp: Burn_free Mint_free Let_def split: if_splits)
  then show ?thesis using r by auto
qed

text \<open>
  The initial distribution issues the whole supply. On a state with a free mutex it returns without
  error; each of the 26 wallets then holds exactly its share, every other account is as before, and
  the sum of the balances is the old sum, less what the wallets held, plus \<open>10 ^ 27\<close>: on a
  fresh \<open>StateDB\<close> exactly the total supply, with the recorded supply equal to it. (Run again later it
  overwrites what the wallets hold.)
\<close>

theorem sinar_distribution_spec:
  assumes "sd_mu s = unlocked" and "accounts_ok s"
  shows "\<exists>s'. SN_InitializeSINARDistribution s = Returns (None, s') \<and> supply_consistent s' \<and>
    SN_calculateTotalSINARSupply s' =
      SN_calculateTotalSINARSupply s - (\<Sum>w \<leftarrow> all_wallets. balance_of w s) + SINAR_TOTAL_SUPPLY \<and>
    (\<forall>c. balance_of c s' = (case map_of all_shares c of Some v \<Rightarrow> v | None \<Rightarrow> balance_of c s))"
proof -
  have d: "distinct (map fst all_shares)" by (simp add: all_shares_fst all_wallets_distinct)
  have w: "(\<Sum>(w, v) \<leftarrow> all_shares. balance_of w s) = (\<Sum>w \<leftarrow> all_wallets. balance_of w s)"
    unfolding all_shares_fst [symmetric] by (simp add: comp_def case_prod_unfold)
  show ?thesis
    using sinar.fold_put_supply [OF assms(2) d] sinar.fold_put_bal [OF d] sinar.fold_put_ok [OF assms(2), of all_shares]
    by (simp add: Initialize_free [OF assms(1)] Let_def supply_consistent_def fold_put_mu assms(1) w all_shares_sum)
qed

theorem sinar_distribution_spec_witness:
  "\<exists>s'. SN_InitializeSINARDistribution NewStateDB = Returns (None, s') \<and>
     tk_CurrentSupply (sd_sinarToken s') = SINAR_TOTAL_SUPPLY"
proof -
  have "balance_of w NewStateDB = 0" for w by (simp add: balance_of_def account_of_def NewStateDB_def new_account_def)
  then show ?thesis using sinar_distribution_spec [of NewStateDB]
    by (auto simp: accounts_ok_def NewStateDB_def supply_consistent_def SN_calculateTotalSINARSupply_def sum_list_0)
qed

end
