(* ===== verification/Token_Spec.thy ===== *)
theory Token_Spec
  imports Sinar_Token
begin

text \<open>
  What the native token of \<open>state.go\<close> computes, as an abstract ledger: balances are a function on
  addresses, the issued amount is their sum over all addresses, and the recorded supply and the cap are
  two integers. Neither maps, accounts created on the way, mutexes nor recomputed sums appear.
  The operations of \<open>Sinar_Token\<close> implement it, for every sequence of calls.
\<close>

section \<open>The abstract ledger\<close>

record token_view =
  tv_balance :: "address \<Rightarrow> int"
  tv_recorded :: int
  tv_cap :: int

datatype token_call =
  Transfer address address int
| Mint address int
| Burn address int
| Set_balance address int
| Distribute

definition issued :: "(address \<Rightarrow> int) \<Rightarrow> int" where
  "issued b = (\<Sum>a \<in> UNIV. b a)"

definition moved :: "address \<Rightarrow> address \<Rightarrow> int \<Rightarrow> (address \<Rightarrow> int) \<Rightarrow> address \<Rightarrow> int" where
  "moved a c n b = (let b1 = b(a := b a - n) in b1(c := b1 c + n))"

definition paid_out :: "(address \<Rightarrow> int) \<Rightarrow> address \<Rightarrow> int" where
  "paid_out b a = (case map_of all_shares a of Some v \<Rightarrow> v | None \<Rightarrow> b a)"

text \<open>The balances are written and the books are closed on them.\<close>

definition booked :: "(address \<Rightarrow> int) \<Rightarrow> token_view \<Rightarrow> token_view" where
  "booked b v = v\<lparr>tv_balance := b, tv_recorded := issued b\<rparr>"

text \<open>One call: whether it succeeds, and the ledger afterwards.\<close>

fun token_spec :: "token_call \<Rightarrow> token_view \<Rightarrow> bool \<times> token_view" where
  "token_spec (Transfer a c n) v =
     (if tv_balance v a < n then (False, v) else (True, booked (moved a c n (tv_balance v)) v))"
| "token_spec (Mint a n) v =
     (if tv_recorded v + n > tv_cap v then (False, v)
      else (True, v\<lparr>tv_balance := (tv_balance v)(a := tv_balance v a + n), tv_recorded := tv_recorded v + n\<rparr>))"
| "token_spec (Burn a n) v =
     (if tv_balance v a < n then (False, v)
      else let b = (tv_balance v)(a := tv_balance v a - n)
        in (True, v\<lparr>tv_balance := b, tv_recorded := issued b - n\<rparr>))"
| "token_spec (Set_balance a n) v = (True, booked ((tv_balance v)(a := n)) v)"
| "token_spec Distribute v = (True, booked (paid_out (tv_balance v)) v)"

fun token_spec_run :: "token_call list \<Rightarrow> token_view \<Rightarrow> bool list \<times> token_view" where
  "token_spec_run [] v = ([], v)"
| "token_spec_run (c # cs) v =
     (let (ok, v1) = token_spec c v; (oks, v2) = token_spec_run cs v1 in (ok # oks, v2))"

section \<open>The calls on a StateDB\<close>

definition succeeded :: "string option \<times> state_db \<Rightarrow> (bool \<times> state_db) outcome" where
  "succeeded r = Returns (fst r = None, snd r)"

fun token_exec :: "token_call \<Rightarrow> state_db \<Rightarrow> (bool \<times> state_db) outcome" where
  "token_exec (Transfer a c n) s = and_then (SN_TransferSINAR a c n s) succeeded"
| "token_exec (Mint a n) s = and_then (SN_MintSINAR a n s) succeeded"
| "token_exec (Burn a n) s = and_then (SN_BurnSINAR a n s) succeeded"
| "token_exec (Set_balance a n) s = and_then (SN_SetSINARBalance a n s) (\<lambda>(_, s'). Returns (True, s'))"
| "token_exec Distribute s = and_then (SN_InitializeSINARDistribution s) succeeded"

fun token_run :: "token_call list \<Rightarrow> state_db \<Rightarrow> (bool list \<times> state_db) outcome" where
  "token_run [] s = Returns ([], s)"
| "token_run (c # cs) s =
     and_then (token_exec c s) (\<lambda>(ok, s1). and_then (token_run cs s1) (\<lambda>(oks, s2). Returns (ok # oks, s2)))"

definition token_view_of :: "state_db \<Rightarrow> token_view" where
  "token_view_of s = \<lparr>tv_balance = (\<lambda>a. balance_of a s), tv_recorded = tk_CurrentSupply (sd_sinarToken s),
     tv_cap = tk_TotalSupply (sd_sinarToken s)\<rparr>"

definition token_ready :: "state_db \<Rightarrow> bool" where
  "token_ready s \<longleftrightarrow> sd_mu s = unlocked \<and> accounts_ok s"

section \<open>The sum over the account table is the sum over all addresses\<close>

lemma issued_upd: "issued (b(a := n)) = issued b - b a + n"
proof -
  have "issued (b(a := n)) = n + (\<Sum>c \<in> UNIV - {a}. (b(a := n)) c)"
    unfolding issued_def by (simp add: sum.remove [of UNIV a])
  moreover have "(\<Sum>c \<in> UNIV - {a}. (b(a := n)) c) = (\<Sum>c \<in> UNIV - {a}. b c)" by (rule sum.cong) simp_all
  moreover have "issued b = b a + (\<Sum>c \<in> UNIV - {a}. b c)"
    unfolding issued_def by (simp add: sum.remove [of UNIV a])
  ultimately show ?thesis by simp
qed

lemma issued_zero [simp]: "issued (\<lambda>_. 0) = 0"
  by (simp add: issued_def)

lemma issued_moved: "issued (moved a c n b) = issued b"
  by (simp add: moved_def Let_def issued_upd)

lemma sum_of_table:
  "wf_gomap m \<Longrightarrow> sum_list (map (f \<circ> snd) m) = issued (\<lambda>a. case go_get m a of None \<Rightarrow> 0 | Some v \<Rightarrow> f v)"
proof (induction m)
  case Nil
  then show ?case by simp
next
  case (Cons kv m)
  obtain k v where kv: "kv = (k, v)" by (cases kv)
  have wf: "wf_gomap m" and fresh: "go_get m k = None"
    using Cons.prems by (auto simp: kv wf_gomap_def map_of_eq_None_iff)
  have "(\<lambda>a. case go_get (kv # m) a of None \<Rightarrow> 0 | Some w \<Rightarrow> f w) =
      (\<lambda>a. case go_get m a of None \<Rightarrow> 0 | Some w \<Rightarrow> f w)(k := f v)"
    by (auto simp: kv fun_eq_iff)
  then show ?case using Cons.IH [OF wf] fresh by (simp add: kv issued_upd)
qed

lemma total_is_issued: "accounts_ok s \<Longrightarrow> SN_calculateTotalSINARSupply s = issued (\<lambda>a. balance_of a s)"
  unfolding SN_calculateTotalSINARSupply_def accounts_ok_def
  by (subst sum_of_table)
     (auto simp: balance_of_def account_of_def new_account_def intro!: arg_cong [where f = issued] split: option.split)

section \<open>Each call implements its specification\<close>

lemma view_with_account [simp]: "token_view_of (with_account a s) = token_view_of s"
  by (simp add: token_view_of_def)

lemma view_set_supply: "token_view_of (set_CurrentSupply n s) = (token_view_of s)\<lparr>tv_recorded := n\<rparr>"
  by (simp add: token_view_of_def)

lemma view_put:
  "accounts_ok s \<Longrightarrow> token_view_of (put_balance a n s) = booked ((tv_balance (token_view_of s))(a := n)) (token_view_of s)"
  by (simp add: token_view_of_def booked_def total_is_issued fun_upd_def)

lemma view_sel [simp]:
  "tv_balance (token_view_of s) = (\<lambda>a. balance_of a s)"
  "tv_recorded (token_view_of s) = tk_CurrentSupply (sd_sinarToken s)"
  "tv_cap (token_view_of s) = tk_TotalSupply (sd_sinarToken s)"
  by (simp_all add: token_view_of_def)

lemma ready_put [simp]: "token_ready s \<Longrightarrow> token_ready (put_balance a n s)"
  by (simp add: token_ready_def)

lemma ready_with_account [simp]: "token_ready s \<Longrightarrow> token_ready (with_account a s)"
  by (simp add: token_ready_def)

lemma ready_set_supply [simp]: "token_ready (set_CurrentSupply n s) = token_ready s"
  by (simp add: token_ready_def)

lemma transfer_view:
  assumes "token_ready s"
  shows "token_view_of (put_balance c (balance_of c (put_balance a (balance_of a s - n) s) + n)
      (put_balance a (balance_of a s - n) s)) = booked (moved a c n (tv_balance (token_view_of s))) (token_view_of s)"
proof -
  have ok: "accounts_ok s" using assms by (simp add: token_ready_def)
  show ?thesis
    by (simp add: view_put ok del: view_sel)
       (simp add: booked_def moved_def Let_def)
qed

lemma fold_put_view:
  assumes "token_ready s" and "distinct (map fst ps)"
  shows "token_ready (fold (\<lambda>(w, v). put_balance w v) ps s) \<and>
    (\<forall>a. balance_of a (fold (\<lambda>(w, v). put_balance w v) ps s) =
       (case map_of ps a of Some v \<Rightarrow> v | None \<Rightarrow> balance_of a s)) \<and>
    tk_TotalSupply (sd_sinarToken (fold (\<lambda>(w, v). put_balance w v) ps s)) = tk_TotalSupply (sd_sinarToken s)"
proof -
  have "tk_TotalSupply (sd_sinarToken (fold (\<lambda>(w, v). put_balance w v) ps s)) = tk_TotalSupply (sd_sinarToken s)"
    by (induction ps arbitrary: s) auto
  then show ?thesis
    using assms sinar.fold_put_ok sinar.fold_put_bal [OF assms(2)] by (simp add: token_ready_def fold_put_mu)
qed

lemma distribute_view:
  assumes "token_ready s"
  defines "t \<equiv> fold (\<lambda>(w, v). put_balance w v) all_shares s"
  shows "token_view_of (set_CurrentSupply (SN_calculateTotalSINARSupply t) t) =
      booked (paid_out (tv_balance (token_view_of s))) (token_view_of s) \<and> token_ready t"
proof -
  have d: "distinct (map fst all_shares)" by (simp add: all_shares_fst all_wallets_distinct)
  note facts = fold_put_view [OF assms(1) d, folded t_def]
  have "(\<lambda>a. balance_of a t) = paid_out (\<lambda>a. balance_of a s)" using facts by (simp add: paid_out_def fun_eq_iff)
  moreover have "SN_calculateTotalSINARSupply t = issued (\<lambda>a. balance_of a t)"
    using facts by (intro total_is_issued) (simp add: token_ready_def)
  ultimately show ?thesis using facts by (simp add: view_set_supply) (simp add: token_view_of_def booked_def)
qed

lemma token_exec_spec:
  assumes "token_ready s"
  shows "\<exists>s'. token_exec c s = Returns (fst (token_spec c (token_view_of s)), s') \<and>
    token_view_of s' = snd (token_spec c (token_view_of s)) \<and> token_ready s'"
proof -
  have free: "sd_mu s = unlocked" and ok: "accounts_ok s" using assms by (simp_all add: token_ready_def)
  show ?thesis
  proof (cases c)
    case (Transfer a d n)
    then show ?thesis using transfer_view [OF assms] assms
      by (simp add: Transfer_free [OF free] succeeded_def Let_def)
  next
    case (Mint a n)
    then show ?thesis using assms
      by (simp add: Mint_free [OF free] succeeded_def Let_def view_set_supply view_put ok)
         (simp add: booked_def)
  next
    case (Burn a n)
    have "SN_calculateTotalSINARSupply (put_balance a (balance_of a s - n) s) =
        issued ((\<lambda>c. balance_of c s)(a := balance_of a s - n))"
      using ok by (simp add: total_is_issued fun_upd_def)
    then show ?thesis using Burn assms
      by (simp add: Burn_free [OF free] succeeded_def Let_def view_set_supply view_put ok)
         (simp add: booked_def)
  next
    case (Set_balance a n)
    then show ?thesis using assms by (simp add: SetSINARBalance_free [OF free] view_put ok)
  next
    case Distribute
    then show ?thesis using distribute_view [OF assms]
      by (simp add: Initialize_free [OF free] succeeded_def Let_def)
  qed
qed

lemma token_run_spec:
  assumes "token_ready s"
  shows "\<exists>s'. token_run cs s = Returns (fst (token_spec_run cs (token_view_of s)), s') \<and>
    token_view_of s' = snd (token_spec_run cs (token_view_of s)) \<and> token_ready s'"
  using assms
proof (induction cs arbitrary: s)
  case Nil
  then show ?case by simp
next
  case (Cons c cs)
  obtain s1 where e: "token_exec c s = Returns (fst (token_spec c (token_view_of s)), s1)"
    "token_view_of s1 = snd (token_spec c (token_view_of s))" "token_ready s1"
    using token_exec_spec [OF Cons.prems] by blast
  show ?case using Cons.IH [OF e(3)] by (auto simp: e case_prod_unfold Let_def)
qed

section \<open>What the specification keeps\<close>

text \<open>The books are right, the cap holds and nobody is in debt.\<close>

definition sound_books :: "token_view \<Rightarrow> bool" where
  "sound_books v \<longleftrightarrow> tv_recorded v = issued (tv_balance v) \<and> issued (tv_balance v) \<le> tv_cap v \<and>
     (\<forall>a. 0 \<le> tv_balance v a)"

fun moves_or_mints :: "token_call \<Rightarrow> bool" where
  "moves_or_mints (Transfer a c n) = (0 \<le> n)"
| "moves_or_mints (Mint a n) = (0 \<le> n)"
| "moves_or_mints _ = False"

lemma moved_nonneg: "0 \<le> n \<Longrightarrow> n \<le> b a \<Longrightarrow> \<forall>x. 0 \<le> b x \<Longrightarrow> 0 \<le> moved a c n b x"
  by (simp add: moved_def Let_def)

lemma token_spec_sound: "moves_or_mints c \<Longrightarrow> sound_books v \<Longrightarrow> sound_books (snd (token_spec c v))"
  by (cases c) (auto simp: sound_books_def booked_def issued_moved issued_upd moved_nonneg not_less)

lemma token_spec_cap [simp]: "tv_cap (snd (token_spec c v)) = tv_cap v"
  by (cases c) (auto simp: booked_def Let_def)

lemma token_spec_run_sound:
  "\<forall>c \<in> set cs. moves_or_mints c \<Longrightarrow> sound_books v \<Longrightarrow>
   sound_books (snd (token_spec_run cs v)) \<and> tv_cap (snd (token_spec_run cs v)) = tv_cap v"
  by (induction cs arbitrary: v) (simp_all add: case_prod_unfold Let_def token_spec_sound)

section \<open>Properties\<close>

text \<open>
  C7. The token refines an abstract ledger. Any sequence of transfers, mints, burns, direct writes of a
  balance and initial distributions, on a \<open>StateDB\<close> whose mutex is free, returns; each call succeeds
  exactly when the abstract call does, and the balances of all addresses, the recorded
  supply and the cap are at the end what the abstract ledger computes from those at the start.
\<close>

theorem token_calls_refine:
  assumes "sd_mu s = unlocked" and "accounts_ok s"
  shows "\<exists>s'. token_run cs s = Returns (fst (token_spec_run cs (token_view_of s)), s') \<and>
    token_view_of s' = snd (token_spec_run cs (token_view_of s))"
  using token_run_spec [of s cs] assms by (auto simp: token_ready_def)

theorem token_calls_refine_witness:
  "\<exists>s'. token_run [Mint 7 50, Transfer 7 8 20, Burn 8 5, Transfer 8 7 99] NewStateDB =
     Returns ([True, True, True, False], s') \<and> balance_of 7 s' = 30 \<and> balance_of 8 s' = 15"
proof -
  have v: "token_view_of NewStateDB = \<lparr>tv_balance = (\<lambda>_. 0), tv_recorded = 0, tv_cap = SINAR_TOTAL_SUPPLY\<rparr>"
    by (simp add: token_view_of_def balance_of_def account_of_def NewStateDB_def new_account_def)
  have r: "fst (token_spec_run [Mint 7 50, Transfer 7 8 20, Burn 8 5, Transfer 8 7 99] (token_view_of NewStateDB)) =
      [True, True, True, False]"
    "tv_balance (snd (token_spec_run [Mint 7 50, Transfer 7 8 20, Burn 8 5, Transfer 8 7 99] (token_view_of NewStateDB))) =
      (\<lambda>_. 0)(7 := 30, 8 := 15)"
    by (simp_all add: v booked_def moved_def Let_def SINAR_TOTAL_SUPPLY_def fun_eq_iff)
  obtain s' where s': "token_run [Mint 7 50, Transfer 7 8 20, Burn 8 5, Transfer 8 7 99] NewStateDB =
      Returns ([True, True, True, False], s')" "tv_balance (token_view_of s') = (\<lambda>_. 0)(7 := 30, 8 := 15)"
    using token_calls_refine [of NewStateDB "[Mint 7 50, Transfer 7 8 20, Burn 8 5, Transfer 8 7 99]"] r
    by (auto simp: NewStateDB_def accounts_ok_def simp del: token_run.simps view_sel)
  have "balance_of 7 s' = 30" "balance_of 8 s' = 15"
    using fun_cong [OF s'(2), of 7] fun_cong [OF s'(2), of 8] by simp_all
  then show ?thesis using s'(1) by blast
qed

text \<open>
  C20. Without burning, the cap is safe. From a state with right books, at most the cap issued and no
  negative balance, any sequence of transfers and mints of non-negative amounts leads to
  such a state again: the recorded supply is the sum of all balances, that sum is at most
  \<open>TotalSupply\<close>, and no balance is negative. (Burning and repeating the distribution break it.)
\<close>

theorem cap_holds_without_burn:
  assumes "supply_consistent s" and "SN_calculateTotalSINARSupply s \<le> tk_TotalSupply (sd_sinarToken s)"
    and "\<forall>a. 0 \<le> balance_of a s" and "\<forall>c \<in> set cs. moves_or_mints c"
  shows "\<exists>oks s'. token_run cs s = Returns (oks, s') \<and> supply_consistent s' \<and>
    SN_calculateTotalSINARSupply s' \<le> tk_TotalSupply (sd_sinarToken s') \<and> (\<forall>a. 0 \<le> balance_of a s')"
proof -
  have ready: "token_ready s" using assms(1) by (simp add: token_ready_def supply_consistent_def)
  have "sound_books (token_view_of s)"
    using assms(1-3) by (simp add: sound_books_def supply_consistent_def total_is_issued)
  then have "sound_books (snd (token_spec_run cs (token_view_of s)))"
    using token_spec_run_sound [OF assms(4)] by simp
  moreover obtain s' where s': "token_run cs s = Returns (fst (token_spec_run cs (token_view_of s)), s')"
    "token_view_of s' = snd (token_spec_run cs (token_view_of s))" "token_ready s'"
    using token_run_spec [OF ready] by blast
  ultimately have "sound_books (token_view_of s')" by simp
  then show ?thesis using s'(1,3)
    by (auto simp: sound_books_def supply_consistent_def token_ready_def total_is_issued)
qed

theorem cap_holds_without_burn_witness:
  "\<exists>oks s'. token_run [Mint 7 50, Mint 8 SINAR_TOTAL_SUPPLY, Transfer 7 8 20] NewStateDB = Returns (oks, s') \<and>
     supply_consistent s'"
proof -
  have z: "balance_of a NewStateDB = 0" for a
    by (simp add: balance_of_def account_of_def NewStateDB_def new_account_def)
  have "supply_consistent NewStateDB \<and> SN_calculateTotalSINARSupply NewStateDB \<le> tk_TotalSupply (sd_sinarToken NewStateDB)"
    by (simp add: supply_consistent_def NewStateDB_def accounts_ok_def SN_calculateTotalSINARSupply_def SINAR_TOTAL_SUPPLY_def)
  then show ?thesis
    using cap_holds_without_burn [of NewStateDB "[Mint 7 50, Mint 8 SINAR_TOTAL_SUPPLY, Transfer 7 8 20]"] z
    by (simp add: SINAR_TOTAL_SUPPLY_def del: token_run.simps) blast
qed

lemma listed_share: "map_of all_shares w = None \<longleftrightarrow> w \<notin> set all_wallets"
  unfolding all_shares_fst [symmetric] by (simp add: map_of_eq_None_iff)

lemma paid_out_wallet: "w \<in> set all_wallets \<Longrightarrow> paid_out b w = paid_out b' w"
  using listed_share [of w] by (auto simp: paid_out_def)

lemma paid_out_other: "w \<notin> set all_wallets \<Longrightarrow> paid_out b w = b w"
  using listed_share [of w] by (simp add: paid_out_def)

lemma issued_paid_out: "issued (paid_out (\<lambda>_. 0)) = SINAR_TOTAL_SUPPLY"
proof -
  let ?t = "fold (\<lambda>(w, v). put_balance w v) all_shares NewStateDB"
  have d: "distinct (map fst all_shares)" by (simp add: all_shares_fst all_wallets_distinct)
  have ok: "accounts_ok NewStateDB" and z: "balance_of a NewStateDB = 0"
    "SN_calculateTotalSINARSupply NewStateDB = 0" for a
    by (simp_all add: accounts_ok_def NewStateDB_def balance_of_def account_of_def new_account_def
        SN_calculateTotalSINARSupply_def)
  have "(\<lambda>a. balance_of a ?t) = paid_out (\<lambda>_. 0)"
    using sinar.fold_put_bal [OF d, of _ NewStateDB] by (auto simp: paid_out_def z fun_eq_iff split: option.split)
  then show ?thesis
    using total_is_issued [OF sinar.fold_put_ok [OF ok, of all_shares]] sinar.fold_put_supply [OF ok d]
    by (simp add: z all_shares_sum case_prod_unfold)
qed

lemma paid_out_again:
  "w \<in> set all_wallets \<Longrightarrow> x \<notin> set all_wallets \<Longrightarrow> paid_out (moved w x n (paid_out b)) = (paid_out b)(x := b x + n)"
proof
  fix a
  assume w: "w \<in> set all_wallets" "x \<notin> set all_wallets"
  show "paid_out (moved w x n (paid_out b)) a = ((paid_out b)(x := b x + n)) a"
  proof (cases "a \<in> set all_wallets")
    case True
    then show ?thesis using w paid_out_wallet [OF True, of "moved w x n (paid_out b)" b] by auto
  next
    case False
    then show ?thesis using w by (auto simp: paid_out_other moved_def Let_def)
  qed
qed

text \<open>
  C33. The distribution can be repeated, and refills its wallets: on a new \<open>StateDB\<close>, after a
  distribution, a transfer from a wallet to an outside address and a second distribution, the balances add up
  to the cap plus the amount moved.
\<close>

theorem distribution_repeated:
  assumes "w \<in> set all_wallets" and "x \<notin> set all_wallets" and "n \<le> paid_out (\<lambda>_. 0) w"
  shows "\<exists>s'. token_run [Distribute, Transfer w x n, Distribute] NewStateDB = Returns ([True, True, True], s') \<and>
    SN_calculateTotalSINARSupply s' = SINAR_TOTAL_SUPPLY + n"
proof -
  have ready: "token_ready NewStateDB" by (simp add: token_ready_def NewStateDB_def accounts_ok_def)
  have v: "tv_balance (token_view_of NewStateDB) = (\<lambda>_. 0)"
    by (simp add: balance_of_def account_of_def NewStateDB_def new_account_def)
  have x: "paid_out (\<lambda>_. 0) x = 0" using assms(2) by (simp add: paid_out_other)
  have r: "fst (token_spec_run [Distribute, Transfer w x n, Distribute] (token_view_of NewStateDB)) = [True, True, True]"
    "tv_balance (snd (token_spec_run [Distribute, Transfer w x n, Distribute] (token_view_of NewStateDB))) =
       (paid_out (\<lambda>_. 0))(x := n)"
    using assms paid_out_again [OF assms(1,2), of n "\<lambda>_. 0"] by (simp_all add: booked_def v Let_def del: view_sel)
  obtain s' where s': "token_run [Distribute, Transfer w x n, Distribute] NewStateDB = Returns ([True, True, True], s')"
    "tv_balance (token_view_of s') = (paid_out (\<lambda>_. 0))(x := n)" "token_ready s'"
    using token_run_spec [OF ready, of "[Distribute, Transfer w x n, Distribute]"] r
    by (auto simp del: token_run.simps token_spec_run.simps token_spec.simps view_sel)
  then show ?thesis using x by (auto simp: total_is_issued token_ready_def issued_upd issued_paid_out simp del: token_run.simps)
qed

theorem distribution_repeated_witness:
  "\<exists>s'. token_run [Distribute, Transfer 0x1111111111111111111111111111111111111111 9 1000, Distribute] NewStateDB =
      Returns ([True, True, True], s') \<and> SN_calculateTotalSINARSupply s' > tk_TotalSupply (sd_sinarToken NewStateDB)"
proof -
  have "paid_out (\<lambda>_. 0) 0x1111111111111111111111111111111111111111 = 30000000000000000000000000"
    by (simp add: paid_out_def all_shares_def shares_of_def NewInitialDistribution_def SINAR_TOTAL_SUPPLY_def)
  moreover have "0x1111111111111111111111111111111111111111 \<in> set all_wallets" "9 \<notin> set all_wallets"
    by (simp_all add: all_wallets_def NewInitialDistribution_def)
  ultimately obtain s' where "token_run [Distribute, Transfer 0x1111111111111111111111111111111111111111 9 1000, Distribute]
      NewStateDB = Returns ([True, True, True], s')" "SN_calculateTotalSINARSupply s' = SINAR_TOTAL_SUPPLY + 1000"
    using distribution_repeated [of "0x1111111111111111111111111111111111111111" 9 1000] by (auto simp del: token_run.simps)
  then show ?thesis by (intro exI [of _ s']) (simp add: NewStateDB_def)
qed

end
