(* ===== verification/EVM_Processor.thy ===== *)
theory EVM_Processor
  imports Blocks State_DB Ledger
begin

text \<open>
  \<open>evm.go\<close>: what the processor itself does around go-ethereum's virtual machine.

  The machine and its state are not part of the repository: they are the record \<open>geth\<close>, an argument
  of the operations, over an abstract state type. \<open>vm.NewEVM(context, tx context, ...).Create\<close> and \<open>.Call\<close>
  are its functions \<open>g_Create\<close> and \<open>g_Call\<close>; they take the contexts the processor builds and fail or return the
  new state. The block context carries the processor's own callbacks \<open>canTransfer\<close>, \<open>transfer\<close> and
  \<open>getHash\<close>, through which the machine moves a call's value. The chain configuration is the constant that
  \<open>NewEVMProcessor\<close> sets and belongs to the machine. The one-line wrappers over the state (\<open>GetBalance\<close>
  and so on) are the fields themselves.
\<close>

section \<open>State\<close>

record 'st block_context =
  bctx_CanTransfer :: "'st \<Rightarrow> address \<Rightarrow> int \<Rightarrow> bool"
  bctx_Transfer :: "'st \<Rightarrow> address \<Rightarrow> address \<Rightarrow> int \<Rightarrow> 'st"
  bctx_GetHash :: "u64 \<Rightarrow> hash32"
  bctx_Coinbase :: address
  bctx_BlockNumber :: int
  bctx_Time :: u64
  bctx_Difficulty :: int
  bctx_BaseFee :: int
  bctx_GasLimit :: u64

record tx_context =
  tctx_Origin :: address
  tctx_GasPrice :: int

record 'st geth =
  g_GetBalance :: "address \<Rightarrow> 'st \<Rightarrow> int"
  g_SetBalance :: "address \<Rightarrow> int \<Rightarrow> 'st \<Rightarrow> 'st"
  g_SubBalance :: "address \<Rightarrow> int \<Rightarrow> 'st \<Rightarrow> 'st"
  g_AddBalance :: "address \<Rightarrow> int \<Rightarrow> 'st \<Rightarrow> 'st"
  g_GetCode :: "address \<Rightarrow> 'st \<Rightarrow> byte list"
  g_Create :: "'st block_context \<Rightarrow> tx_context \<Rightarrow> address \<Rightarrow> byte list \<Rightarrow> u64 \<Rightarrow> int \<Rightarrow> 'st \<Rightarrow> 'st option"
  g_Call :: "'st block_context \<Rightarrow> tx_context \<Rightarrow> address \<Rightarrow> address \<Rightarrow> byte list \<Rightarrow> u64 \<Rightarrow> int \<Rightarrow> 'st \<Rightarrow> 'st option"
  g_IntermediateRoot :: "'st \<Rightarrow> hash32"

record contract_info =
  ci_Address :: address
  ci_Code :: "byte list"
  ci_Creator :: address
  ci_CreatedAt :: u64
  ci_GasUsed :: u64
  ci_CallCount :: u64
  ci_ContractType :: string
  ci_Version :: string
  ci_IsVerified :: bool

record contract_manager =
  ctm_contracts :: "(address, contract_info) gomap"
  ctm_maxContractSize :: int
  ctm_gasPerByte :: u64

record gas_meter =
  gm_gasUsed :: u64
  gm_gasLimit :: u64
  gm_refund :: u64

record evm_processor =
  ep_stateDB_set :: bool \<comment> \<open>\<open>stateDB != nil\<close>\<close>
  ep_contractManager :: "contract_manager option" \<comment> \<open>a nil pointer is None\<close>
  ep_gasLimit :: u64
  ep_blockNumber :: int
  ep_blockTime :: u64
  ep_baseFee :: int
  ep_gasPrice :: int
  ep_chainID :: int

definition NewEVMProcessor :: evm_processor where
  "NewEVMProcessor = \<lparr>ep_stateDB_set = False, ep_contractManager = None, ep_gasLimit = 30000000,
     ep_blockNumber = 0, ep_blockTime = 0, ep_baseFee = 1000000000, ep_gasPrice = 2000000000, ep_chainID = 250\<rparr>"

definition EP_SetStateDB :: "evm_processor \<Rightarrow> evm_processor" where
  "EP_SetStateDB ep = ep\<lparr>ep_stateDB_set := True\<rparr>"

definition EP_SetBlockInfo :: "int \<Rightarrow> u64 \<Rightarrow> evm_processor \<Rightarrow> evm_processor" where
  "EP_SetBlockInfo blockNumber blockTime ep = ep\<lparr>ep_blockNumber := blockNumber, ep_blockTime := blockTime\<rparr>"

section \<open>The callbacks of the block context\<close>

definition EP_canTransfer :: "'st geth \<Rightarrow> 'st \<Rightarrow> address \<Rightarrow> int \<Rightarrow> bool" where
  "EP_canTransfer g db a amount \<longleftrightarrow> g_GetBalance g a db \<ge> amount"

definition EP_transfer :: "'st geth \<Rightarrow> 'st \<Rightarrow> address \<Rightarrow> address \<Rightarrow> int \<Rightarrow> 'st" where
  "EP_transfer g db sender recipient amount = g_AddBalance g recipient amount (g_SubBalance g sender amount db)"

definition EP_getHash :: "u64 \<Rightarrow> hash32" where
  "EP_getHash n = 0"

text \<open>\<open>executeEVM\<close> and \<open>CallContract\<close> build the same block context, with different gas limits.\<close>

definition EP_blockContext :: "'st geth \<Rightarrow> evm_processor \<Rightarrow> u64 \<Rightarrow> 'st block_context" where
  "EP_blockContext g ep gasLimit = \<lparr>bctx_CanTransfer = EP_canTransfer g, bctx_Transfer = EP_transfer g,
     bctx_GetHash = EP_getHash, bctx_Coinbase = 0, bctx_BlockNumber = ep_blockNumber ep,
     bctx_Time = ep_blockTime ep, bctx_Difficulty = 0, bctx_BaseFee = ep_baseFee ep, bctx_GasLimit = gasLimit\<rparr>"

section \<open>Transactions and blocks\<close>

definition EP_executeEVM :: "'st geth \<Rightarrow> evm_processor \<Rightarrow> transaction \<Rightarrow> address \<Rightarrow> 'st \<Rightarrow> string + 'st" where
  "EP_executeEVM g ep tx sender st =
     (let ctx = EP_blockContext g ep (ep_gasLimit ep);
          tctx = \<lparr>tctx_Origin = sender, tctx_GasPrice = tx_GasPrice tx\<rparr>
      in case tx_To tx of
        None \<Rightarrow> (case g_Create g ctx tctx sender (tx_Data tx) (tx_Gas tx) (tx_Value tx) st of
            None \<Rightarrow> Inl ''contract creation failed'' | Some st' \<Rightarrow> Inr st')
      | Some to \<Rightarrow> (case g_Call g ctx tctx sender to (tx_Data tx) (tx_Gas tx) (tx_Value tx) st of
            None \<Rightarrow> Inl ''contract call failed'' | Some st' \<Rightarrow> Inr st'))"

text \<open>\<open>big.NewInt(int64(tx.Gas()))\<close>: the gas, read as a signed 64-bit number.\<close>

definition EP_gasCost :: "transaction \<Rightarrow> int" where
  "EP_gasCost tx = tx_GasPrice tx * sint (tx_Gas tx)"

definition EP_processTransaction :: "'st geth \<Rightarrow> evm_processor \<Rightarrow> transaction \<Rightarrow> 'st \<Rightarrow> string + 'st" where
  "EP_processTransaction g ep tx st =
     (case tx_Sender tx of
        None \<Rightarrow> Inl ''failed to get sender''
      | Some sender \<Rightarrow>
          let balance = g_GetBalance g sender st in
          if balance < tx_Value tx then Inl ''insufficient balance''
          else
            let totalCost = tx_Value tx + EP_gasCost tx in
            if balance < totalCost then Inl ''insufficient balance for gas''
            else
              let st1 = g_SetBalance g sender (balance - totalCost) st;
                  st2 = (case tx_To tx of None \<Rightarrow> st1
                         | Some to \<Rightarrow> g_SetBalance g to (g_GetBalance g to st1 + tx_Value tx) st1)
              in EP_executeEVM g ep tx sender st2)"

fun process_all :: "'st geth \<Rightarrow> evm_processor \<Rightarrow> transaction list \<Rightarrow> 'st \<Rightarrow> string + 'st" where
  "process_all g ep [] st = Inr st"
| "process_all g ep (tx # txs) st =
     (case EP_processTransaction g ep tx st of
        Inl err \<Rightarrow> Inl ''failed to process transaction''
      | Inr st' \<Rightarrow> process_all g ep txs st')"

text \<open>A nil parent state panics in \<open>parentState.Copy()\<close>.\<close>

definition EP_ProcessBlock ::
  "'st geth \<Rightarrow> evm_processor \<Rightarrow> block \<Rightarrow> 'st option \<Rightarrow> (string + 'st) outcome" where
  "EP_ProcessBlock g ep b parentState =
     (if \<not> ep_stateDB_set ep then Returns (Inl ''stateDB not set'')
      else case parentState of
             None \<Rightarrow> Panics
           | Some st \<Rightarrow> Returns (process_all g ep (bk_Transactions b) st))"

section \<open>Contract registry and gas meter\<close>

definition CTM_RegisterContract ::
  "address \<Rightarrow> byte list \<Rightarrow> address \<Rightarrow> u64 \<Rightarrow> contract_manager \<Rightarrow> contract_manager" where
  "CTM_RegisterContract a code creator blockNumber m = m\<lparr>ctm_contracts := go_put a
     \<lparr>ci_Address = a, ci_Code = code, ci_Creator = creator, ci_CreatedAt = blockNumber, ci_GasUsed = 0,
      ci_CallCount = 0, ci_ContractType = ''standard'', ci_Version = ''1.0.0'', ci_IsVerified = False\<rparr>
     (ctm_contracts m)\<rparr>"

definition CTM_UpdateContractStats :: "address \<Rightarrow> u64 \<Rightarrow> contract_manager \<Rightarrow> contract_manager" where
  "CTM_UpdateContractStats a gasUsed m =
     (case go_get (ctm_contracts m) a of None \<Rightarrow> m
      | Some c \<Rightarrow> m\<lparr>ctm_contracts := go_put a
          (c\<lparr>ci_GasUsed := ci_GasUsed c + gasUsed, ci_CallCount := ci_CallCount c + 1\<rparr>) (ctm_contracts m)\<rparr>)"

definition CTM_GetContractInfo :: "address \<Rightarrow> contract_manager \<Rightarrow> contract_info option" where
  "CTM_GetContractInfo a m = go_get (ctm_contracts m) a"

definition CTM_GetAllContracts :: "contract_manager \<Rightarrow> (address, contract_info) gomap" where
  "CTM_GetAllContracts m = fold (\<lambda>(a, c). go_put a c) (ctm_contracts m) []"

definition GM_Reset :: "gas_meter \<Rightarrow> gas_meter" where
  "GM_Reset gm = gm\<lparr>gm_gasUsed := 0, gm_refund := 0\<rparr>"

section \<open>What the processor relies on\<close>

text \<open>
  Documented behaviour of go-ethereum. \<open>geth_balances\<close>: the state keeps a balance for each account,
  which \<open>SetBalance\<close>, \<open>SubBalance\<close> and \<open>AddBalance\<close> change as their names say, and none of them
  touches code. \<open>geth_plain_calls\<close>: a call that moves value to an account with no code, and that is not one of
  the nine precompiled contracts, is refused when the context's \<open>CanTransfer\<close> says no; otherwise it creates the
  account if need be, which keeps the balances, hands the value to the context's \<open>Transfer\<close> and does nothing
  else. A call without value may skip the transfer. What \<open>CanTransfer\<close> and \<open>Transfer\<close> do is the caller's
  business: here they are arbitrary.
\<close>

definition geth_balances :: "'st geth \<Rightarrow> bool" where
  "geth_balances g \<longleftrightarrow>
     (\<forall>a b v st. g_GetBalance g b (g_SetBalance g a v st) = (if b = a then v else g_GetBalance g b st) \<and>
        g_GetBalance g b (g_SubBalance g a v st) = g_GetBalance g b st - (if b = a then v else 0) \<and>
        g_GetBalance g b (g_AddBalance g a v st) = g_GetBalance g b st + (if b = a then v else 0) \<and>
        g_GetCode g b (g_SetBalance g a v st) = g_GetCode g b st)"

definition plain_account :: "'st geth \<Rightarrow> address \<Rightarrow> 'st \<Rightarrow> bool" where
  "plain_account g a st \<longleftrightarrow> 9 < a \<and> g_GetCode g a st = []"

definition same_balances :: "'st geth \<Rightarrow> 'st \<Rightarrow> 'st \<Rightarrow> bool" where
  "same_balances g st st' \<longleftrightarrow> (\<forall>a. g_GetBalance g a st' = g_GetBalance g a st)"

definition geth_plain_calls :: "'st geth \<Rightarrow> bool" where
  "geth_plain_calls g \<longleftrightarrow>
     (\<forall>ctx tctx a to data gas v st. plain_account g to st \<longrightarrow>
        (case g_Call g ctx tctx a to data gas v st of
           None \<Rightarrow> v \<noteq> 0 \<and> \<not> bctx_CanTransfer ctx st a v
         | Some st' \<Rightarrow> (v \<noteq> 0 \<longrightarrow> bctx_CanTransfer ctx st a v) \<and>
             (\<exists>st1. same_balances g st st1 \<and> (st' = bctx_Transfer ctx st1 a to v \<or> v = 0 \<and> st' = st1))))"

text \<open>A concrete machine for the examples: balances only, every account without code.\<close>

definition toy_geth :: "(address \<Rightarrow> int) geth" where
  "toy_geth = \<lparr>g_GetBalance = (\<lambda>a st. st a), g_SetBalance = (\<lambda>a v st. st(a := v)),
     g_SubBalance = (\<lambda>a v st. st(a := st a - v)), g_AddBalance = (\<lambda>a v st. st(a := st a + v)),
     g_GetCode = (\<lambda>a st. []),
     g_Create = (\<lambda>ctx tctx a data gas v st. Some st),
     g_Call = (\<lambda>ctx tctx a to data gas v st. if v \<noteq> 0 \<and> \<not> bctx_CanTransfer ctx st a v then None
       else Some (bctx_Transfer ctx st a to v)),
     g_IntermediateRoot = (\<lambda>st. 0)\<rparr>"

lemma toy_geth_balances: "geth_balances toy_geth"
  by (simp add: geth_balances_def toy_geth_def)

lemma toy_geth_plain_calls: "geth_plain_calls toy_geth"
  by (auto simp: geth_plain_calls_def same_balances_def toy_geth_def split: if_splits)

section \<open>Properties\<close>

text \<open>What the processor's own callback does to the balances, once for the processor and once for the machine.\<close>

lemma EP_transfer_balance:
  assumes "geth_balances g" and "from \<noteq> to"
  shows "g_GetBalance g b (EP_transfer g st from to v) =
    (if b = from then g_GetBalance g from st - v else if b = to then g_GetBalance g to st + v
     else g_GetBalance g b st)"
  using assms by (simp add: geth_balances_def EP_transfer_def)

lemma plain_call_moves:
  assumes "geth_balances g" and "geth_plain_calls g" and "plain_account g to st" and "from \<noteq> to"
    and "g_Call g (EP_blockContext g ep gl) tctx from to data gas v st = Some st'"
  shows "g_GetBalance g b st' = (if b = from then g_GetBalance g from st - v
     else if b = to then g_GetBalance g to st + v else g_GetBalance g b st)"
proof -
  let ?ctx = "EP_blockContext g ep gl"
  have "case g_Call g ?ctx tctx from to data gas v st of None \<Rightarrow> v \<noteq> 0 \<and> \<not> bctx_CanTransfer ?ctx st from v
     | Some st' \<Rightarrow> (v \<noteq> 0 \<longrightarrow> bctx_CanTransfer ?ctx st from v) \<and>
         (\<exists>st1. same_balances g st st1 \<and> (st' = bctx_Transfer ?ctx st1 from to v \<or> v = 0 \<and> st' = st1))"
    using assms(2,3) unfolding geth_plain_calls_def by blast
  then obtain st1 where st1: "same_balances g st st1" "st' = EP_transfer g st1 from to v \<or> v = 0 \<and> st' = st1"
    unfolding assms(5) by (auto simp: EP_blockContext_def)
  show ?thesis using st1(2)
  proof
    assume "st' = EP_transfer g st1 from to v"
    then show ?thesis using st1(1) by (simp add: EP_transfer_balance [OF assms(1,4)] same_balances_def)
  next
    assume "v = 0 \<and> st' = st1"
    then show ?thesis using st1(1) by (simp add: same_balances_def)
  qed
qed

text \<open>
  C36. A plain transfer is paid twice. When a transaction to an account without code succeeds, the processor
  has already moved the value by \<open>SetBalance\<close> before the machine has it moved again by the processor's own
  \<open>transfer\<close>: the receiver gains twice the value, the sender loses twice the value and the gas cost, and no
  other balance changes; and the gas cost reads the gas as a signed number, so gas of \<open>2 ^ 63\<close> or more
  credits the sender. The machine is any that keeps the documented behaviour above.
\<close>

theorem transfer_paid_twice:
  assumes "geth_balances g" and "geth_plain_calls g" and "plain_account g to st"
    and "tx_To tx = Some to" and "tx_Sender tx = Some from" and "from \<noteq> to"
    and "EP_processTransaction g ep tx st = Inr st'"
  shows "g_GetBalance g to st' = g_GetBalance g to st + 2 * tx_Value tx \<and>
    g_GetBalance g from st' = g_GetBalance g from st - 2 * tx_Value tx - tx_GasPrice tx * sint (tx_Gas tx) \<and>
    (\<forall>b. b \<noteq> from \<and> b \<noteq> to \<longrightarrow> g_GetBalance g b st' = g_GetBalance g b st)"
proof -
  have b: "g_GetBalance g c (g_SetBalance g a v s) = (if c = a then v else g_GetBalance g c s)"
    "g_GetCode g c (g_SetBalance g a v s) = g_GetCode g c s" for a c v s
    using assms(1) by (simp_all add: geth_balances_def)
  define w where "w = tx_Value tx + EP_gasCost tx"
  define s1 where "s1 = g_SetBalance g from (g_GetBalance g from st - w) st"
  define s2 where "s2 = g_SetBalance g to (g_GetBalance g to s1 + tx_Value tx) s1"
  have plain: "plain_account g to s2"
    using assms(3) by (simp add: plain_account_def s1_def s2_def b)
  have call: "g_Call g (EP_blockContext g ep (ep_gasLimit ep)) \<lparr>tctx_Origin = from, tctx_GasPrice = tx_GasPrice tx\<rparr>
      from to (tx_Data tx) (tx_Gas tx) (tx_Value tx) s2 = Some st'"
    using assms(4,5,7)
    by (simp add: EP_processTransaction_def EP_executeEVM_def Let_def s1_def s2_def w_def
        split: if_splits option.splits)
  show ?thesis
    using assms(6) unfolding plain_call_moves [OF assms(1,2) plain assms(6) call]
    by (simp add: s2_def s1_def w_def b EP_gasCost_def)
qed

definition toy_tx :: transaction where
  "toy_tx = \<lparr>tx_Hash = 1, tx_Gas = 21000, tx_GasPrice = 1, tx_Value = 100, tx_To = Some 80, tx_Data = [],
     tx_Sender = Some 70\<rparr>"

theorem transfer_paid_twice_witness:
  "\<exists>st'. EP_processTransaction toy_geth NewEVMProcessor toy_tx ((\<lambda>_. 0)(70 := 50000)) = Inr st' \<and>
     st' 80 = 200 \<and> st' 70 = 28800"
proof -
  have "\<exists>st'. EP_processTransaction toy_geth NewEVMProcessor toy_tx ((\<lambda>_. 0)(70 := 50000)) = Inr st'"
    by (simp add: EP_processTransaction_def EP_executeEVM_def EP_gasCost_def EP_blockContext_def EP_canTransfer_def
        toy_tx_def toy_geth_def Let_def)
  then obtain st' where r: "EP_processTransaction toy_geth NewEVMProcessor toy_tx ((\<lambda>_. 0)(70 := 50000)) = Inr st'"
    by blast
  have "plain_account toy_geth 80 ((\<lambda>_. 0)(70 := 50000))"
    by (simp add: plain_account_def toy_geth_def)
  from transfer_paid_twice [OF toy_geth_balances toy_geth_plain_calls this _ _ _ r, of 70]
  have "g_GetBalance toy_geth 80 st' = 200 \<and> g_GetBalance toy_geth 70 st' = 28800"
    by (simp add: toy_tx_def) (simp add: toy_geth_def)
  then show ?thesis using r by (simp add: toy_geth_def)
qed

end
