(* ===== verification/Time_Groups.thy ===== *)
theory Time_Groups
  imports Sinar_Prelude
begin

text \<open>
  Grouping a list by a key in a Go map of slices: \<open>groups[k] = append(groups[k], e)\<close>. Both the
  blockchain and the consensus engine cut finalised events into time windows this way. The groups
  come out in map order; each holds its events in the order of the input.
\<close>

definition append_to :: "'k \<Rightarrow> 'e \<Rightarrow> ('k, 'e list) gomap \<Rightarrow> ('k, 'e list) gomap" where
  "append_to k e m = go_put k ((case go_get m k of None \<Rightarrow> [] | Some es \<Rightarrow> es) @ [e]) m"

definition group_by :: "('e \<Rightarrow> 'k) \<Rightarrow> 'e list \<Rightarrow> ('k, 'e list) gomap" where
  "group_by key es = fold (\<lambda>e. append_to (key e) e) es []"

lemma group_by_snoc: "group_by key (es @ [e]) = append_to (key e) e (group_by key es)"
  by (simp add: group_by_def)

lemma group_by_get:
  "go_get (group_by key es) k =
     (if \<exists>e \<in> set es. key e = k then Some (filter (\<lambda>e. key e = k) es) else None)"
proof (induction es arbitrary: k rule: rev_induct)
  case Nil
  then show ?case by (simp add: group_by_def)
next
  case (snoc e es)
  have "\<not> (\<exists>a \<in> set es. key a = key e) \<Longrightarrow> filter (\<lambda>a. key a = key e) es = []"
    by (auto simp: filter_empty_conv)
  then show ?case by (auto simp: group_by_snoc append_to_def snoc.IH)
qed

lemma group_by_wf: "wf_gomap (group_by key es)"
proof (induction es rule: rev_induct)
  case Nil
  then show ?case by (simp add: group_by_def)
next
  case (snoc e es)
  then show ?case by (simp add: group_by_snoc append_to_def)
qed

lemma group_by_in:
  "(k, g) \<in> set (group_by key es) \<longleftrightarrow> (\<exists>e \<in> set es. key e = k) \<and> g = filter (\<lambda>e. key e = k) es"
  using go_get_iff [OF group_by_wf, of key es k g] by (auto simp: group_by_get split: if_splits)

text \<open>Every event is in exactly one group, as often as in the input.\<close>

lemma mset_concat_append_to:
  "wf_gomap m \<Longrightarrow> mset (concat (map snd (append_to k e m))) = add_mset e (mset (concat (map snd m)))"
proof (induction m)
  case Nil
  then show ?case by (simp add: append_to_def)
next
  case (Cons a m)
  obtain k' g where a: "a = (k', g)" by (cases a)
  have wf: "wf_gomap m" using Cons.prems by (simp add: wf_gomap_def)
  show ?case
  proof (cases "k' = k")
    case True
    then show ?thesis by (simp add: a append_to_def)
  next
    case False
    then have "append_to k e (a # m) = a # append_to k e m" by (simp add: a append_to_def)
    then show ?thesis using Cons.IH [OF wf] by (simp add: a)
  qed
qed

lemma group_by_mset: "mset (concat (map snd (group_by key es))) = mset es"
proof (induction es rule: rev_induct)
  case Nil
  then show ?case by (simp add: group_by_def)
next
  case (snoc e es)
  then show ?case by (simp add: group_by_snoc mset_concat_append_to group_by_wf)
qed

end
