(* ===== verification/Blockchain.thy ===== *)
theory Blockchain
  imports Dag Blocks EVM_Processor State_DB Tx_Pool Validators Median Time_Groups
begin

text \<open>
  \<open>blockchain.go\<close>: blocks from finalised events, their validation and storage, and the queries.

  The chain holds its mutex across \<open>AddBlock\<close> and asks for it again in \<open>GetLatestBlockNumber\<close>; both
  are modelled call by call, as are the mutexes of the DAG (held while \<open>ProcessAtroposEvents\<close> collects
  events) and of the \<open>StateDB\<close>. Blocks are stored by value. \<open>now\<close> is the clock, \<open>g\<close>
  go-ethereum's machine.
\<close>

section \<open>State\<close>

record 'st blockchain =
  bc_mu :: rwmutex
  bc_blocks :: "(hash32, block) gomap"
  bc_latest :: hash32
  bc_evmProcessor :: evm_processor
  bc_currentState :: "'st option"
  bc_stateDB :: state_db
  bc_txPool :: transaction_pool

definition NewBlockchain :: "'st blockchain" where
  "NewBlockchain = \<lparr>bc_mu = unlocked, bc_blocks = [], bc_latest = 0, bc_evmProcessor = NewEVMProcessor,
     bc_currentState = None, bc_stateDB = NewStateDB, bc_txPool = NewTransactionPool\<rparr>"

definition set_bc_mu :: "rwmutex \<Rightarrow> 'st blockchain \<Rightarrow> 'st blockchain" where
  "set_bc_mu m bc = bc\<lparr>bc_mu := m\<rparr>"

interpretation bc_mutex: mutex_field bc_mu set_bc_mu
  by unfold_locales (simp_all add: set_bc_mu_def)

section \<open>Queries\<close>

definition latest_number :: "'st blockchain \<Rightarrow> u64" where
  "latest_number bc =
     (if bc_latest bc = 0 then 0
      else case go_get (bc_blocks bc) (bc_latest bc) of Some b \<Rightarrow> bh_Number (bk_Header b) | None \<Rightarrow> 0)"

definition BC_GetLatestBlockNumber :: "'st blockchain \<Rightarrow> (u64 \<times> 'st blockchain) outcome" where
  "BC_GetLatestBlockNumber = with_RLock bc_mu set_bc_mu (\<lambda>bc. Returns (latest_number bc, bc))"

definition BC_GetBlock :: "hash32 \<Rightarrow> 'st blockchain \<Rightarrow> (block option \<times> 'st blockchain) outcome" where
  "BC_GetBlock h = with_RLock bc_mu set_bc_mu (\<lambda>bc. Returns (go_get (bc_blocks bc) h, bc))"

definition BC_GetLatestBlock :: "'st blockchain \<Rightarrow> (block option \<times> 'st blockchain) outcome" where
  "BC_GetLatestBlock = with_RLock bc_mu set_bc_mu (\<lambda>bc.
     Returns (if bc_latest bc = 0 then None else go_get (bc_blocks bc) (bc_latest bc), bc))"

definition BC_isEventInBlock :: "event_id \<Rightarrow> 'st blockchain \<Rightarrow> (bool \<times> 'st blockchain) outcome" where
  "BC_isEventInBlock eventID = with_RLock bc_mu set_bc_mu (\<lambda>bc.
     Returns (list_ex (\<lambda>(h, b). eventID \<in> set (bk_Events b)) (bc_blocks bc), bc))"

fun find_block :: "(block \<Rightarrow> bool) \<Rightarrow> (hash32, block) gomap \<Rightarrow> block option" where
  "find_block c [] = None"
| "find_block c ((h, b) # m) = (if c b then Some b else find_block c m)"

definition BC_GetBlockByNumber :: "u64 \<Rightarrow> 'st blockchain \<Rightarrow> (block option \<times> 'st blockchain) outcome" where
  "BC_GetBlockByNumber n = with_RLock bc_mu set_bc_mu (\<lambda>bc.
     Returns (find_block (\<lambda>b. bh_Number (bk_Header b) = n) (bc_blocks bc), bc))"

definition BC_GetBlockRange :: "u64 \<Rightarrow> u64 \<Rightarrow> 'st blockchain \<Rightarrow> (block list \<times> 'st blockchain) outcome" where
  "BC_GetBlockRange lo hi = with_RLock bc_mu set_bc_mu (\<lambda>bc.
     Returns (sort_key (\<lambda>b. bh_Number (bk_Header b))
       (filter (\<lambda>b. bh_Number (bk_Header b) \<ge> lo \<and> bh_Number (bk_Header b) \<le> hi) (map snd (bc_blocks bc))), bc))"

fun find_tx :: "hash32 \<Rightarrow> (hash32, block) gomap \<Rightarrow> (transaction \<times> block) option" where
  "find_tx txHash [] = None"
| "find_tx txHash ((h, b) # m) =
     (case filter (\<lambda>tx. tx_Hash tx = txHash) (bk_Transactions b) of
        tx # _ \<Rightarrow> Some (tx, b) | [] \<Rightarrow> find_tx txHash m)"

definition BC_GetTransactionByHash ::
  "hash32 \<Rightarrow> 'st blockchain \<Rightarrow> ((transaction \<times> block) option \<times> 'st blockchain) outcome" where
  "BC_GetTransactionByHash txHash = with_RLock bc_mu set_bc_mu (\<lambda>bc. Returns (find_tx txHash (bc_blocks bc), bc))"

section \<open>Creating blocks\<close>

definition BC_calculateMedian :: "u64 list \<Rightarrow> u64" where
  "BC_calculateMedian values = go_median values"

definition tx_hash_root :: "block_crypto \<Rightarrow> transaction list \<Rightarrow> hash32" where
  "tx_hash_root x txs = keccak x (concat (map (\<lambda>tx. hash_bytes (tx_Hash tx)) txs))"

definition BC_calculateStateRoot ::
  "block_crypto \<Rightarrow> 'st geth \<Rightarrow> transaction list \<Rightarrow> 'st blockchain \<Rightarrow> hash32" where
  "BC_calculateStateRoot x g txs bc =
     (case bc_currentState bc of Some st \<Rightarrow> g_IntermediateRoot g st | None \<Rightarrow> tx_hash_root x txs)"

definition BC_CreateBlock ::
  "block_crypto \<Rightarrow> 'st geth \<Rightarrow> int \<Rightarrow> event list \<Rightarrow> validator \<Rightarrow> 'st blockchain \<Rightarrow>
   ((string + block) \<times> 'st blockchain) outcome" where
  "BC_CreateBlock x g now atroposEvents v bc =
     (if atroposEvents = [] then Returns (Inl ''no atropos events to create block'', bc)
      else
        let allTxs = concat (map ev_Transactions atroposEvents);
            eventIDs = map (hash_of (crypto.truncate x)) atroposEvents;
            medianTime = BC_calculateMedian (map ev_AtroposTime atroposEvents)
        in and_then (BC_GetLatestBlockNumber bc) (\<lambda>(n, bc1).
             let header = \<lparr>bh_Number = n + 1, bh_ParentHash = bc_latest bc1,
                    bh_Root = BC_calculateStateRoot x g allTxs bc1, bh_AtroposTime = medianTime,
                    bh_CreatedAt = now, bh_Creator = vd_ID v, bh_Signature = [], bh_GasLimit = 30000000,
                    bh_GasUsed = 0, bh_BaseFee = Some 0\<rparr>;
                 b = \<lparr>bk_Header = header, bk_Transactions = allTxs, bk_Events = eventIDs, bk_hash = 0\<rparr>
             in case vd_PrivateKey v of
                  None \<Rightarrow> Panics
                | Some key \<Rightarrow>
                    (case Block_Sign x key b of
                       (False, _) \<Rightarrow> Returns (Inl ''failed to sign block'', bc1)
                     | (True, b') \<Rightarrow> Returns (Inr b', bc1))))"

section \<open>Adding blocks\<close>

definition BC_processTransactionInStateDB ::
  "transaction \<Rightarrow> state_db \<Rightarrow> (unit \<times> state_db) outcome" where
  "BC_processTransactionInStateDB tx s =
     (case tx_Sender tx of
        None \<Rightarrow> Returns ((), s)
      | Some from \<Rightarrow>
          and_then (SD_GetBalance from s) (\<lambda>(balance, s1).
          let required = tx_Value tx + tx_GasPrice tx * int (unat (tx_Gas tx)) in
          if balance \<ge> required then
            and_then (SD_SetBalance from (balance - required) s1) (\<lambda>(_, s2).
            case tx_To tx of
              None \<Rightarrow> Returns ((), s2)
            | Some to \<Rightarrow> and_then (SD_GetBalance to s2) (\<lambda>(toBalance, s3).
                 SD_SetBalance to (toBalance + tx_Value tx) s3))
          else Returns ((), s1)))"

fun BC_updateStateDB :: "transaction list \<Rightarrow> state_db \<Rightarrow> (unit \<times> state_db) outcome" where
  "BC_updateStateDB [] s = Returns ((), s)"
| "BC_updateStateDB (tx # txs) s =
     and_then (BC_processTransactionInStateDB tx s) (\<lambda>(_, s'). BC_updateStateDB txs s')"

definition BC_AddBlock ::
  "block_crypto \<Rightarrow> 'st geth \<Rightarrow> block \<Rightarrow> 'st blockchain \<Rightarrow> (string option \<times> 'st blockchain) outcome" where
  "BC_AddBlock x g b = with_Lock bc_mu set_bc_mu (\<lambda>bc.
     and_then (BC_GetLatestBlockNumber bc) (\<lambda>(n, bc1).
     if bh_Number (bk_Header b) \<noteq> n + 1 then Returns (Some ''invalid block number'', bc1)
     else if bh_ParentHash (bk_Header b) \<noteq> bc_latest bc1 then Returns (Some ''invalid parent hash'', bc1)
     else and_then (EP_ProcessBlock g (bc_evmProcessor bc1) b (bc_currentState bc1)) (\<lambda>res.
       case res of
         Inl err \<Rightarrow> Returns (Some ''failed to process block with EVM'', bc1)
       | Inr newState \<Rightarrow>
           and_then (BC_updateStateDB (bk_Transactions b) (bc_stateDB bc1)) (\<lambda>(_, sdb).
           let (h, b') = Block_Hash x b in
           Returns (None, bc1\<lparr>bc_currentState := Some newState, bc_stateDB := sdb,
             bc_blocks := go_put h b' (bc_blocks bc1), bc_latest := h\<rparr>)))))"

definition BC_groupAtroposEventsByTime :: "event list \<Rightarrow> event list list" where
  "BC_groupAtroposEventsByTime events = map snd (group_by (\<lambda>e. ev_AtroposTime e div 1000) events)"

text \<open>The events of the DAG that are finalised and in no block, asked for one by one.\<close>

fun BC_collect :: "crypto \<Rightarrow> event list \<Rightarrow> 'st blockchain \<Rightarrow> (event list \<times> 'st blockchain) outcome" where
  "BC_collect x [] bc = Returns ([], bc)"
| "BC_collect x (e # es) bc =
     (if ev_Atropos e \<noteq> 0
      then and_then (BC_isEventInBlock (hash_of x e) bc) (\<lambda>(found, bc1).
             and_then (BC_collect x es bc1) (\<lambda>(rest, bc2). Returns (if found then rest else e # rest, bc2)))
      else BC_collect x es bc)"

fun BC_add_groups ::
  "block_crypto \<Rightarrow> 'st geth \<Rightarrow> int \<Rightarrow> validator \<Rightarrow> event list list \<Rightarrow> 'st blockchain \<Rightarrow>
   (string option \<times> 'st blockchain) outcome" where
  "BC_add_groups x g now v [] bc = Returns (None, bc)"
| "BC_add_groups x g now v (es # ess) bc =
     and_then (BC_CreateBlock x g now es v bc) (\<lambda>(res, bc1).
       case res of
         Inl err \<Rightarrow> Returns (Some ''failed to create block'', bc1)
       | Inr b \<Rightarrow> and_then (BC_AddBlock x g b bc1) (\<lambda>(err, bc2).
           if err \<noteq> None then Returns (Some ''failed to add block'', bc2)
           else BC_add_groups x g now v ess bc2))"

definition BC_ProcessAtroposEvents ::
  "block_crypto \<Rightarrow> 'st geth \<Rightarrow> int \<Rightarrow> validator \<Rightarrow> 'a dag_scheme \<Rightarrow> 'st blockchain \<Rightarrow>
   (string option \<times> 'st blockchain) outcome" where
  "BC_ProcessAtroposEvents x g now v d bc =
     and_then (rw_RLock (d_mu d)) (\<lambda>_.
     and_then (BC_collect (crypto.truncate x) (events_seq d) bc) (\<lambda>(atroposEvents, bc1).
     if atroposEvents = [] then Returns (None, bc1)
     else BC_add_groups x g now v (BC_groupAtroposEventsByTime atroposEvents) bc1))"

section \<open>Lemmas\<close>

named_theorems chain_reads "the locked queries, when nobody holds the write lock"

lemma set_bc_mu_fields [simp]:
  "bc_blocks (set_bc_mu m bc) = bc_blocks bc" "bc_latest (set_bc_mu m bc) = bc_latest bc"
  "latest_number (set_bc_mu m bc) = latest_number bc"
  by (simp_all add: set_bc_mu_def latest_number_def)

definition in_some_block :: "event_id \<Rightarrow> 'st blockchain \<Rightarrow> bool" where
  "in_some_block i bc \<longleftrightarrow> (\<exists>(h, b) \<in> set (bc_blocks bc). i \<in> set (bk_Events b))"

lemma GetLatestBlockNumber_free [chain_reads]:
  "\<not> rw_writer (bc_mu bc) \<Longrightarrow> BC_GetLatestBlockNumber bc = Returns (latest_number bc, bc)"
  unfolding BC_GetLatestBlockNumber_def by (subst bc_mutex.RLock_pure_read) simp_all

lemma GetLatestBlockNumber_held:
  "rw_writer (bc_mu bc) \<Longrightarrow> BC_GetLatestBlockNumber bc = Blocks"
  unfolding BC_GetLatestBlockNumber_def by (rule bc_mutex.RLock_under_write)

lemma isEventInBlock_free [chain_reads]:
  "\<not> rw_writer (bc_mu bc) \<Longrightarrow> BC_isEventInBlock i bc = Returns (in_some_block i bc, bc)"
  unfolding BC_isEventInBlock_def
  by (subst bc_mutex.RLock_pure_read) (auto simp: in_some_block_def list_ex_iff)

lemma GetBlock_free [chain_reads]:
  "\<not> rw_writer (bc_mu bc) \<Longrightarrow> BC_GetBlock h bc = Returns (go_get (bc_blocks bc) h, bc)"
  unfolding BC_GetBlock_def by (subst bc_mutex.RLock_pure_read) simp_all

lemma GetBlockRange_free [chain_reads]:
  "\<not> rw_writer (bc_mu bc) \<Longrightarrow> BC_GetBlockRange lo hi bc =
   Returns (sort_key (\<lambda>b. bh_Number (bk_Header b))
     (filter (\<lambda>b. bh_Number (bk_Header b) \<ge> lo \<and> bh_Number (bk_Header b) \<le> hi) (map snd (bc_blocks bc))), bc)"
  unfolding BC_GetBlockRange_def by (subst bc_mutex.RLock_pure_read) simp_all

lemma find_block_Some:
  "find_block c m = Some b \<Longrightarrow> c b \<and> b \<in> snd ` set m"
  by (induction m) (auto split: if_splits)

lemma find_block_None: "find_block c m = None \<longleftrightarrow> (\<forall>(h, b) \<in> set m. \<not> c b)"
  by (induction m) (simp, clarsimp split: prod.split)

text \<open>The mutex is held when \<open>AddBlock\<close> asks for the latest number.\<close>

lemma AddBlock_never_returns: "BC_AddBlock x g b bc = Blocks"
  unfolding BC_AddBlock_def
  by (rule bc_mutex.Lock_then_blocks) (simp add: GetLatestBlockNumber_held)

definition pending :: "crypto \<Rightarrow> 'a dag_scheme \<Rightarrow> 'st blockchain \<Rightarrow> event list" where
  "pending x d bc = filter (\<lambda>e. ev_Atropos e \<noteq> 0 \<and> \<not> in_some_block (hash_of x e) bc) (events_seq d)"

lemma collect_free:
  "\<not> rw_writer (bc_mu bc) \<Longrightarrow>
   BC_collect x es bc = Returns (filter (\<lambda>e. ev_Atropos e \<noteq> 0 \<and> \<not> in_some_block (hash_of x e) bc) es, bc)"
  by (induction es) (simp_all add: chain_reads)

text \<open>The block \<open>CreateBlock\<close> builds, before it is signed.\<close>

definition unsigned_block ::
  "block_crypto \<Rightarrow> 'st geth \<Rightarrow> int \<Rightarrow> event list \<Rightarrow> validator \<Rightarrow> 'st blockchain \<Rightarrow> block" where
  "unsigned_block x g now es v bc =
     \<lparr>bk_Header = \<lparr>bh_Number = latest_number bc + 1, bh_ParentHash = bc_latest bc,
        bh_Root = BC_calculateStateRoot x g (concat (map ev_Transactions es)) bc,
        bh_AtroposTime = go_median (map ev_AtroposTime es), bh_CreatedAt = now, bh_Creator = vd_ID v,
        bh_Signature = [], bh_GasLimit = 30000000, bh_GasUsed = 0, bh_BaseFee = Some 0\<rparr>,
      bk_Transactions = concat (map ev_Transactions es),
      bk_Events = map (hash_of (crypto.truncate x)) es, bk_hash = 0\<rparr>"

lemma CreateBlock_free:
  assumes "\<not> rw_writer (bc_mu bc)" and "es \<noteq> []"
  shows "BC_CreateBlock x g now es v bc =
    (case vd_PrivateKey v of None \<Rightarrow> Panics
     | Some key \<Rightarrow> (case Block_Sign x key (unsigned_block x g now es v bc) of
         (False, _) \<Rightarrow> Returns (Inl ''failed to sign block'', bc)
       | (True, b) \<Rightarrow> Returns (Inr b, bc)))"
proof (cases "vd_PrivateKey v")
  case None
  with assms show ?thesis by (simp add: BC_CreateBlock_def chain_reads)
next
  case (Some key)
  with assms show ?thesis
    by (simp add: BC_CreateBlock_def chain_reads Let_def BC_calculateMedian_def flip: unsigned_block_def)
qed

lemma groups_nonempty: "es \<in> set (BC_groupAtroposEventsByTime events) \<Longrightarrow> es \<noteq> []"
  by (auto simp: BC_groupAtroposEventsByTime_def group_by_in filter_empty_conv)

lemma groups_Nil_iff: "BC_groupAtroposEventsByTime events = [] \<longleftrightarrow> events = []"
proof -
  have "mset (concat (BC_groupAtroposEventsByTime events)) = mset events"
    by (simp add: BC_groupAtroposEventsByTime_def group_by_mset)
  then show ?thesis by (auto simp: BC_groupAtroposEventsByTime_def group_by_def)
qed

lemma Block_Sign_ok: "fst (Block_Sign x key b) \<longleftrightarrow>
    ecdsa_Sign x (keccak x (hash_bytes (fst (Block_Hash x b)))) key \<noteq> None"
  by (auto simp: Block_Sign_def split: prod.split option.split)

lemma add_groups_first:
  assumes "\<not> rw_writer (bc_mu bc)" and "es \<noteq> []"
  shows "BC_add_groups x g now v (es # ess) bc =
    (case vd_PrivateKey v of None \<Rightarrow> Panics
     | Some key \<Rightarrow> if fst (Block_Sign x key (unsigned_block x g now es v bc)) then Blocks
                   else Returns (Some ''failed to create block'', bc))"
  by (simp add: CreateBlock_free [OF assms] AddBlock_never_returns split: option.split prod.split bool.split)

lemma process_run:
  assumes "\<not> rw_writer (bc_mu bc)" and "\<not> rw_writer (d_mu d)"
  shows "BC_ProcessAtroposEvents x g now v d bc =
    (if pending (crypto.truncate x) d bc = [] then Returns (None, bc)
     else case vd_PrivateKey v of
        None \<Rightarrow> Panics
      | Some key \<Rightarrow>
          if fst (Block_Sign x key (unsigned_block x g now
               (hd (BC_groupAtroposEventsByTime (pending (crypto.truncate x) d bc))) v bc))
          then Blocks else Returns (Some ''failed to create block'', bc))"
proof -
  define todo where "todo = pending (crypto.truncate x) d bc"
  have start: "BC_ProcessAtroposEvents x g now v d bc =
      (if todo = [] then Returns (None, bc) else BC_add_groups x g now v (BC_groupAtroposEventsByTime todo) bc)"
    using assms by (simp add: BC_ProcessAtroposEvents_def rw_RLock_def collect_free todo_def pending_def)
  show ?thesis
  proof (cases "todo = []")
    case True
    then show ?thesis using start by (simp add: todo_def)
  next
    case False
    obtain es ess where groups: "BC_groupAtroposEventsByTime todo = es # ess"
      using False groups_Nil_iff [of todo] by (cases "BC_groupAtroposEventsByTime todo") auto
    then have "es \<noteq> []" using groups_nonempty [of es todo] by simp
    note first = add_groups_first [OF assms(1) this, of x g now v ess]
    show ?thesis using False unfolding start todo_def [symmetric] groups first list.sel by simp
  qed
qed

lemma CreateBlock_keeps:
  assumes "BC_CreateBlock x g now es v bc = Returns (r, bc')" and "\<not> rw_writer (bc_mu bc)"
  shows "bc' = bc"
proof (cases "es = []")
  case True
  with assms show ?thesis by (simp add: BC_CreateBlock_def)
next
  case False
  show ?thesis using assms(1) unfolding CreateBlock_free [OF assms(2) False]
    by (auto split: option.splits prod.splits bool.splits)
qed

text \<open>
  The calls that write to the chain, when they return. None of them changes it, so the chain a process
  ends up with is the one it started from.
\<close>

inductive bc_step :: "block_crypto \<Rightarrow> 'st geth \<Rightarrow> 'st blockchain \<Rightarrow> 'st blockchain \<Rightarrow> bool" for x g where
  create: "BC_CreateBlock x g now es v bc = Returns (r, bc') \<Longrightarrow> bc_step x g bc bc'"
| add: "BC_AddBlock x g b bc = Returns (r, bc') \<Longrightarrow> bc_step x g bc bc'"
| process: "BC_ProcessAtroposEvents x g now v (d :: dag) bc = Returns (r, bc') \<Longrightarrow> \<not> rw_writer (d_mu d) \<Longrightarrow>
    bc_step x g bc bc'"

inductive_cases bc_stepE [consumes 1, case_names create add process]: "bc_step x g bc bc'"

lemma bc_step_same:
  assumes "bc_step x g bc bc'" and "\<not> rw_writer (bc_mu bc)"
  shows "bc' = bc"
  using assms(1)
proof (cases rule: bc_stepE)
  case (create now es v r)
  then show ?thesis using CreateBlock_keeps assms(2) by blast
next
  case (add b r)
  then show ?thesis by (simp add: AddBlock_never_returns)
next
  case (process now v d r)
  then show ?thesis using process_run [OF assms(2) process(2), of x g now v]
    by (auto split: if_splits option.splits)
qed

lemma bc_reachable_new:
  assumes "(bc_step x g)\<^sup>*\<^sup>* NewBlockchain bc"
  shows "bc = NewBlockchain"
  using assms
proof (induction rule: rtranclp_induct)
  case base
  then show ?case by simp
next
  case (step b c)
  then show ?case using bc_step_same [of x g b c] by (simp add: NewBlockchain_def unlocked_def)
qed

section \<open>Properties\<close>

text \<open>
  C25. \<open>CreateBlock\<close> builds the successor of the latest block. With the chain unlocked, at
  least one event and a key that signs, the block has the next number, the latest hash as parent, the
  events' transactions in order, their hashes as event list, the median of their Atropos times and
  the state root of the current state; its cached hash is the digest of its unsigned contents, and it verifies
  under the validator's public key unless that digest is zero. The chain is left as it was.
\<close>

theorem create_block_spec:
  assumes "\<not> rw_writer (bc_mu bc)" and "es \<noteq> []" and "vd_PrivateKey v = Some key"
    and "\<forall>d. \<exists>s. ecdsa_Sign x d key = Some s \<and> ecdsa_SigToPub x d s = Some (sk_Public key)"
  shows "\<exists>b. BC_CreateBlock x g now es v bc = Returns (Inr b, bc) \<and>
    bh_Number (bk_Header b) = latest_number bc + 1 \<and> bh_ParentHash (bk_Header b) = bc_latest bc \<and>
    bh_Root (bk_Header b) = BC_calculateStateRoot x g (concat (map ev_Transactions es)) bc \<and>
    bh_AtroposTime (bk_Header b) = go_median (map ev_AtroposTime es) \<and> bh_Creator (bk_Header b) = vd_ID v \<and>
    bk_Transactions b = concat (map ev_Transactions es) \<and>
    bk_Events b = map (hash_of (crypto.truncate x)) es \<and>
    bk_hash b = Block_digest x (b\<lparr>bk_Header := (bk_Header b)\<lparr>bh_Signature := []\<rparr>\<rparr>) \<and>
    (bk_hash b \<noteq> 0 \<longrightarrow> Block_VerifySignature x (sk_Public key) b = (True, b))"
proof -
  define u where "u = unsigned_block x g now es v bc"
  define h where "h = Block_digest x u"
  obtain s where s: "ecdsa_Sign x (keccak x (hash_bytes h)) key = Some s"
    and rec: "ecdsa_SigToPub x (keccak x (hash_bytes h)) s = Some (sk_Public key)" using assms(4) by blast
  define b where "b = u\<lparr>bk_hash := h, bk_Header := (bk_Header u)\<lparr>bh_Signature := s\<rparr>\<rparr>"
  have hash: "Block_Hash x u = (h, u\<lparr>bk_hash := h\<rparr>)"
    by (simp add: Block_Hash_def h_def u_def unsigned_block_def Let_def)
  have sign: "Block_Sign x key u = (True, b)" by (simp add: Block_Sign_def hash s b_def)
  have run: "BC_CreateBlock x g now es v bc = Returns (Inr b, bc)"
    by (simp add: CreateBlock_free [OF assms(1,2)] assms(3) sign flip: u_def)
  have "Block_Hash x b = (h, b)" if "h \<noteq> 0" using that by (simp add: Block_Hash_def b_def)
  then have verify: "bk_hash b \<noteq> 0 \<longrightarrow> Block_VerifySignature x (sk_Public key) b = (True, b)"
    by (simp add: Block_VerifySignature_def b_def rec)
  have digest: "bk_hash b = Block_digest x (b\<lparr>bk_Header := (bk_Header b)\<lparr>bh_Signature := []\<rparr>\<rparr>)"
    by (simp add: b_def h_def) (simp add: Block_digest_def u_def unsigned_block_def)
  show ?thesis
    by (rule exI [of _ b], intro conjI run verify digest) (simp_all add: b_def u_def unsigned_block_def)
qed

definition chain_validator :: validator where
  "chain_validator = NewValidator ''v'' sample_key 1 0"

definition empty_chain :: "(address \<Rightarrow> int) blockchain" where
  "empty_chain = NewBlockchain"

lemma empty_chain_fields [simp]:
  "bc_mu empty_chain = unlocked" "bc_blocks empty_chain = []" "latest_number empty_chain = 0" "bc_latest empty_chain = 0"
  by (simp_all add: empty_chain_def NewBlockchain_def latest_number_def)

theorem create_block_spec_witness:
  "\<exists>b. BC_CreateBlock sample_block_crypto toy_geth 0 [zero_event, zero_event] chain_validator empty_chain =
     Returns (Inr b, empty_chain) \<and> bh_Number (bk_Header b) = 1"
proof -
  have "\<forall>d. \<exists>s. ecdsa_Sign sample_block_crypto d sample_key = Some s \<and>
      ecdsa_SigToPub sample_block_crypto d s = Some (sk_Public sample_key)"
    by (simp add: sample_crypto_def)
  then show ?thesis
    using create_block_spec [of empty_chain "[zero_event, zero_event]" chain_validator sample_key
        sample_block_crypto toy_geth 0]
    by (auto simp: chain_validator_def NewValidator_def unlocked_def)
qed

text \<open>
  C26. No block is ever stored. \<open>AddBlock\<close> takes the write lock and then asks for the latest number,
  which waits for that lock: it returns for no block and no chain. So \<open>ProcessAtroposEvents\<close>, called with both
  mutexes free, does nothing when no finalised event is outside the chain, and otherwise panics
  (no key), fails to sign the first group's block, or hangs.
\<close>

theorem process_atropos_events_spec:
  assumes "\<not> rw_writer (bc_mu bc)" and "\<not> rw_writer (d_mu d)"
  shows "BC_AddBlock x g b bc' = Blocks \<and>
    BC_ProcessAtroposEvents x g now v d bc =
      (if \<forall>e \<in> set (events_seq d). ev_Atropos e = 0 \<or> in_some_block (hash_of (crypto.truncate x) e) bc
       then Returns (None, bc)
       else case vd_PrivateKey v of
          None \<Rightarrow> Panics
        | Some key \<Rightarrow>
            if fst (Block_Sign x key (unsigned_block x g now
                 (hd (BC_groupAtroposEventsByTime (pending (crypto.truncate x) d bc))) v bc))
            then Blocks else Returns (Some ''failed to create block'', bc))"
proof (intro conjI AddBlock_never_returns)
  have "pending (crypto.truncate x) d bc = [] \<longleftrightarrow>
      (\<forall>e \<in> set (events_seq d). ev_Atropos e = 0 \<or> in_some_block (hash_of (crypto.truncate x) e) bc)"
    by (auto simp: pending_def filter_empty_conv)
  note this [symmetric]
  then show "BC_ProcessAtroposEvents x g now v d bc =
      (if \<forall>e \<in> set (events_seq d). ev_Atropos e = 0 \<or> in_some_block (hash_of (crypto.truncate x) e) bc
       then Returns (None, bc)
       else case vd_PrivateKey v of
          None \<Rightarrow> Panics
        | Some key \<Rightarrow>
            if fst (Block_Sign x key (unsigned_block x g now
                 (hd (BC_groupAtroposEventsByTime (pending (crypto.truncate x) d bc))) v bc))
            then Blocks else Returns (Some ''failed to create block'', bc))"
    using process_run [OF assms] by simp
qed

theorem process_atropos_events_spec_witness:
  "\<exists>d. BC_ProcessAtroposEvents sample_block_crypto toy_geth 0 chain_validator (d :: dag) empty_chain = Blocks"
proof -
  define d :: dag where "d = (NewDAG (\<lambda>_. zero_event\<lparr>ev_Atropos := 1\<rparr>))\<lparr>d_Events := [(1, 11)]\<rparr>"
  have free: "\<not> rw_writer (bc_mu empty_chain)" "\<not> rw_writer (d_mu d)"
    by (simp_all add: d_def NewDAG_def unlocked_def)
  have "\<not> (\<forall>e \<in> set (events_seq d). ev_Atropos e = 0 \<or> in_some_block (hash_of (crypto.truncate sample_block_crypto) e) empty_chain)"
    by (simp add: d_def NewDAG_def events_seq_def in_some_block_def)
  moreover have "vd_PrivateKey chain_validator = Some sample_key"
    by (simp add: chain_validator_def NewValidator_def)
  moreover have "fst (Block_Sign sample_block_crypto sample_key b)" for b
    by (simp add: Block_Sign_ok) (simp add: sample_crypto_def)
  ultimately have "BC_ProcessAtroposEvents sample_block_crypto toy_geth 0 chain_validator d empty_chain = Blocks"
    using process_atropos_events_spec [OF free, of sample_block_crypto toy_geth zero_block empty_chain 0 chain_validator]
    by simp
  then show ?thesis by blast
qed

end
