(* ===== verification/EVM_Contracts.thy ===== *)
theory EVM_Contracts
  imports EVM_Processor
begin

text \<open>
  \<open>evm.go\<close>: the accessors of the state, deploying and calling contracts, and the statistics.

  The code reads \<open>ep.stateDB.stateDB\<close>, a field that \<open>StateDB\<close> does not have; it is taken to be the go-ethereum
  state, the argument \<open>st\<close>. The operations of that state are the record \<open>geth_state\<close>, \<open>crypto.CreateAddress\<close> the
  argument \<open>cra\<close>. A method call on the nil contract manager panics.
\<close>

section \<open>The state's accounts\<close>

record ('st, 'lg) geth_state =
  gs_GetNonce :: "address \<Rightarrow> 'st \<Rightarrow> u64"
  gs_SetNonce :: "address \<Rightarrow> u64 \<Rightarrow> 'st \<Rightarrow> 'st"
  gs_SetCode :: "address \<Rightarrow> byte list \<Rightarrow> 'st \<Rightarrow> 'st"
  gs_CreateAccount :: "address \<Rightarrow> 'st \<Rightarrow> 'st"
  gs_Exist :: "address \<Rightarrow> 'st \<Rightarrow> bool"
  gs_Empty :: "address \<Rightarrow> 'st \<Rightarrow> bool"
  gs_GetState :: "address \<Rightarrow> hash32 \<Rightarrow> 'st \<Rightarrow> hash32"
  gs_SetState :: "address \<Rightarrow> hash32 \<Rightarrow> hash32 \<Rightarrow> 'st \<Rightarrow> 'st"
  gs_GetCommittedState :: "address \<Rightarrow> hash32 \<Rightarrow> 'st \<Rightarrow> hash32"
  gs_GetRefund :: "'st \<Rightarrow> u64"
  gs_AddRefund :: "u64 \<Rightarrow> 'st \<Rightarrow> 'st"
  gs_SubRefund :: "u64 \<Rightarrow> 'st \<Rightarrow> 'st outcome"
  gs_Snapshot :: "'st \<Rightarrow> int \<times> 'st"
  gs_RevertToSnapshot :: "int \<Rightarrow> 'st \<Rightarrow> 'st outcome"
  gs_AddLog :: "'lg \<Rightarrow> 'st \<Rightarrow> 'st"
  gs_AddPreimage :: "hash32 \<Rightarrow> byte list \<Rightarrow> 'st \<Rightarrow> 'st"

text \<open>The processor's accessors: each is the state's operation, but for \<open>Suicide\<close> and \<open>GetLogs\<close>, which do nothing.\<close>

definition EP_GetBalance :: "'st geth \<Rightarrow> 'st \<Rightarrow> address \<Rightarrow> int" where
  "EP_GetBalance g st a = g_GetBalance g a st"

definition EP_SetBalance :: "'st geth \<Rightarrow> 'st \<Rightarrow> address \<Rightarrow> int \<Rightarrow> 'st" where
  "EP_SetBalance g st a balance = g_SetBalance g a balance st"

definition EP_GetCode :: "'st geth \<Rightarrow> 'st \<Rightarrow> address \<Rightarrow> byte list" where
  "EP_GetCode g st a = g_GetCode g a st"

definition EP_SetCode :: "('st, 'lg) geth_state \<Rightarrow> 'st \<Rightarrow> address \<Rightarrow> byte list \<Rightarrow> 'st" where
  "EP_SetCode gs st a code = gs_SetCode gs a code st"

definition EP_GetStorage :: "('st, 'lg) geth_state \<Rightarrow> 'st \<Rightarrow> address \<Rightarrow> hash32 \<Rightarrow> hash32" where
  "EP_GetStorage gs st a key = gs_GetState gs a key st"

definition EP_SetStorage :: "('st, 'lg) geth_state \<Rightarrow> 'st \<Rightarrow> address \<Rightarrow> hash32 \<Rightarrow> hash32 \<Rightarrow> 'st" where
  "EP_SetStorage gs st a key value = gs_SetState gs a key value st"

definition EP_GetNonce :: "('st, 'lg) geth_state \<Rightarrow> 'st \<Rightarrow> address \<Rightarrow> u64" where
  "EP_GetNonce gs st a = gs_GetNonce gs a st"

definition EP_SetNonce :: "('st, 'lg) geth_state \<Rightarrow> 'st \<Rightarrow> address \<Rightarrow> u64 \<Rightarrow> 'st" where
  "EP_SetNonce gs st a nonce = gs_SetNonce gs a nonce st"

definition EP_CreateAccount :: "('st, 'lg) geth_state \<Rightarrow> 'st \<Rightarrow> address \<Rightarrow> 'st" where
  "EP_CreateAccount gs st a = gs_CreateAccount gs a st"

definition EP_Exist :: "('st, 'lg) geth_state \<Rightarrow> 'st \<Rightarrow> address \<Rightarrow> bool" where
  "EP_Exist gs st a = gs_Exist gs a st"

definition EP_Empty :: "('st, 'lg) geth_state \<Rightarrow> 'st \<Rightarrow> address \<Rightarrow> bool" where
  "EP_Empty gs st a = gs_Empty gs a st"

definition EP_Suicide :: "'st \<Rightarrow> address \<Rightarrow> bool" where
  "EP_Suicide st a = False"

definition EP_GetRefund :: "('st, 'lg) geth_state \<Rightarrow> 'st \<Rightarrow> u64" where
  "EP_GetRefund gs st = gs_GetRefund gs st"

definition EP_AddRefund :: "('st, 'lg) geth_state \<Rightarrow> 'st \<Rightarrow> u64 \<Rightarrow> 'st" where
  "EP_AddRefund gs st gas = gs_AddRefund gs gas st"

definition EP_SubRefund :: "('st, 'lg) geth_state \<Rightarrow> 'st \<Rightarrow> u64 \<Rightarrow> 'st outcome" where
  "EP_SubRefund gs st gas = gs_SubRefund gs gas st"

definition EP_GetCommittedState :: "('st, 'lg) geth_state \<Rightarrow> 'st \<Rightarrow> address \<Rightarrow> hash32 \<Rightarrow> hash32" where
  "EP_GetCommittedState gs st a key = gs_GetCommittedState gs a key st"

definition EP_Snapshot :: "('st, 'lg) geth_state \<Rightarrow> 'st \<Rightarrow> int \<times> 'st" where
  "EP_Snapshot gs st = gs_Snapshot gs st"

definition EP_RevertToSnapshot :: "('st, 'lg) geth_state \<Rightarrow> 'st \<Rightarrow> int \<Rightarrow> 'st outcome" where
  "EP_RevertToSnapshot gs st revid = gs_RevertToSnapshot gs revid st"

definition EP_GetLogs :: "'st \<Rightarrow> hash32 \<Rightarrow> 'lg list" where
  "EP_GetLogs st h = []"

definition EP_AddLog :: "('st, 'lg) geth_state \<Rightarrow> 'st \<Rightarrow> 'lg \<Rightarrow> 'st" where
  "EP_AddLog gs st log = gs_AddLog gs log st"

definition EP_AddPreimage :: "('st, 'lg) geth_state \<Rightarrow> 'st \<Rightarrow> hash32 \<Rightarrow> byte list \<Rightarrow> 'st" where
  "EP_AddPreimage gs st h preimage = gs_AddPreimage gs h preimage st"

lemmas accessors = EP_GetNonce_def EP_SetNonce_def EP_SetCode_def EP_CreateAccount_def EP_Exist_def EP_GetBalance_def

definition EP_Prepare :: "int \<Rightarrow> u64 \<Rightarrow> evm_processor \<Rightarrow> evm_processor" where
  "EP_Prepare blockNumber blockTime ep = ep\<lparr>ep_blockNumber := blockNumber, ep_blockTime := blockTime\<rparr>"

section \<open>Contracts\<close>

definition EP_DeployContract ::
  "('st, 'lg) geth_state \<Rightarrow> (address \<Rightarrow> u64 \<Rightarrow> address) \<Rightarrow> address \<Rightarrow> byte list \<Rightarrow> u64 \<Rightarrow> 'st \<Rightarrow> evm_processor \<Rightarrow>
     ((string + address) \<times> 'st \<times> evm_processor) outcome" where
  "EP_DeployContract gs cra creator code gasLimit st ep =
     (if \<not> ep_stateDB_set ep then Returns (Inl ''stateDB not set'', st, ep)
      else
        let nonce = EP_GetNonce gs st creator; contractAddr = cra creator nonce in
        (case ep_contractManager ep of None \<Rightarrow> Panics
         | Some m \<Rightarrow>
           if int (length code) > ctm_maxContractSize m then Returns (Inl ''contract code too large'', st, ep)
           else
             let st1 = EP_CreateAccount gs st contractAddr;
                 st2 = EP_SetCode gs st1 contractAddr code;
                 m1 = CTM_RegisterContract contractAddr code creator (word_of_int (ep_blockNumber ep)) m;
                 st3 = EP_SetNonce gs st2 creator (nonce + 1)
             in Returns (Inr contractAddr, st3, ep\<lparr>ep_contractManager := Some m1\<rparr>)))"

text \<open>The machine works on \<open>st\<close>; the caller gets empty bytes whatever the contract returned.\<close>

definition EP_CallContract ::
  "'st geth \<Rightarrow> ('st, 'lg) geth_state \<Rightarrow> address \<Rightarrow> address \<Rightarrow> byte list \<Rightarrow> u64 \<Rightarrow> 'st \<Rightarrow> evm_processor \<Rightarrow>
     ((string + byte list) \<times> 'st \<times> evm_processor) outcome" where
  "EP_CallContract g gs contractAddr caller data gasLimit st ep =
     (if \<not> ep_stateDB_set ep then Returns (Inl ''stateDB not set'', st, ep)
      else if \<not> EP_Exist gs st contractAddr then Returns (Inl ''contract does not exist'', st, ep)
      else
        (case g_Call g (EP_blockContext g ep gasLimit) \<lparr>tctx_Origin = caller, tctx_GasPrice = ep_gasPrice ep\<rparr>
            caller contractAddr data gasLimit 0 st of
           None \<Rightarrow> Returns (Inl ''contract call failed'', st, ep)
         | Some st1 \<Rightarrow>
           (case ep_contractManager ep of None \<Rightarrow> Panics
            | Some m \<Rightarrow> Returns (Inr [], st1,
                ep\<lparr>ep_contractManager := Some (CTM_UpdateContractStats contractAddr gasLimit m)\<rparr>))))"

record evm_stats =
  es_gas_limit :: u64
  es_base_fee :: int
  es_gas_price :: int
  es_total_contracts :: nat
  es_contracts :: "(address, contract_info) gomap"
  es_chain_id :: int
  es_block_number :: int
  es_block_time :: u64

definition EP_GetEVMStats :: "evm_processor \<Rightarrow> evm_stats outcome" where
  "EP_GetEVMStats ep =
     (case ep_contractManager ep of None \<Rightarrow> Panics
      | Some m \<Rightarrow> Returns \<lparr>es_gas_limit = ep_gasLimit ep, es_base_fee = ep_baseFee ep, es_gas_price = ep_gasPrice ep,
          es_total_contracts = length (CTM_GetAllContracts m), es_contracts = CTM_GetAllContracts m, es_chain_id = ep_chainID ep, es_block_number = ep_blockNumber ep,
          es_block_time = ep_blockTime ep\<rparr>)"

section \<open>Results\<close>

text \<open>What a processor goes through: nothing ever gives it a contract manager.\<close>

inductive ep_configured :: "'st geth \<Rightarrow> ('st, 'lg) geth_state \<Rightarrow> evm_processor \<Rightarrow> bool" for g gs where
  ep_new: "ep_configured g gs NewEVMProcessor"
| ep_state: "ep_configured g gs ep \<Longrightarrow> ep_configured g gs (EP_SetStateDB ep)"
| ep_info: "ep_configured g gs ep \<Longrightarrow> ep_configured g gs (EP_SetBlockInfo n t ep)"
| ep_prepare: "ep_configured g gs ep \<Longrightarrow> ep_configured g gs (EP_Prepare n t ep)"
| ep_deploy: "ep_configured g gs ep \<Longrightarrow> EP_DeployContract gs cra a code gas st ep = Returns (res, st', ep') \<Longrightarrow> ep_configured g gs ep'"
| ep_call: "ep_configured g gs ep \<Longrightarrow> EP_CallContract g gs a b data gas st ep = Returns (ret, st', ep') \<Longrightarrow> ep_configured g gs ep'"

lemma no_contract_manager: "ep_configured g gs ep \<Longrightarrow> ep_contractManager ep = None"
  by (induction rule: ep_configured.induct)
    (auto simp: NewEVMProcessor_def EP_SetStateDB_def EP_SetBlockInfo_def EP_Prepare_def EP_DeployContract_def
      EP_CallContract_def Let_def split: if_splits option.splits)

text \<open>
  No contract is ever deployed or called: in every state a processor can get into, a deployment is
  refused for want of a state or panics, a call is refused, fails or panics, and the statistics panic.
\<close>

theorem contracts_never_work:
  assumes "ep_configured g gs ep"
  shows "(EP_DeployContract gs cra creator code gasLimit st ep = Returns (Inl ''stateDB not set'', st, ep) \<or>
      EP_DeployContract gs cra creator code gasLimit st ep = Panics) \<and>
    (EP_CallContract g gs contractAddr caller data gasLimit st ep = Panics \<or>
      (\<exists>err. EP_CallContract g gs contractAddr caller data gasLimit st ep = Returns (Inl err, st, ep))) \<and>
    EP_GetEVMStats ep = Panics"
  using no_contract_manager [OF assms]
  by (simp add: EP_DeployContract_def EP_CallContract_def EP_GetEVMStats_def Let_def split: option.split)

text \<open>
  With a manager, what a deployment does: the contract is registered under the address derived from the creator's
  nonce, the nonce is raised, and a second deployment by the same creator gets the next nonce's address.
\<close>

theorem deploy_contract_spec:
  assumes "ep_stateDB_set ep" and "ep_contractManager ep = Some m" and "int (length code) \<le> ctm_maxContractSize m"
    and "\<And>a n s. gs_GetNonce gs a (gs_SetNonce gs a n s) = n"
  shows "\<exists>st' ep' m'. EP_DeployContract gs cra creator code gasLimit st ep =
      Returns (Inr (cra creator (gs_GetNonce gs creator st)), st', ep') \<and>
    gs_GetNonce gs creator st' = gs_GetNonce gs creator st + 1 \<and> ep_contractManager ep' = Some m' \<and>
    map_option ci_Code (CTM_GetContractInfo (cra creator (gs_GetNonce gs creator st)) m') = Some code \<and>
    (\<forall>a. a \<noteq> cra creator (gs_GetNonce gs creator st) \<longrightarrow> CTM_GetContractInfo a m' = CTM_GetContractInfo a m)"
  using assms by (simp add: accessors EP_DeployContract_def CTM_RegisterContract_def CTM_GetContractInfo_def Let_def)

text \<open>The gas limit, not the gas used, is added to the contract's account on every call, and the sum wraps.\<close>

lemma call_accounts_gas_limit:
  assumes "go_get (ctm_contracts m) a = Some c"
  shows "CTM_GetContractInfo a (CTM_UpdateContractStats a gasLimit m) =
    Some (c\<lparr>ci_GasUsed := ci_GasUsed c + gasLimit, ci_CallCount := ci_CallCount c + 1\<rparr>)"
  using assms by (simp add: CTM_GetContractInfo_def CTM_UpdateContractStats_def)

end
