(* ===== verification/Memory_Pool.thy ===== *)
theory Memory_Pool
  imports Blocks
begin

text \<open>
  \<open>MemoryOptimizer\<close> of \<open>state.go\<close>: pools of events and blocks. A \<open>sync.Pool\<close> gives back some
  object put in it before, or a fresh one, and may drop any object at a collection; \<open>k\<close> is the
  position the runtime picks (past the end: a fresh object). A fresh transaction is go-ethereum's empty
  one, None here. The collector's statistics are not modelled.
\<close>

record memory_optimizer =
  mo_eventPool :: "event list"
  mo_blockPool :: "block list"
  mo_transactionPool :: "transaction option list"
  mo_gcThreshold :: int
  mo_gcInterval :: int
  mo_lastGC :: int

definition NewMemoryOptimizer :: "int \<Rightarrow> memory_optimizer" where
  "NewMemoryOptimizer now = \<lparr>mo_eventPool = [], mo_blockPool = [], mo_transactionPool = [], mo_gcThreshold = 1000,
     mo_gcInterval = 300000000000, mo_lastGC = now\<rparr>"

fun pool_get :: "nat \<Rightarrow> 'a \<Rightarrow> 'a list \<Rightarrow> 'a \<times> 'a list" where
  "pool_get k fresh [] = (fresh, [])"
| "pool_get 0 fresh (a # as) = (a, as)"
| "pool_get (Suc k) fresh (a # as) = (case pool_get k fresh as of (b, bs) \<Rightarrow> (b, a # bs))"

definition MO_GetEvent :: "nat \<Rightarrow> memory_optimizer \<Rightarrow> event \<times> memory_optimizer" where
  "MO_GetEvent k mo = (case pool_get k zero_event (mo_eventPool mo) of (e, es) \<Rightarrow> (e, mo\<lparr>mo_eventPool := es\<rparr>))"

definition MO_PutEvent :: "event \<Rightarrow> memory_optimizer \<Rightarrow> memory_optimizer" where
  "MO_PutEvent e mo = mo\<lparr>mo_eventPool := Event_Reset e # mo_eventPool mo\<rparr>"

definition MO_GetBlock :: "nat \<Rightarrow> memory_optimizer \<Rightarrow> block \<times> memory_optimizer" where
  "MO_GetBlock k mo = (case pool_get k zero_block (mo_blockPool mo) of (b, bs) \<Rightarrow> (b, mo\<lparr>mo_blockPool := bs\<rparr>))"

definition MO_PutBlock :: "block \<Rightarrow> memory_optimizer \<Rightarrow> memory_optimizer" where
  "MO_PutBlock b mo = mo\<lparr>mo_blockPool := Block_Reset b # mo_blockPool mo\<rparr>"

definition MO_GetTransaction :: "nat \<Rightarrow> memory_optimizer \<Rightarrow> transaction option \<times> memory_optimizer" where
  "MO_GetTransaction k mo =
     (case pool_get k None (mo_transactionPool mo) of (t, ts) \<Rightarrow> (t, mo\<lparr>mo_transactionPool := ts\<rparr>))"

text \<open>The transaction goes back as it is.\<close>

definition MO_PutTransaction :: "transaction \<Rightarrow> memory_optimizer \<Rightarrow> memory_optimizer" where
  "MO_PutTransaction tx mo = mo\<lparr>mo_transactionPool := Some tx # mo_transactionPool mo\<rparr>"

definition MO_triggerGC :: "int \<Rightarrow> memory_optimizer \<Rightarrow> memory_optimizer" where
  "MO_triggerGC now mo = mo\<lparr>mo_lastGC := now\<rparr>"

definition MO_CheckGC :: "int \<Rightarrow> int \<Rightarrow> memory_optimizer \<Rightarrow> memory_optimizer" where
  "MO_CheckGC now eventCount mo =
     (let mo1 = (if eventCount \<ge> mo_gcThreshold mo then MO_triggerGC now mo else mo)
      in if now - mo_lastGC mo1 \<ge> mo_gcInterval mo1 then MO_triggerGC now mo1 else mo1)"

definition MO_Reset :: "memory_optimizer \<Rightarrow> memory_optimizer" where
  "MO_Reset mo = mo\<lparr>mo_eventPool := [], mo_blockPool := [], mo_transactionPool := []\<rparr>"

text \<open>A collection may empty the pools in part.\<close>

definition MO_drop ::
  "(nat \<Rightarrow> bool) \<Rightarrow> (nat \<Rightarrow> bool) \<Rightarrow> (nat \<Rightarrow> bool) \<Rightarrow> memory_optimizer \<Rightarrow> memory_optimizer" where
  "MO_drop keepE keepB keepT mo = mo\<lparr>mo_eventPool := nths (mo_eventPool mo) {i. keepE i},
     mo_blockPool := nths (mo_blockPool mo) {i. keepB i},
     mo_transactionPool := nths (mo_transactionPool mo) {i. keepT i}\<rparr>"

section \<open>Lemmas\<close>

lemma pool_get_set:
  "pool_get k fresh as = (b, bs) \<Longrightarrow> (b = fresh \<or> b \<in> set as) \<and> set bs \<subseteq> set as"
  by (induction k fresh as arbitrary: b bs rule: pool_get.induct) (auto split: prod.splits)

inductive mo_reachable :: "memory_optimizer \<Rightarrow> bool" where
  mo_new: "mo_reachable (NewMemoryOptimizer now)"
| mo_get_event: "mo_reachable mo \<Longrightarrow> mo_reachable (snd (MO_GetEvent k mo))"
| mo_put_event: "mo_reachable mo \<Longrightarrow> mo_reachable (MO_PutEvent e mo)"
| mo_get_block: "mo_reachable mo \<Longrightarrow> mo_reachable (snd (MO_GetBlock k mo))"
| mo_put_block: "mo_reachable mo \<Longrightarrow> mo_reachable (MO_PutBlock b mo)"
| mo_get_transaction: "mo_reachable mo \<Longrightarrow> mo_reachable (snd (MO_GetTransaction k mo))"
| mo_put_transaction: "mo_reachable mo \<Longrightarrow> mo_reachable (MO_PutTransaction tx mo)"
| mo_check_gc: "mo_reachable mo \<Longrightarrow> mo_reachable (MO_CheckGC now n mo)"
| mo_drop: "mo_reachable mo \<Longrightarrow> mo_reachable (MO_drop f g h mo)"
| mo_reset: "mo_reachable mo \<Longrightarrow> mo_reachable (MO_Reset mo)"

definition pools_clean :: "memory_optimizer \<Rightarrow> bool" where
  "pools_clean mo \<longleftrightarrow> set (mo_eventPool mo) \<subseteq> {zero_event\<lparr>ev_hash := Some 0\<rparr>} \<and> set (mo_blockPool mo) \<subseteq> {zero_block}"

lemma nths_subset: "set as \<subseteq> S \<Longrightarrow> set (nths as I) \<subseteq> S"
  using set_nths_subset [of as I] by blast

lemma mo_reachable_clean: "mo_reachable mo \<Longrightarrow> pools_clean mo"
proof (induction rule: mo_reachable.induct)
  case (mo_get_event mo k)
  obtain e es where g: "pool_get k zero_event (mo_eventPool mo) = (e, es)" by fastforce
  then show ?case using mo_get_event.IH pool_get_set [OF g] by (auto simp: pools_clean_def MO_GetEvent_def)
next
  case (mo_get_block mo k)
  obtain e es where g: "pool_get k zero_block (mo_blockPool mo) = (e, es)" by fastforce
  then show ?case using mo_get_block.IH pool_get_set [OF g] by (auto simp: pools_clean_def MO_GetBlock_def)
next
  case (mo_get_transaction mo k)
  then show ?case by (simp add: pools_clean_def MO_GetTransaction_def split: prod.split)
next
  case (mo_drop mo f g h)
  then show ?case by (simp add: pools_clean_def MO_drop_def nths_subset)
qed (simp_all add: pools_clean_def NewMemoryOptimizer_def MO_PutEvent_def Event_Reset_def MO_PutBlock_def
    Block_Reset_zero MO_PutTransaction_def MO_CheckGC_def MO_triggerGC_def Let_def MO_Reset_def)

lemma GetBlock_zero: "pools_clean mo \<Longrightarrow> fst (MO_GetBlock k mo) = zero_block \<and> pools_clean (snd (MO_GetBlock k mo))"
  using pool_get_set [of k zero_block "mo_blockPool mo"]
  by (cases "pool_get k zero_block (mo_blockPool mo)") (auto simp: MO_GetBlock_def pools_clean_def)

section \<open>Properties\<close>

text \<open>
  What the pools hand out. After any sequence of gets, puts, collections and resets, a block from the
  pool is blank, so the block built in it hashes to the digest of its own contents; an
  event from the pool is either new or carries the zero identifier as its cached hash, so every recycled
  event, whatever is written into it, hashes to zero.
\<close>

theorem pools_hand_out:
  assumes "mo_reachable mo"
  shows "fst (MO_GetBlock k mo) = zero_block \<and>
    (let e = fst (MO_GetEvent k mo) in
     e = zero_event \<or> hash_of x (e\<lparr>ev_CreatorID := c, ev_Parents := ps, ev_Lamport := l, ev_Transactions := txs\<rparr>) = 0)"
proof -
  have ok: "pools_clean mo" by (rule mo_reachable_clean [OF assms])
  obtain e es where g: "pool_get k zero_event (mo_eventPool mo) = (e, es)" by fastforce
  then have "e = zero_event \<or> ev_hash e = Some 0"
    using ok pool_get_set [OF g] by (auto simp: pools_clean_def)
  then show ?thesis using GetBlock_zero [OF ok, of k] g by (auto simp: MO_GetEvent_def Let_def)
qed

theorem pools_hand_out_witness:
  "hash_of sample_crypto ((fst (MO_GetEvent 0 (MO_PutEvent zero_event (NewMemoryOptimizer 0))))
     \<lparr>ev_CreatorID := ''a'', ev_Parents := [1], ev_Lamport := 7, ev_Transactions := []\<rparr>) = 0"
proof -
  have "mo_reachable (MO_PutEvent zero_event (NewMemoryOptimizer 0))" by (intro mo_put_event mo_new)
  from pools_hand_out [OF this, where k = 0 and x = sample_crypto and c = "''a''" and ps = "[1]" and l = 7 and txs = "[]"]
  show ?thesis by (simp add: MO_GetEvent_def MO_PutEvent_def Event_Reset_def Let_def)
qed

text \<open>A transaction from the pool is fresh, or one put back before, with all its contents: it is not cleared.\<close>

lemma recycled_transaction:
  "fst (MO_GetTransaction 0 (MO_PutTransaction tx mo)) = Some tx"
  "fst (MO_GetTransaction k mo) = Some tx \<Longrightarrow> Some tx \<in> set (mo_transactionPool mo)"
proof -
  show "fst (MO_GetTransaction 0 (MO_PutTransaction tx mo)) = Some tx"
    by (simp add: MO_GetTransaction_def MO_PutTransaction_def)
  obtain t ts where g: "pool_get k None (mo_transactionPool mo) = (t, ts)" by fastforce
  show "fst (MO_GetTransaction k mo) = Some tx \<Longrightarrow> Some tx \<in> set (mo_transactionPool mo)"
    using pool_get_set [OF g] by (auto simp: MO_GetTransaction_def g)
qed

end
