(* ===== verification/Go_Channel.thy ===== *)
theory Go_Channel
  imports Sinar_Prelude
begin

text \<open>
  Buffered Go channels, as the engine and the parallel processor use them: the non-blocking send of
  a \<open>select\<close> with \<open>default\<close>, the blocking send, the receive of a \<open>range\<close> loop and
  \<open>close\<close>. A send on a closed channel and a second \<open>close\<close> panic. Every channel of the
  program has a positive capacity, so a full buffer means that no receiver is waiting.
\<close>

record 'a channel =
  ch_items :: "'a list"
  ch_cap :: nat
  ch_closed :: bool

definition make_chan :: "nat \<Rightarrow> 'a channel" where
  "make_chan n = \<lparr>ch_items = [], ch_cap = n, ch_closed = False\<rparr>"

definition try_send :: "'a \<Rightarrow> 'a channel \<Rightarrow> (bool \<times> 'a channel) outcome" where
  "try_send a c =
     (if ch_closed c then Panics
      else if length (ch_items c) < ch_cap c then Returns (True, c\<lparr>ch_items := ch_items c @ [a]\<rparr>)
      else Returns (False, c))"

definition send :: "'a \<Rightarrow> 'a channel \<Rightarrow> (unit \<times> 'a channel) outcome" where
  "send a c =
     (if ch_closed c then Panics
      else if length (ch_items c) < ch_cap c then Returns ((), c\<lparr>ch_items := ch_items c @ [a]\<rparr>)
      else Blocks)"

definition receive :: "'a channel \<Rightarrow> ('a option \<times> 'a channel) outcome" where
  "receive c =
     (case ch_items c of
        a # as \<Rightarrow> Returns (Some a, c\<lparr>ch_items := as\<rparr>)
      | [] \<Rightarrow> if ch_closed c then Returns (None, c) else Blocks)"

definition close_chan :: "'a channel \<Rightarrow> (unit \<times> 'a channel) outcome" where
  "close_chan c = (if ch_closed c then Panics else Returns ((), c\<lparr>ch_closed := True\<rparr>))"

section \<open>Lemmas\<close>

definition chan_ok :: "'a channel \<Rightarrow> bool" where
  "chan_ok c \<longleftrightarrow> length (ch_items c) \<le> ch_cap c"

lemma make_chan_fields [simp]:
  "ch_items (make_chan n) = []" "ch_cap (make_chan n) = n" "ch_closed (make_chan n) = False" "chan_ok (make_chan n)"
  by (simp_all add: make_chan_def chan_ok_def)

lemma try_send_ok:
  "try_send a c = Returns (b, c') \<Longrightarrow> chan_ok c \<Longrightarrow>
   chan_ok c' \<and> ch_cap c' = ch_cap c \<and> \<not> ch_closed c' \<and> ch_items c' = ch_items c @ (if b then [a] else [])"
  by (auto simp: try_send_def chan_ok_def split: if_splits)

lemma send_ok:
  "send a c = Returns (u, c') \<Longrightarrow>
   chan_ok c' \<and> ch_cap c' = ch_cap c \<and> \<not> ch_closed c' \<and> ch_items c' = ch_items c @ [a]"
  by (auto simp: send_def chan_ok_def split: if_splits)

lemma receive_ok:
  "receive c = Returns (r, c') \<Longrightarrow> chan_ok c \<Longrightarrow>
   chan_ok c' \<and> ch_cap c' = ch_cap c \<and> ch_closed c' = ch_closed c \<and> ch_items c = case_option [] (\<lambda>a. [a]) r @ ch_items c'"
  by (auto simp: receive_def chan_ok_def split: list.splits if_splits)

lemma close_ok:
  "close_chan c = Returns (u, c') \<Longrightarrow> ch_closed c' \<and> ch_items c' = ch_items c \<and> ch_cap c' = ch_cap c"
  by (auto simp: close_chan_def split: if_splits)

lemma send_closed [simp]: "ch_closed c \<Longrightarrow> try_send a c = Panics" "ch_closed c \<Longrightarrow> send a c = Panics"
  "ch_closed c \<Longrightarrow> close_chan c = Panics"
  by (simp_all add: try_send_def send_def close_chan_def)

end
