(* ===== verification/Parallel_Processor.thy ===== *)
theory Parallel_Processor
  imports Sinar_Event Dag Go_Channel Go_Format
begin

text \<open>
  \<open>ParallelProcessor\<close> of \<open>consensus.go\<close>: two work queues, a result queue, and the workers between
  them. One definition per iteration of a worker's loop: it yields True when the loop goes on and
  False when the worker ends. Durations and the printing of results are left out.
\<close>

section \<open>State\<close>

record consensus_task =
  ct_Round :: u64
  ct_Events :: "eref list"
  ct_Type :: string
  ct_Priority :: int

datatype result_data = No_data | Event_data eref | Round_data u64 string nat

record processing_result =
  pr_TaskID :: string
  pr_Success :: bool
  pr_Data :: result_data
  pr_Error :: "string option"

record parallel_processor =
  pp_eventWorkers :: int
  pp_consensusWorkers :: int
  pp_eventQueue :: "eref channel"
  pp_consensusQueue :: "consensus_task channel"
  pp_results :: "processing_result channel"
  pp_running :: bool

definition NewParallelProcessor :: "int \<Rightarrow> int \<Rightarrow> parallel_processor" where
  "NewParallelProcessor eventWorkers consensusWorkers =
     \<lparr>pp_eventWorkers = eventWorkers, pp_consensusWorkers = consensusWorkers, pp_eventQueue = make_chan 1000,
      pp_consensusQueue = make_chan 100, pp_results = make_chan 100, pp_running = False\<rparr>"

section \<open>Control and queues\<close>

text \<open>\<open>Start\<close>, and how many goroutines it starts: the workers and the result processor.\<close>

definition PP_Start :: "parallel_processor \<Rightarrow> int \<times> parallel_processor" where
  "PP_Start pp =
     (if pp_running pp then (0, pp)
      else (max 0 (pp_eventWorkers pp) + max 0 (pp_consensusWorkers pp) + 1, pp\<lparr>pp_running := True\<rparr>))"

definition PP_Stop :: "parallel_processor \<Rightarrow> (unit \<times> parallel_processor) outcome" where
  "PP_Stop pp =
     (if \<not> pp_running pp then Returns ((), pp)
      else and_then (close_chan (pp_eventQueue pp)) (\<lambda>(_, q1).
           and_then (close_chan (pp_consensusQueue pp)) (\<lambda>(_, q2).
           and_then (close_chan (pp_results pp)) (\<lambda>(_, q3).
           Returns ((), pp\<lparr>pp_running := False, pp_eventQueue := q1, pp_consensusQueue := q2, pp_results := q3\<rparr>)))))"

definition PP_AddEvent :: "eref \<Rightarrow> parallel_processor \<Rightarrow> (unit \<times> parallel_processor) outcome" where
  "PP_AddEvent p pp = and_then (try_send p (pp_eventQueue pp)) (\<lambda>(_, q). Returns ((), pp\<lparr>pp_eventQueue := q\<rparr>))"

definition PP_AddConsensusTask :: "consensus_task \<Rightarrow> parallel_processor \<Rightarrow> (unit \<times> parallel_processor) outcome" where
  "PP_AddConsensusTask t pp =
     and_then (try_send t (pp_consensusQueue pp)) (\<lambda>(_, q). Returns ((), pp\<lparr>pp_consensusQueue := q\<rparr>))"

section \<open>Work\<close>

definition PP_processEvent :: "crypto \<Rightarrow> 'a dag_scheme \<Rightarrow> eref \<Rightarrow> processing_result" where
  "PP_processEvent x d p =
     \<lparr>pr_TaskID = ''event_'' @ hex_fixed 64 (unat (hash_of x (d_heap d p))), pr_Success = True,
      pr_Data = Event_data p, pr_Error = None\<rparr>"

definition task_result :: "string \<Rightarrow> consensus_task \<Rightarrow> processing_result" where
  "task_result name t =
     \<lparr>pr_TaskID = name @ ''_'' @ dec (unat (ct_Round t)), pr_Success = True,
      pr_Data = Round_data (ct_Round t) name (length (ct_Events t)), pr_Error = None\<rparr>"

definition PP_processFameVoting :: "consensus_task \<Rightarrow> processing_result" where
  "PP_processFameVoting t = task_result ''fame_voting'' t"

definition PP_processClothoSelection :: "consensus_task \<Rightarrow> processing_result" where
  "PP_processClothoSelection t = task_result ''clotho_selection'' t"

definition PP_processFinality :: "consensus_task \<Rightarrow> processing_result" where
  "PP_processFinality t = task_result ''finality'' t"

definition PP_processConsensusTask :: "consensus_task \<Rightarrow> processing_result" where
  "PP_processConsensusTask t =
     (if ct_Type t = ''fame_voting'' then PP_processFameVoting t
      else if ct_Type t = ''clotho_selection'' then PP_processClothoSelection t
      else if ct_Type t = ''finality'' then PP_processFinality t
      else \<lparr>pr_TaskID = '''', pr_Success = False, pr_Data = No_data,
            pr_Error = Some (''unknown task type: '' @ ct_Type t)\<rparr>)"

definition PP_eventWorker ::
  "crypto \<Rightarrow> 'a dag_scheme \<Rightarrow> nat \<Rightarrow> parallel_processor \<Rightarrow> (bool \<times> parallel_processor) outcome" where
  "PP_eventWorker x d wid pp =
     and_then (receive (pp_eventQueue pp)) (\<lambda>(item, q).
       let pp1 = pp\<lparr>pp_eventQueue := q\<rparr> in
       case item of
         None \<Rightarrow> Returns (False, pp1)
       | Some p \<Rightarrow>
           if \<not> pp_running pp1 then Returns (False, pp1)
           else and_then (send ((PP_processEvent x d p)\<lparr>pr_TaskID := ''event_'' @ dec wid\<rparr>) (pp_results pp1))
                  (\<lambda>(_, rs). Returns (True, pp1\<lparr>pp_results := rs\<rparr>)))"

definition PP_consensusWorker :: "nat \<Rightarrow> parallel_processor \<Rightarrow> (bool \<times> parallel_processor) outcome" where
  "PP_consensusWorker wid pp =
     and_then (receive (pp_consensusQueue pp)) (\<lambda>(item, q).
       let pp1 = pp\<lparr>pp_consensusQueue := q\<rparr> in
       case item of
         None \<Rightarrow> Returns (False, pp1)
       | Some t \<Rightarrow>
           if \<not> pp_running pp1 then Returns (False, pp1)
           else and_then (send ((PP_processConsensusTask t)\<lparr>pr_TaskID := ''consensus_'' @ dec wid @ ''_'' @ ct_Type t\<rparr>)
                  (pp_results pp1)) (\<lambda>(_, rs). Returns (True, pp1\<lparr>pp_results := rs\<rparr>)))"

definition PP_resultProcessor :: "parallel_processor \<Rightarrow> (bool \<times> parallel_processor) outcome" where
  "PP_resultProcessor pp =
     and_then (receive (pp_results pp)) (\<lambda>(item, q).
       let pp1 = pp\<lparr>pp_results := q\<rparr> in
       Returns (item \<noteq> None \<and> pp_running pp1, pp1))"

section \<open>Lemmas\<close>

definition pp_ok :: "parallel_processor \<Rightarrow> bool" where
  "pp_ok pp \<longleftrightarrow> chan_ok (pp_eventQueue pp) \<and> chan_ok (pp_consensusQueue pp) \<and> chan_ok (pp_results pp) \<and>
     ch_cap (pp_eventQueue pp) = 1000 \<and> ch_cap (pp_consensusQueue pp) = 100 \<and> ch_cap (pp_results pp) = 100 \<and>
     ch_closed (pp_eventQueue pp) = ch_closed (pp_results pp) \<and> ch_closed (pp_consensusQueue pp) = ch_closed (pp_results pp) \<and>
     (pp_running pp \<longrightarrow> \<not> ch_closed (pp_results pp))"

lemma pp_ok_new: "pp_ok (NewParallelProcessor m n)"
  by (simp add: pp_ok_def NewParallelProcessor_def)

lemma pp_ok_start: "pp_ok pp \<Longrightarrow> \<not> ch_closed (pp_results pp) \<Longrightarrow> pp_ok (snd (PP_Start pp))"
  by (simp add: pp_ok_def PP_Start_def)

lemma PP_Stop_ok:
  "pp_ok pp \<Longrightarrow> \<exists>pp'. PP_Stop pp = Returns ((), pp') \<and> pp_ok pp' \<and> \<not> pp_running pp' \<and>
     (pp_running pp \<longrightarrow> ch_closed (pp_eventQueue pp') \<and> ch_closed (pp_consensusQueue pp'))"
  by (auto simp: pp_ok_def PP_Stop_def close_chan_def chan_ok_def)

lemma PP_AddEvent_ok:
  "pp_ok pp \<Longrightarrow> PP_AddEvent p pp = Returns (u, pp') \<Longrightarrow> pp_ok pp' \<and> pp_running pp' = pp_running pp"
  by (auto simp: pp_ok_def PP_AddEvent_def and_then_Returns_iff dest: try_send_ok)

lemma PP_AddConsensusTask_ok:
  "pp_ok pp \<Longrightarrow> PP_AddConsensusTask t pp = Returns (u, pp') \<Longrightarrow> pp_ok pp' \<and> pp_running pp' = pp_running pp"
  by (auto simp: pp_ok_def PP_AddConsensusTask_def and_then_Returns_iff dest: try_send_ok)

end
