(* ===== verification/Consensus_Engine.thy ===== *)
theory Consensus_Engine
  imports Fame_Voting Clotho_Selection Finality Poset_Model Validators Blockchain Memory_Pool Parallel_Processor
begin

text \<open>
  \<open>ConsensusEngine\<close> of \<open>consensus.go\<close>: the event queue, the pipeline of round assignment, fame voting,
  Clotho selection and finality, block creation, and the validator tables.

  The engine's DAG shares the maps of its poset, so \<open>ce_poset\<close> is both (\<open>Poset_Model\<close>).
  \<open>NewClothoSelector\<close> is called with the DAG only, which does not compile: its second argument, the
  fame voting the selector asks, is taken to be the engine's. Printing is left out; gossip is a result. The
  clock, map orders and the pool's choices are arguments.
\<close>

section \<open>State\<close>

record consensus_config =
  cc_BlockTime :: int \<comment> \<open>nanoseconds\<close>
  cc_GasLimit :: u64
  cc_BaseFee :: "int option"

record 'st consensus_engine =
  ce_mu :: rwmutex
  ce_poset :: poset
  ce_validators :: "(address, vref) gomap"
  ce_validatorSet :: validator_set
  ce_lastBlock :: int
  ce_currentRound :: u64
  ce_eventQueue :: "eref channel"
  ce_blockQueue :: "block channel"
  ce_config :: consensus_config
  ce_fameVoting :: fame_voting
  ce_clothoSelector :: clotho_selector
  ce_finalityEngine :: finality_engine
  ce_blockchain :: "'st blockchain"
  ce_stateDB :: state_db
  ce_cacheManager :: cache_manager
  ce_parallelProcessor :: parallel_processor
  ce_memoryOptimizer :: memory_optimizer
  ce_cancelled :: bool \<comment> \<open>whether \<open>ctx\<close> is done\<close>

text \<open>\<open>heap\<close> and \<open>vheap\<close> are the events and validators the callers will pass in.\<close>

definition NewConsensusEngine ::
  "int \<Rightarrow> (eref \<Rightarrow> event) \<Rightarrow> (vref \<Rightarrow> validator) \<Rightarrow> consensus_config \<Rightarrow> 'st consensus_engine" where
  "NewConsensusEngine now heap vheap config =
     \<lparr>ce_mu = unlocked, ce_poset = NewPoset heap (cc_BlockTime config), ce_validators = [],
      ce_validatorSet = NewValidatorSet vheap, ce_lastBlock = 0, ce_currentRound = 0,
      ce_eventQueue = make_chan 1000, ce_blockQueue = make_chan 100, ce_config = config,
      ce_fameVoting = NewFameVoting, ce_clothoSelector = NewClothoSelector,
      ce_finalityEngine = NewFinalityEngine, ce_blockchain = NewBlockchain, ce_stateDB = NewStateDB,
      ce_cacheManager = NewCacheManager 10000, ce_parallelProcessor = NewParallelProcessor 4 2,
      ce_memoryOptimizer = NewMemoryOptimizer now, ce_cancelled = False\<rparr>"

definition set_ce_mu :: "rwmutex \<Rightarrow> 'st consensus_engine \<Rightarrow> 'st consensus_engine" where
  "set_ce_mu m ce = ce\<lparr>ce_mu := m\<rparr>"

interpretation ce_mutex: mutex_field ce_mu set_ce_mu
  by unfold_locales (simp_all add: set_ce_mu_def)

section \<open>Start, stop and events\<close>

definition CE_Start :: "'st consensus_engine \<Rightarrow> 'st consensus_engine" where
  "CE_Start ce = ce\<lparr>ce_parallelProcessor := snd (PP_Start (ce_parallelProcessor ce))\<rparr>"

definition CE_Stop :: "'st consensus_engine \<Rightarrow> (unit \<times> 'st consensus_engine) outcome" where
  "CE_Stop ce =
     and_then (PP_Stop (ce_parallelProcessor ce)) (\<lambda>(_, pp).
     and_then (close_chan (ce_eventQueue ce)) (\<lambda>(_, eq).
     and_then (close_chan (ce_blockQueue ce)) (\<lambda>(_, bq).
     Returns ((), ce\<lparr>ce_cancelled := True, ce_parallelProcessor := pp, ce_eventQueue := eq, ce_blockQueue := bq\<rparr>))))"

definition CE_AddEvent :: "eref \<Rightarrow> 'st consensus_engine \<Rightarrow> (string option \<times> 'st consensus_engine) outcome" where
  "CE_AddEvent p ce =
     and_then (PP_AddEvent p (ce_parallelProcessor ce)) (\<lambda>(_, pp).
     and_then (try_send p (ce_eventQueue ce)) (\<lambda>(sent, eq).
     Returns (if sent then None else Some ''event queue full'',
              ce\<lparr>ce_parallelProcessor := pp, ce_eventQueue := eq\<rparr>)))"

text \<open>
  The body of \<open>processEvents\<close> for one event \<open>p\<close>, with the event it hands to the network when there is one,
  and one turn of its loop.
\<close>

definition CE_processEvent ::
  "crypto \<Rightarrow> orders_of \<Rightarrow> eref \<Rightarrow> 'st consensus_engine \<Rightarrow> (eref option \<times> 'st consensus_engine) outcome" where
  "CE_processEvent x ko p ce =
     (let (eventID, P1) = hash_ref x p (ce_poset ce);
          (cached, cm1) = CM_GetEvent eventID (ce_cacheManager ce);
          (q, cm2) = (case cached of
                        Some cachedEvent \<Rightarrow> (cachedEvent, cm1)
                      | None \<Rightarrow> (p, CM_SetEvent (ko cm1) eventID p cm1));
          (i, P2) = hash_ref x q P1;
          ce1 = ce\<lparr>ce_poset := P2, ce_cacheManager := cm2\<rparr>
      in if go_has (d_Events P2) i then Returns (None, ce1)
         else and_then (P_AddEvent x q P2) (\<lambda>(err, P3).
           Returns (if err = None then Some q else None, ce1\<lparr>ce_poset := P3\<rparr>)))"

definition CE_processEvents ::
  "crypto \<Rightarrow> orders_of \<Rightarrow> 'st consensus_engine \<Rightarrow> ((bool \<times> eref option) \<times> 'st consensus_engine) outcome" where
  "CE_processEvents x ko ce =
     and_then (receive (ce_eventQueue ce)) (\<lambda>(item, q).
       let ce1 = ce\<lparr>ce_eventQueue := q\<rparr> in
       case item of
         None \<Rightarrow> Returns ((False, None), ce1)
       | Some p \<Rightarrow> and_then (CE_processEvent x ko p ce1) (\<lambda>(gossip, ce2). Returns ((True, gossip), ce2)))"

section \<open>The pipeline\<close>

definition CE_getEventsForRound :: "u64 \<Rightarrow> 'st consensus_engine \<Rightarrow> eref list" where
  "CE_getEventsForRound r ce =
     filter (\<lambda>p. ev_Round (d_heap (ce_poset ce) p) = r) (map snd (d_Events (ce_poset ce)))"

fun assign_new_rounds :: "crypto \<Rightarrow> eref list \<Rightarrow> poset \<Rightarrow> poset outcome" where
  "assign_new_rounds x [] P = Returns P"
| "assign_new_rounds x (p # ps) P =
     and_then (if ev_Round (d_heap P p) = 0 \<and> \<not> ev_IsRoot (d_heap P p) then RA_AssignRound x p P else Returns P)
       (assign_new_rounds x ps)"

definition CE_runRoundAssignment ::
  "crypto \<Rightarrow> 'st consensus_engine \<Rightarrow> (unit \<times> 'st consensus_engine) outcome" where
  "CE_runRoundAssignment x = with_Lock ce_mu set_ce_mu (\<lambda>ce.
     and_then (assign_new_rounds x (map snd (d_Events (ce_poset ce))) (ce_poset ce)) (\<lambda>P.
     Returns ((), ce\<lparr>ce_poset := P\<rparr>)))"

definition CE_addTask ::
  "string \<Rightarrow> int \<Rightarrow> 'st consensus_engine \<Rightarrow> 'st consensus_engine outcome" where
  "CE_addTask name priority ce =
     and_then (PP_AddConsensusTask \<lparr>ct_Round = ce_currentRound ce,
         ct_Events = CE_getEventsForRound (ce_currentRound ce) ce, ct_Type = name, ct_Priority = priority\<rparr>
       (ce_parallelProcessor ce)) (\<lambda>(_, pp). Returns (ce\<lparr>ce_parallelProcessor := pp\<rparr>))"

definition CE_runFameVoting ::
  "crypto \<Rightarrow> u64 \<Rightarrow> 'st consensus_engine \<Rightarrow> (unit \<times> 'st consensus_engine) outcome" where
  "CE_runFameVoting x now = with_Lock ce_mu set_ce_mu (\<lambda>ce.
     and_then (CE_addTask ''fame_voting'' 1 ce) (\<lambda>ce1.
     and_then (FV_StartFameVoting x (ce_currentRound ce1) now (ce_poset ce1) (ce_fameVoting ce1)) (\<lambda>(err, fv).
     Returns ((), ce1\<lparr>ce_fameVoting := fv\<rparr>))))"

definition CE_runClothoSelection :: "crypto \<Rightarrow> 'st consensus_engine \<Rightarrow> (unit \<times> 'st consensus_engine) outcome" where
  "CE_runClothoSelection x = with_Lock ce_mu set_ce_mu (\<lambda>ce.
     and_then (CE_addTask ''clotho_selection'' 2 ce) (\<lambda>ce1.
     and_then (CS_SelectClothos x (ce_currentRound ce1) (ce_poset ce1) (Some (ce_fameVoting ce1))
         (ce_clothoSelector ce1)) (\<lambda>(err, cs).
     Returns ((), ce1\<lparr>ce_clothoSelector := cs\<rparr>))))"

definition CE_runFinality ::
  "crypto \<Rightarrow> orders_of \<Rightarrow> (eref \<Rightarrow> u64) \<Rightarrow> u64 list \<Rightarrow> 'st consensus_engine \<Rightarrow>
   (unit \<times> 'st consensus_engine) outcome" where
  "CE_runFinality x ko tms rs = with_Lock ce_mu set_ce_mu (\<lambda>ce.
     and_then (CE_addTask ''finality'' 3 ce) (\<lambda>ce1.
     let (P, fe) = FE_FinalizeEvents x ko tms rs (ce_poset ce1) (ce_finalityEngine ce1) in
     Returns ((), ce1\<lparr>ce_poset := P, ce_finalityEngine := fe\<rparr>)))"

section \<open>Block creation\<close>

definition CE_groupEventsByTime :: "(eref \<Rightarrow> event) \<Rightarrow> eref list \<Rightarrow> eref list list" where
  "CE_groupEventsByTime heap ps =
     map snd (group_by (\<lambda>p. ev_AtroposTime (heap p) div 2000) (filter (\<lambda>p. ev_Atropos (heap p) \<noteq> 0) ps))"

definition CE_calculateMedian :: "u64 list \<Rightarrow> u64" where
  "CE_calculateMedian values = go_median values"

definition CE_calculateStateRoot :: "block_crypto \<Rightarrow> transaction list \<Rightarrow> hash32" where
  "CE_calculateStateRoot x txs = tx_hash_root x txs"

definition CE_createBlockFromEvents ::
  "block_crypto \<Rightarrow> int \<Rightarrow> nat \<Rightarrow> eref list \<Rightarrow> 'st consensus_engine \<Rightarrow>
   (block option \<times> 'st consensus_engine) outcome" where
  "CE_createBlockFromEvents x now k ps ce =
     (if ps = [] then Returns (None, ce)
      else
        let heap = d_heap (ce_poset ce);
            transactions = concat (map (\<lambda>p. ev_Transactions (heap p)) ps);
            eventIDs = map (\<lambda>p. hash_of (crypto.truncate x) (heap p)) ps;
            ts = filter (\<lambda>t. t > 0) (map (\<lambda>p. ev_AtroposTime (heap p)) ps);
            medianTime = (if length ts > 0 then CE_calculateMedian ts else 0)
        in and_then (P_GetLatestBlock (ce_poset ce)) (\<lambda>(latestBlock, P).
             let (parentHash, blockNumber) =
                   (case latestBlock of
                      Some b \<Rightarrow> (fst (Block_Hash x b), bh_Number (bk_Header b) + 1)
                    | None \<Rightarrow> (0, 1));
                 header = \<lparr>bh_Number = blockNumber, bh_ParentHash = parentHash,
                    bh_Root = CE_calculateStateRoot x transactions, bh_AtroposTime = medianTime, bh_CreatedAt = now,
                    bh_Creator = ''SinarChain'', bh_Signature = [], bh_GasLimit = cc_GasLimit (ce_config ce),
                    bh_GasUsed = 0, bh_BaseFee = cc_BaseFee (ce_config ce)\<rparr>;
                 (b, mo) = MO_GetBlock k (ce_memoryOptimizer ce)
             in Returns (Some (b\<lparr>bk_Header := header, bk_Transactions := transactions, bk_Events := eventIDs\<rparr>),
                         ce\<lparr>ce_poset := P, ce_memoryOptimizer := mo\<rparr>)))"

fun CE_create_groups ::
  "block_crypto \<Rightarrow> int \<Rightarrow> nat \<Rightarrow> eref list list \<Rightarrow> 'st consensus_engine \<Rightarrow> (unit \<times> 'st consensus_engine) outcome" where
  "CE_create_groups x now k [] ce = Returns ((), ce)"
| "CE_create_groups x now k (ps # pss) ce =
     and_then (CE_createBlockFromEvents x now k ps ce) (\<lambda>(block, ce1).
       case block of
         None \<Rightarrow> CE_create_groups x now k pss ce1
       | Some b \<Rightarrow> and_then (try_send b (ce_blockQueue ce1)) (\<lambda>(sent, bq).
           CE_create_groups x now k pss
             (if sent then ce1\<lparr>ce_blockQueue := bq, ce_lastBlock := now\<rparr> else ce1)))"

definition CE_createBlock ::
  "block_crypto \<Rightarrow> int \<Rightarrow> nat \<Rightarrow> 'st consensus_engine \<Rightarrow> (unit \<times> 'st consensus_engine) outcome" where
  "CE_createBlock x now k = with_Lock ce_mu set_ce_mu (\<lambda>ce.
     if now - ce_lastBlock ce < cc_BlockTime (ce_config ce) then Returns ((), ce)
     else
       let finalizedEvents = FE_GetFinalizedEvents (ce_poset ce) in
       if finalizedEvents = [] then Returns ((), ce)
       else CE_create_groups x now k (CE_groupEventsByTime (d_heap (ce_poset ce)) finalizedEvents) ce)"

section \<open>Validators\<close>

text \<open>\<open>h2a\<close> and \<open>a2h\<close> are go-ethereum's \<open>common.HexToAddress\<close> and \<open>Address.Hex\<close>.\<close>

definition CE_AddValidator ::
  "(string \<Rightarrow> address) \<Rightarrow> vref \<Rightarrow> 'st consensus_engine \<Rightarrow> (string option \<times> 'st consensus_engine) outcome" where
  "CE_AddValidator h2a v = with_Lock ce_mu set_ce_mu (\<lambda>ce.
     let addr = h2a (vd_Address (vs_heap (ce_validatorSet ce) v)) in
     and_then (VS_locked (VS_AddValidator v) (ce_validatorSet ce)) (\<lambda>(err, vs).
     Returns (None, ce\<lparr>ce_validators := go_put addr v (ce_validators ce), ce_validatorSet := vs\<rparr>)))"

definition CE_RemoveValidator ::
  "(address \<Rightarrow> string) \<Rightarrow> address \<Rightarrow> 'st consensus_engine \<Rightarrow> (string option \<times> 'st consensus_engine) outcome" where
  "CE_RemoveValidator a2h addr = with_Lock ce_mu set_ce_mu (\<lambda>ce.
     and_then (VS_locked (VS_RemoveValidator (a2h addr)) (ce_validatorSet ce)) (\<lambda>(err, vs).
     Returns (None, ce\<lparr>ce_validators := go_del addr (ce_validators ce), ce_validatorSet := vs\<rparr>)))"

definition CE_GetValidators ::
  "'st consensus_engine \<Rightarrow> ((address, vref) gomap \<times> 'st consensus_engine) outcome" where
  "CE_GetValidators = with_RLock ce_mu set_ce_mu (\<lambda>ce.
     Returns (fold (\<lambda>(a, v). go_put a v) (ce_validators ce) [], ce))"

definition CE_GetLatestBlock :: "'st consensus_engine \<Rightarrow> (block option \<times> 'st consensus_engine) outcome" where
  "CE_GetLatestBlock ce = and_then (P_GetLatestBlock (ce_poset ce)) (\<lambda>(b, P). Returns (b, ce\<lparr>ce_poset := P\<rparr>))"

section \<open>The goroutines\<close>

text \<open>
  \<open>consensusLoop\<close> calls \<open>runConsensus\<close>, whose loop runs the pipeline and then calls
  \<open>createBlocks\<close>, a loop that never ends. So the loop is in one of two places: waiting
  for the next tick of \<open>runConsensus\<close>, or inside \<open>createBlocks\<close>.
\<close>

datatype loop_place = In_runConsensus | In_createBlocks

record clocks =
  ck_orders :: orders_of
  ck_millis :: u64
  ck_times :: "eref \<Rightarrow> u64"
  ck_rounds :: "u64 list"
  ck_now :: int
  ck_pick :: nat

definition CE_pipeline ::
  "block_crypto \<Rightarrow> clocks \<Rightarrow> 'st consensus_engine \<Rightarrow> (unit \<times> 'st consensus_engine) outcome" where
  "CE_pipeline x t ce =
     and_then (CE_runRoundAssignment (crypto.truncate x) ce) (\<lambda>(_, ce1).
     and_then (CE_runFameVoting (crypto.truncate x) (ck_millis t) ce1) (\<lambda>(_, ce2).
     and_then (CE_runClothoSelection (crypto.truncate x) ce2) (\<lambda>(_, ce3).
     CE_runFinality (crypto.truncate x) (ck_orders t) (ck_times t) (ck_rounds t) ce3)))"

definition CE_consensusTick ::
  "block_crypto \<Rightarrow> clocks \<Rightarrow> loop_place \<Rightarrow> 'st consensus_engine \<Rightarrow> (loop_place \<times> 'st consensus_engine) outcome" where
  "CE_consensusTick x t place ce =
     (case place of
        In_runConsensus \<Rightarrow> and_then (CE_pipeline x t ce) (\<lambda>(_, ce1). Returns (In_createBlocks, ce1))
      | In_createBlocks \<Rightarrow> and_then (CE_createBlock x (ck_now t) (ck_pick t) ce) (\<lambda>(_, ce1).
          Returns (In_createBlocks, ce1)))"

text \<open>
  The other branch of the \<open>select\<close>: once the context is done, \<open>runConsensus\<close> may return, and the next tick of
  \<open>consensusLoop\<close>, which does not look at the context, calls it again. \<open>createBlocks\<close> never looks at the context.
\<close>

definition CE_consensusDone :: "loop_place \<Rightarrow> 'st consensus_engine \<Rightarrow> loop_place outcome" where
  "CE_consensusDone place ce =
     (if place = In_runConsensus \<and> ce_cancelled ce then Returns In_runConsensus else Blocks)"

section \<open>Lemmas: a poset in which nothing is finalised\<close>

definition quiet :: "poset \<Rightarrow> bool" where
  "quiet P \<longleftrightarrow> p_mu P = unlocked \<and> \<not> rw_writer (d_mu P) \<and> p_LastBlock P = 0 \<and>
     (\<forall>q. ev_Atropos (d_heap P q) = 0) \<and>
     (\<forall>r ri. go_get (d_Rounds P) r = Some ri \<longrightarrow> ri_Clothos ri = [])"

lemma quiet_upd_event:
  "quiet P \<Longrightarrow> (\<And>e. ev_Atropos (f e) = ev_Atropos e) \<Longrightarrow> quiet (upd_event p f P)"
  by (simp add: quiet_def upd_event_def)

lemma register_root_poset [simp]:
  fixes P :: poset
  shows "p_mu (register_root x p P) = p_mu P" "p_LastBlock (register_root x p P) = p_LastBlock P"
    "p_BlockTime (register_root x p P) = p_BlockTime P"
  by (simp_all add: register_root_def Let_def hash_ref_eq DAG_ensureRound_def upd_event_def split: option.split)

lemma round_or_new_quiet: "quiet P \<Longrightarrow> ri_Clothos (round_or_new P r) = []"
  by (auto simp: quiet_def round_or_new_def new_round_info_def split: option.split)

lemma quiet_register_root: "quiet P \<Longrightarrow> quiet (register_root x p P)"
  using round_or_new_quiet [of P]
  by (auto simp: quiet_def register_root_rounds Let_def split: if_splits)

lemma quiet_assign: "quiet P \<Longrightarrow> quiet (assign_with_parents x ps p P)"
  unfolding assign_with_parents_def Let_def
  by (simp add: quiet_register_root quiet_upd_event)

lemma quiet_RA: "quiet P \<Longrightarrow> \<exists>P'. RA_AssignRound x p P = Returns P' \<and> quiet P'"
proof -
  assume q: "quiet P"
  then have "\<not> rw_writer (d_mu P)" by (simp add: quiet_def)
  note run = RA_AssignRound_free [OF this, of x p]
  show ?thesis
    by (cases "collect_parents (d_Events P) (ev_Parents (d_heap P p))") (simp_all add: run q quiet_assign)
qed

lemma quiet_assign_new_rounds: "quiet P \<Longrightarrow> \<exists>P'. assign_new_rounds x ps P = Returns P' \<and> quiet P'"
proof (induction ps arbitrary: P)
  case Nil
  then show ?case by simp
next
  case (Cons p ps)
  obtain P1 where "(if ev_Round (d_heap P p) = 0 \<and> \<not> ev_IsRoot (d_heap P p) then RA_AssignRound x p P else Returns P)
      = Returns P1" "quiet P1"
    using quiet_RA [OF Cons.prems, of x p] Cons.prems
    by (cases "ev_Round (d_heap P p) = 0 \<and> \<not> ev_IsRoot (d_heap P p)") auto
  then show ?case using Cons.IH [of P1] by simp
qed

lemma quiet_hash_ref: "quiet P \<Longrightarrow> quiet (snd (hash_ref x p P))"
  by (simp add: hash_ref_eq quiet_upd_event)

definition rounds_quiet :: "poset \<Rightarrow> bool" where
  "rounds_quiet P \<longleftrightarrow> (\<forall>r ri. go_get (d_Rounds P) r = Some ri \<longrightarrow> ri_Clothos ri = [])"

lemma rounds_quiet_upd_round:
  "rounds_quiet P \<Longrightarrow> (\<And>ri. ri_Clothos (f ri) = ri_Clothos ri) \<Longrightarrow> rounds_quiet (upd_round r f P)"
  by (auto simp: rounds_quiet_def upd_round_get)

lemma update_keeps:
  assumes "P_updateRoundAssignment x p P = Returns P'"
  shows "d_mu P' = d_mu P" "p_LastBlock P' = p_LastBlock P" "p_BlockTime P' = p_BlockTime P"
    "rounds_quiet P \<Longrightarrow> rounds_quiet P'"
proof -
  have up: "d_mu (upd_round r f Q) = d_mu Q" "p_LastBlock (upd_round r f Q) = p_LastBlock Q"
    "p_BlockTime (upd_round r f Q) = p_BlockTime Q" for r f Q
    by (simp_all add: upd_round_def split: option.split)
  show "d_mu P' = d_mu P" "p_LastBlock P' = p_LastBlock P" "p_BlockTime P' = p_BlockTime P"
    using assms by (auto simp: P_updateRoundAssignment_def Let_def up split: if_splits)
  have last: "rounds_quiet (Q\<lparr>p_LastRound := r\<rparr>) = rounds_quiet Q" for Q r by (simp add: rounds_quiet_def)
  have fresh: "rounds_quiet P \<Longrightarrow> rounds_quiet (P\<lparr>d_Rounds := go_put r (new_round_info r) (d_Rounds P)\<rparr>)" for r
    by (simp add: rounds_quiet_def new_round_info_def)
  show "rounds_quiet P \<Longrightarrow> rounds_quiet P'"
    using assms
    by (auto simp: P_updateRoundAssignment_def Let_def last fresh rounds_quiet_upd_round split: if_splits)
qed

lemma quiet_P_AddEvent:
  assumes "quiet P" and "P_AddEvent x p P = Returns (res, P')"
  shows "quiet P'"
proof -
  have mu: "p_mu P = unlocked" using assms(1) by (simp add: quiet_def)
  define P1 where "P1 = snd (hash_ref x p P)"
  have q1: "quiet P1" unfolding P1_def by (rule quiet_hash_ref [OF assms(1)])
  define P2 where "P2 = P1\<lparr>d_Events := go_put (hash_of x (d_heap P p)) p (d_Events P),
    p_Heads := go_put (ev_CreatorID (d_heap P p)) (hash_of x (d_heap P p)) (p_Heads P)\<rparr>"
  define P2l where "P2l = set_p_mu (unlocked\<lparr>rw_writer := True\<rparr>) P2"
  note run = assms(2) [unfolded AddEvent_run [OF mu] Let_def, folded P1_def, folded P2_def, folded P2l_def]
  show ?thesis
  proof (cases "go_has (d_Events P) (hash_of x (d_heap P p))")
    case True
    then show ?thesis using run q1 by simp
  next
    case False
    then obtain P3 where P3: "P_updateRoundAssignment x p P2l = Returns P3" and P': "P' = set_p_mu unlocked P3"
      using run by (auto simp: and_then_Returns_iff)
    have "rounds_quiet P2l" using q1 by (simp add: rounds_quiet_def quiet_def P2l_def P2_def)
    then have "rounds_quiet P3" by (rule update_keeps(4) [OF P3])
    then show ?thesis
      using q1 update_fields(1) [OF P3] update_keeps(1,2) [OF P3]
      by (simp add: quiet_def rounds_quiet_def P' P2l_def P2_def) (simp add: set_p_mu_def)
  qed
qed

definition cache_quiet :: "finality_engine \<Rightarrow> bool" where
  "cache_quiet fe \<longleftrightarrow>
     (\<forall>r cd. go_get (cm_consensusCache (fe_cacheManager fe)) r = Some cd \<longrightarrow> cd_clothos cd \<in> {None, Some []})"

lemma quiet_finality:
  assumes "quiet P" and "cache_quiet fe"
  obtains fe' where "FE_FinalizeEvents x ko tms rs P fe = (P, fe')" and "cache_quiet fe'"
proof -
  have "no_clothos P fe" using assms by (simp add: no_clothos_def cache_quiet_def quiet_def)
  note f = finalize_without_clothos [OF this, of x ko tms rs]
  show ?thesis
    by (rule that [of "snd (FE_FinalizeEvents x ko tms rs P fe)"])
      (use f in \<open>auto simp: prod_eq_iff no_clothos_def cache_quiet_def\<close>)
qed

lemma quiet_no_finalised: "quiet P \<Longrightarrow> FE_GetFinalizedEvents P = []"
  by (simp add: FE_GetFinalizedEvents_def events_where_def quiet_def filter_empty_conv)

section \<open>Lemmas: the engine invariant\<close>

definition clothos_quiet :: "clotho_selector \<Rightarrow> bool" where
  "clothos_quiet cs \<longleftrightarrow> cs_mu cs = unlocked \<and> (\<forall>r c. go_get (cs_clothos cs) r = Some c \<longrightarrow> c = [])"

definition engine_ok :: "'st consensus_engine \<Rightarrow> bool" where
  "engine_ok ce \<longleftrightarrow> ce_mu ce = unlocked \<and> quiet (ce_poset ce) \<and> cache_quiet (ce_finalityEngine ce) \<and>
     undecided (ce_fameVoting ce) \<and> fv_mu (ce_fameVoting ce) = unlocked \<and> clothos_quiet (ce_clothoSelector ce) \<and>
     ce_currentRound ce = 0 \<and> ch_items (ce_blockQueue ce) = [] \<and> ce_blockchain ce = NewBlockchain"

named_theorems engine_runs "what a locked step of the engine does when its mutex is free"

lemma set_ce_mu_fields [simp]:
  "ce_poset (set_ce_mu m ce) = ce_poset ce" "ce_finalityEngine (set_ce_mu m ce) = ce_finalityEngine ce"
  "ce_fameVoting (set_ce_mu m ce) = ce_fameVoting ce" "ce_clothoSelector (set_ce_mu m ce) = ce_clothoSelector ce"
  "ce_currentRound (set_ce_mu m ce) = ce_currentRound ce" "ce_blockQueue (set_ce_mu m ce) = ce_blockQueue ce"
  "ce_config (set_ce_mu m ce) = ce_config ce" "ce_lastBlock (set_ce_mu m ce) = ce_lastBlock ce"
  "ce_validators (set_ce_mu m ce) = ce_validators ce" "ce_validatorSet (set_ce_mu m ce) = ce_validatorSet ce"
  "ce_parallelProcessor (set_ce_mu m ce) = ce_parallelProcessor ce"
  "CE_getEventsForRound r (set_ce_mu m ce) = CE_getEventsForRound r ce"
  by (simp_all add: set_ce_mu_def CE_getEventsForRound_def)

lemma set_ce_mu_writes:
  "(set_ce_mu m ce)\<lparr>ce_poset := P\<rparr> = set_ce_mu m (ce\<lparr>ce_poset := P\<rparr>)"
  "(set_ce_mu m ce)\<lparr>ce_fameVoting := fv\<rparr> = set_ce_mu m (ce\<lparr>ce_fameVoting := fv\<rparr>)"
  "(set_ce_mu m ce)\<lparr>ce_clothoSelector := cs\<rparr> = set_ce_mu m (ce\<lparr>ce_clothoSelector := cs\<rparr>)"
  "(set_ce_mu m ce)\<lparr>ce_finalityEngine := fe\<rparr> = set_ce_mu m (ce\<lparr>ce_finalityEngine := fe\<rparr>)"
  "(set_ce_mu m ce)\<lparr>ce_parallelProcessor := pp\<rparr> = set_ce_mu m (ce\<lparr>ce_parallelProcessor := pp\<rparr>)"
  "(set_ce_mu m ce)\<lparr>ce_validators := vs\<rparr> = set_ce_mu m (ce\<lparr>ce_validators := vs\<rparr>)"
  "(set_ce_mu m ce)\<lparr>ce_validatorSet := vset\<rparr> = set_ce_mu m (ce\<lparr>ce_validatorSet := vset\<rparr>)"
  by (simp_all add: set_ce_mu_def)

text \<open>A locked step whose body leaves the engine's mutex alone is its body.\<close>

lemma ce_locked:
  assumes "ce_mu ce = unlocked"
    and "\<And>m. body (set_ce_mu m ce) = and_then (f ce) (\<lambda>(r, ce'). Returns (r, set_ce_mu m ce'))"
    and "\<And>r ce'. f ce = Returns (r, ce') \<Longrightarrow> ce_mu ce' = unlocked"
  shows "with_Lock ce_mu set_ce_mu body ce = f ce"
proof (cases "f ce")
  case (Returns a)
  obtain r ce' where a: "a = (r, ce')" by (cases a)
  have "body (set_ce_mu (unlocked\<lparr>rw_writer := True\<rparr>) ce) = Returns (r, set_ce_mu (unlocked\<lparr>rw_writer := True\<rparr>) ce')"
    using Returns by (simp add: assms(2) a)
  then have "with_Lock ce_mu set_ce_mu body ce = Returns (r, set_ce_mu unlocked (set_ce_mu (unlocked\<lparr>rw_writer := True\<rparr>) ce'))"
    by (rule ce_mutex.Lock_returns [OF assms(1)]) simp
  then show ?thesis using Returns a assms(3) ce_mutex.set_mu_same [of ce'] by simp
next
  case Blocks
  then show ?thesis using assms(1,2) by (simp add: with_Lock_def rw_Lock_def unlocked_def)
next
  case Panics
  then show ?thesis using assms(1,2) by (simp add: with_Lock_def rw_Lock_def unlocked_def)
qed

lemma and_then_swap: "and_then (and_then m f) g = and_then m (\<lambda>a. and_then (f a) g)"
  by (rule and_then_assoc)

lemma addTask_lift:
  "CE_addTask name n (set_ce_mu m ce) = and_then (CE_addTask name n ce) (\<lambda>ce'. Returns (set_ce_mu m ce'))"
  by (simp add: CE_addTask_def and_then_assoc set_ce_mu_writes case_prod_unfold)

lemma runRoundAssignment_free [engine_runs]:
  "ce_mu ce = unlocked \<Longrightarrow> CE_runRoundAssignment x ce =
     and_then (assign_new_rounds x (map snd (d_Events (ce_poset ce))) (ce_poset ce)) (\<lambda>P. Returns ((), ce\<lparr>ce_poset := P\<rparr>))"
  unfolding CE_runRoundAssignment_def
  by (rule ce_locked) (auto simp: and_then_assoc set_ce_mu_writes and_then_Returns_iff)

lemma addTask_mu: "CE_addTask name n ce = Returns ce' \<Longrightarrow> ce_mu ce' = ce_mu ce"
  by (auto simp: CE_addTask_def and_then_Returns_iff)

lemma runFameVoting_free [engine_runs]:
  "ce_mu ce = unlocked \<Longrightarrow> CE_runFameVoting x now ce =
     and_then (CE_addTask ''fame_voting'' 1 ce) (\<lambda>ce1.
     and_then (FV_StartFameVoting x (ce_currentRound ce1) now (ce_poset ce1) (ce_fameVoting ce1)) (\<lambda>(err, fv).
     Returns ((), ce1\<lparr>ce_fameVoting := fv\<rparr>)))"
  unfolding CE_runFameVoting_def
  by (rule ce_locked) (auto simp: and_then_assoc set_ce_mu_writes and_then_Returns_iff addTask_lift case_prod_unfold addTask_mu)

lemma runClothoSelection_free [engine_runs]:
  "ce_mu ce = unlocked \<Longrightarrow> CE_runClothoSelection x ce =
     and_then (CE_addTask ''clotho_selection'' 2 ce) (\<lambda>ce1.
     and_then (CS_SelectClothos x (ce_currentRound ce1) (ce_poset ce1) (Some (ce_fameVoting ce1))
         (ce_clothoSelector ce1)) (\<lambda>(err, cs).
     Returns ((), ce1\<lparr>ce_clothoSelector := cs\<rparr>)))"
  unfolding CE_runClothoSelection_def
  by (rule ce_locked) (auto simp: and_then_assoc set_ce_mu_writes and_then_Returns_iff addTask_lift case_prod_unfold addTask_mu)

lemma runFinality_free [engine_runs]:
  "ce_mu ce = unlocked \<Longrightarrow> CE_runFinality x ko tms rs ce =
     and_then (CE_addTask ''finality'' 3 ce) (\<lambda>ce1.
     let (P, fe) = FE_FinalizeEvents x ko tms rs (ce_poset ce1) (ce_finalityEngine ce1) in
     Returns ((), ce1\<lparr>ce_poset := P, ce_finalityEngine := fe\<rparr>))"
  unfolding CE_runFinality_def
  by (rule ce_locked) (auto simp: and_then_assoc set_ce_mu_writes and_then_Returns_iff addTask_lift case_prod_unfold addTask_mu Let_def)

lemma addValidator_free [engine_runs]:
  "ce_mu ce = unlocked \<Longrightarrow> CE_AddValidator h2a v ce =
     and_then (VS_locked (VS_AddValidator v) (ce_validatorSet ce)) (\<lambda>(err, vs).
     Returns (None, ce\<lparr>ce_validators := go_put (h2a (vd_Address (vs_heap (ce_validatorSet ce) v))) v (ce_validators ce),
       ce_validatorSet := vs\<rparr>))"
  unfolding CE_AddValidator_def
  by (rule ce_locked) (auto simp: set_ce_mu_writes Let_def and_then_assoc and_then_Returns_iff case_prod_unfold)

lemma removeValidator_free [engine_runs]:
  "ce_mu ce = unlocked \<Longrightarrow> CE_RemoveValidator a2h addr ce =
     and_then (VS_locked (VS_RemoveValidator (a2h addr)) (ce_validatorSet ce)) (\<lambda>(err, vs).
     Returns (None, ce\<lparr>ce_validators := go_del addr (ce_validators ce), ce_validatorSet := vs\<rparr>))"
  unfolding CE_RemoveValidator_def
  by (rule ce_locked) (auto simp: set_ce_mu_writes and_then_assoc and_then_Returns_iff case_prod_unfold)

lemma createBlock_quiet:
  assumes "ce_mu ce = unlocked" and "quiet (ce_poset ce)"
  shows "CE_createBlock x now k ce = Returns ((), ce)"
  unfolding CE_createBlock_def
  by (rule ce_locked [OF assms(1), where f = "\<lambda>ce. Returns ((), ce)"]) (auto simp: quiet_no_finalised assms)

section \<open>Lemmas: one pass of the pipeline\<close>

lemma selectClothos_quiet:
  assumes "clothos_quiet cs" and "undecided fv"
  shows "\<exists>res cs'. CS_SelectClothos x r d (Some fv) cs = Returns (res, cs') \<and> clothos_quiet cs'"
proof -
  have none: "\<not> CS_isFamous x e (Some fv)" for e
    using assms(2) by (simp add: undecided_def CS_isFamous_def go_true_def)
  have sel: "CS_selectClothosFromWitnesses x ws r d (Some fv) cs' [] = []" for ws cs'
    using select_loop_subset [of x ws r d "Some fv" cs' "[]"] none by (auto simp: CS_isClothoCandidate_def)
  have "cs_mu cs = unlocked" using assms(1) by (simp add: clothos_quiet_def)
  note run = SelectClothos_free [OF this, of x r d "Some fv", unfolded sel]
  show ?thesis using assms(1) unfolding run by (auto simp: clothos_quiet_def)
qed

text \<open>The fields a pass does not touch, but for the task queue.\<close>

definition same_rest :: "'st consensus_engine \<Rightarrow> 'st consensus_engine \<Rightarrow> bool" where
  "same_rest ce ce' \<longleftrightarrow> ce_config ce' = ce_config ce \<and> ce_eventQueue ce' = ce_eventQueue ce \<and>
     ce_blockQueue ce' = ce_blockQueue ce \<and> ce_validators ce' = ce_validators ce \<and>
     ce_validatorSet ce' = ce_validatorSet ce \<and> ce_cacheManager ce' = ce_cacheManager ce \<and>
     ce_lastBlock ce' = ce_lastBlock ce"

definition tasks_closed :: "'st consensus_engine \<Rightarrow> bool" where
  "tasks_closed ce \<longleftrightarrow> ch_closed (pp_consensusQueue (ce_parallelProcessor ce))"

lemma addTask_closed: "tasks_closed ce \<Longrightarrow> CE_addTask name n ce = Panics"
  by (simp add: tasks_closed_def CE_addTask_def PP_AddConsensusTask_def)

lemma addTask_ok:
  assumes "engine_ok ce" and "\<not> tasks_closed ce"
  obtains ce' where "CE_addTask name n ce = Returns ce'" and "engine_ok ce'" and "same_rest ce ce'"
    and "ce_poset ce' = ce_poset ce" and "\<not> tasks_closed ce'"
proof -
  let ?t = "\<lparr>ct_Round = ce_currentRound ce, ct_Events = CE_getEventsForRound (ce_currentRound ce) ce,
    ct_Type = name, ct_Priority = n\<rparr>"
  obtain pp where pp: "PP_AddConsensusTask ?t (ce_parallelProcessor ce) = Returns ((), pp)" "\<not> ch_closed (pp_consensusQueue pp)"
    using assms(2) unfolding PP_AddConsensusTask_def try_send_def tasks_closed_def
    by (cases "length (ch_items (pp_consensusQueue (ce_parallelProcessor ce))) < ch_cap (pp_consensusQueue (ce_parallelProcessor ce))") auto
  show ?thesis
    by (rule that [of "ce\<lparr>ce_parallelProcessor := pp\<rparr>"])
      (use assms(1) pp in \<open>simp_all add: CE_addTask_def engine_ok_def same_rest_def tasks_closed_def\<close>)
qed

text \<open>The result of a pass, by the state of the task queue.\<close>

lemma pipeline_cases:
  assumes "engine_ok ce"
  shows "if tasks_closed ce then CE_pipeline x t ce = Panics
    else \<exists>ce'. CE_pipeline x t ce = Returns ((), ce') \<and> engine_ok ce' \<and> same_rest ce ce' \<and> \<not> tasks_closed ce'"
proof -
  let ?x = "crypto.truncate x"
  have mu: "ce_mu ce = unlocked" and q: "quiet (ce_poset ce)" using assms by (simp_all add: engine_ok_def)
  obtain P where P: "assign_new_rounds ?x (map snd (d_Events (ce_poset ce))) (ce_poset ce) = Returns P" "quiet P"
    using quiet_assign_new_rounds [OF q] by blast
  define ce1 where "ce1 = ce\<lparr>ce_poset := P\<rparr>"
  have ok1: "engine_ok ce1" "same_rest ce ce1" "tasks_closed ce1 = tasks_closed ce"
    using assms P(2) by (simp_all add: engine_ok_def ce1_def same_rest_def tasks_closed_def)
  then have mu1: "ce_mu ce1 = unlocked" by (simp add: engine_ok_def)
  have run1: "CE_runRoundAssignment ?x ce = Returns ((), ce1)" by (simp add: runRoundAssignment_free [OF mu] P(1) ce1_def)
  show ?thesis
  proof (cases "tasks_closed ce")
    case True
    then have "CE_runFameVoting ?x (ck_millis t) ce1 = Panics"
      using ok1(3) by (simp add: runFameVoting_free [OF mu1] addTask_closed)
    then show ?thesis using True run1 by (simp add: CE_pipeline_def)
  next
    case False
    obtain ce2 where t2: "CE_addTask ''fame_voting'' 1 ce1 = Returns ce2"
      and ok2: "engine_ok ce2" "same_rest ce1 ce2" "\<not> tasks_closed ce2"
      using addTask_ok [OF ok1(1)] False ok1(3) by blast
    obtain r3 fv where fv: "FV_StartFameVoting ?x (ce_currentRound ce2) (ck_millis t) (ce_poset ce2) (ce_fameVoting ce2)
        = Returns (r3, fv)" "undecided fv" "fv_mu fv = unlocked"
      using ok2(1) StartFameVoting_undecided [of "ce_fameVoting ce2" ?x "ce_currentRound ce2" "ck_millis t" "ce_poset ce2"]
      by (auto simp: engine_ok_def)
    define ce3 where "ce3 = ce2\<lparr>ce_fameVoting := fv\<rparr>"
    have ok3: "engine_ok ce3" "same_rest ce2 ce3" "\<not> tasks_closed ce3"
      using ok2 fv by (simp_all add: engine_ok_def ce3_def same_rest_def tasks_closed_def)
    then have mu3: "ce_mu ce3 = unlocked" by (simp add: engine_ok_def)
    have run3: "CE_runFameVoting ?x (ck_millis t) ce1 = Returns ((), ce3)"
      by (simp add: runFameVoting_free [OF mu1] t2 fv(1) ce3_def)
    obtain ce4 where t4: "CE_addTask ''clotho_selection'' 2 ce3 = Returns ce4"
      and ok4: "engine_ok ce4" "same_rest ce3 ce4" "\<not> tasks_closed ce4"
      using addTask_ok [OF ok3(1,3)] by blast
    obtain r5 cs where cs: "CS_SelectClothos ?x (ce_currentRound ce4) (ce_poset ce4) (Some (ce_fameVoting ce4))
        (ce_clothoSelector ce4) = Returns (r5, cs)" "clothos_quiet cs"
      using ok4(1) selectClothos_quiet [of "ce_clothoSelector ce4" "ce_fameVoting ce4" ?x "ce_currentRound ce4" "ce_poset ce4"]
      by (auto simp: engine_ok_def)
    define ce5 where "ce5 = ce4\<lparr>ce_clothoSelector := cs\<rparr>"
    have ok5: "engine_ok ce5" "same_rest ce4 ce5" "\<not> tasks_closed ce5"
      using ok4 cs by (simp_all add: engine_ok_def ce5_def same_rest_def tasks_closed_def)
    then have mu5: "ce_mu ce5 = unlocked" by (simp add: engine_ok_def)
    have run5: "CE_runClothoSelection ?x ce3 = Returns ((), ce5)"
      by (simp add: runClothoSelection_free [OF mu3] t4 cs(1) ce5_def)
    obtain ce6 where t6: "CE_addTask ''finality'' 3 ce5 = Returns ce6"
      and ok6: "engine_ok ce6" "same_rest ce5 ce6" "\<not> tasks_closed ce6"
      using addTask_ok [OF ok5(1,3)] by blast
    obtain fe where fe: "FE_FinalizeEvents ?x (ck_orders t) (ck_times t) (ck_rounds t) (ce_poset ce6) (ce_finalityEngine ce6)
        = (ce_poset ce6, fe)" "cache_quiet fe"
      using quiet_finality [of "ce_poset ce6" "ce_finalityEngine ce6"] ok6(1) unfolding engine_ok_def by metis
    define ce7 where "ce7 = ce6\<lparr>ce_finalityEngine := fe\<rparr>"
    have "CE_runFinality ?x (ck_orders t) (ck_times t) (ck_rounds t) ce5 = Returns ((), ce7)"
      by (simp add: runFinality_free [OF mu5] t6 fe(1) ce7_def)
    then have run: "CE_pipeline x t ce = Returns ((), ce7)" using run1 run3 run5 by (simp add: CE_pipeline_def)
    have "engine_ok ce7" "same_rest ce6 ce7" "\<not> tasks_closed ce7"
      using ok6 fe(2) by (simp_all add: engine_ok_def same_rest_def ce7_def tasks_closed_def)
    then show ?thesis using False run ok1 ok2 ok3 ok4 ok5 ok6 by (simp add: same_rest_def)
  qed
qed

lemma pipeline_ok:
  "engine_ok ce \<Longrightarrow> CE_pipeline x t ce = Returns (u, ce') \<Longrightarrow> engine_ok ce' \<and> same_rest ce ce'"
  using pipeline_cases [of ce x t] by (auto split: if_splits)

section \<open>The system of goroutines\<close>

text \<open>
  One step is one turn of a loop or one call from outside: the event loop, the two block-creation and
  consensus loops, and the callers of \<open>AddEvent\<close>, \<open>AddValidator\<close> and the rest. Steps
  that block are no steps; a panic ends the program.
\<close>

inductive ce_step ::
  "block_crypto \<Rightarrow> (string \<Rightarrow> address) \<Rightarrow> (address \<Rightarrow> string) \<Rightarrow>
   loop_place \<times> 'st consensus_engine \<Rightarrow> loop_place \<times> 'st consensus_engine \<Rightarrow> bool" for x h2a a2h where
  start: "ce_step x h2a a2h (pl, ce) (pl, CE_Start ce)"
| stop: "CE_Stop ce = Returns (u, ce') \<Longrightarrow> ce_step x h2a a2h (pl, ce) (pl, ce')"
| add: "CE_AddEvent p ce = Returns (r, ce') \<Longrightarrow> ce_step x h2a a2h (pl, ce) (pl, ce')"
| event: "CE_processEvents (crypto.truncate x) ko ce = Returns (b, ce') \<Longrightarrow> ce_step x h2a a2h (pl, ce) (pl, ce')"
| block: "CE_createBlock x now k ce = Returns (u, ce') \<Longrightarrow> ce_step x h2a a2h (pl, ce) (pl, ce')"
| tick: "CE_consensusTick x t pl ce = Returns (pl', ce') \<Longrightarrow> ce_step x h2a a2h (pl, ce) (pl', ce')"
| stopped: "CE_consensusDone pl ce = Returns pl' \<Longrightarrow> ce_step x h2a a2h (pl, ce) (pl', ce)"
| validator: "CE_AddValidator h2a v ce = Returns (r, ce') \<Longrightarrow> ce_step x h2a a2h (pl, ce) (pl, ce')"
| no_validator: "CE_RemoveValidator a2h addr ce = Returns (r, ce') \<Longrightarrow> ce_step x h2a a2h (pl, ce) (pl, ce')"

lemma processEvent_ok:
  assumes "engine_ok ce" and "CE_processEvent x ko p ce = Returns (u, ce')"
  shows "engine_ok ce'"
proof -
  obtain eventID P1 where h1: "hash_ref x p (ce_poset ce) = (eventID, P1)" by fastforce
  obtain cached cm1 where c: "CM_GetEvent eventID (ce_cacheManager ce) = (cached, cm1)" by fastforce
  obtain q cm2 where q: "(case cached of Some cachedEvent \<Rightarrow> (cachedEvent, cm1)
      | None \<Rightarrow> (p, CM_SetEvent (ko cm1) eventID p cm1)) = (q, cm2)" by fastforce
  obtain i P2 where h2: "hash_ref x q P1 = (i, P2)" by fastforce
  have "quiet P1" using quiet_hash_ref [of "ce_poset ce" x p] assms(1) h1 by (simp add: engine_ok_def)
  then have q2: "quiet P2" using quiet_hash_ref [of P1 x q] h2 by simp
  define ce1 where "ce1 = ce\<lparr>ce_poset := P2, ce_cacheManager := cm2\<rparr>"
  have ok1: "engine_ok ce1" using assms(1) q2 by (simp add: engine_ok_def ce1_def)
  have run: "(if go_has (d_Events P2) i then Returns (None, ce1)
      else and_then (P_AddEvent x q P2) (\<lambda>(err, P3).
        Returns (if err = None then Some q else None, ce1\<lparr>ce_poset := P3\<rparr>))) = Returns (u, ce')"
    using assms(2) unfolding CE_processEvent_def Let_def h1 prod.case c q h2 ce1_def .
  show ?thesis
  proof (cases "go_has (d_Events P2) i")
    case True
    then show ?thesis using run ok1 by simp
  next
    case False
    then obtain err P3 where "P_AddEvent x q P2 = Returns (err, P3)" "ce' = ce1\<lparr>ce_poset := P3\<rparr>"
      using run by (auto simp: and_then_Returns_iff)
    then show ?thesis using ok1 quiet_P_AddEvent [OF q2] by (simp add: engine_ok_def)
  qed
qed

lemma ce_step_ok:
  assumes "ce_step x h2a a2h s s'" and "engine_ok (snd s)"
  shows "engine_ok (snd s')"
  using assms
proof (induction rule: ce_step.induct)
  case (start pl ce)
  then show ?case by (simp add: engine_ok_def CE_Start_def)
next
  case (stop ce u ce' pl)
  then show ?case by (auto simp: CE_Stop_def and_then_Returns_iff engine_ok_def dest: close_ok)
next
  case (add p ce r ce' pl)
  then show ?case by (auto simp: CE_AddEvent_def and_then_Returns_iff engine_ok_def)
next
  case (event ko ce b ce' pl)
  then have ok: "engine_ok (ce\<lparr>ce_eventQueue := q\<rparr>)" for q by (simp add: engine_ok_def)
  from event show ?case
    by (auto simp: CE_processEvents_def and_then_Returns_iff Let_def ok split: option.splits
        dest!: processEvent_ok [OF ok])
next
  case (block now k ce u ce' pl)
  then show ?case using createBlock_quiet [of ce x now k] by (simp add: engine_ok_def)
next
  case (tick t pl ce pl' ce')
  show ?case
  proof (cases pl)
    case In_runConsensus
    then show ?thesis using tick pipeline_ok [of ce x t] by (auto simp: CE_consensusTick_def and_then_Returns_iff)
  next
    case In_createBlocks
    then show ?thesis using tick createBlock_quiet [of ce x "ck_now t" "ck_pick t"]
      by (auto simp: CE_consensusTick_def engine_ok_def)
  qed
next
  case (stopped pl ce pl')
  then show ?case by simp
next
  case (validator v ce r ce' pl)
  then show ?case by (auto simp: engine_ok_def addValidator_free and_then_Returns_iff)
next
  case (no_validator addr ce r ce' pl)
  then show ?case by (auto simp: engine_ok_def removeValidator_free and_then_Returns_iff)
qed

lemma ce_run_ok: "(ce_step x h2a a2h)\<^sup>*\<^sup>* s s' \<Longrightarrow> engine_ok (snd s) \<Longrightarrow> engine_ok (snd s')"
  by (induction rule: rtranclp_induct) (auto dest: ce_step_ok)

lemma new_engine_ok:
  "\<forall>p. ev_Atropos (heap p) = 0 \<Longrightarrow> engine_ok (NewConsensusEngine now heap vheap config)"
  by (simp add: engine_ok_def NewConsensusEngine_def quiet_def NewPoset_def NewDAG_def cache_quiet_def
      NewFinalityEngine_def NewCacheManager_def undecided_def votes_keyed_def NewFameVoting_def
      clothos_quiet_def NewClothoSelector_def dag.defs unlocked_def)

text \<open>No step leaves the validator set's mutex locked.\<close>

definition engine_free :: "'st consensus_engine \<Rightarrow> bool" where
  "engine_free ce \<longleftrightarrow> engine_ok ce \<and> vs_mu (ce_validatorSet ce) = unlocked"

lemma processEvent_set:
  "CE_processEvent x ko p ce = Returns (u, ce') \<Longrightarrow> ce_validatorSet ce' = ce_validatorSet ce"
  by (auto simp: CE_processEvent_def Let_def and_then_Returns_iff split: prod.splits if_splits)

lemma ce_step_set_free:
  assumes "ce_step x h2a a2h s s'" and "engine_ok (snd s)" and "vs_mu (ce_validatorSet (snd s)) = unlocked"
  shows "vs_mu (ce_validatorSet (snd s')) = unlocked"
  using assms
proof (induction rule: ce_step.induct)
  case (event ko ce b ce' pl)
  then show ?case
    by (auto simp: CE_processEvents_def and_then_Returns_iff Let_def split: option.splits dest!: processEvent_set)
next
  case (block now k ce u ce' pl)
  then show ?case using createBlock_quiet [of ce x now k] by (simp add: engine_ok_def)
next
  case (tick t pl ce pl' ce')
  show ?case
  proof (cases pl)
    case In_runConsensus
    then show ?thesis using tick pipeline_ok [of ce x t]
      by (auto simp: CE_consensusTick_def and_then_Returns_iff same_rest_def)
  next
    case In_createBlocks
    then show ?thesis using tick createBlock_quiet [of ce x "ck_now t" "ck_pick t"]
      by (auto simp: CE_consensusTick_def engine_ok_def)
  qed
next
  case (validator v ce r ce' pl)
  then show ?case by (auto simp: engine_ok_def addValidator_free and_then_Returns_iff VS_AddValidator_free
      case_prod_unfold)
next
  case (no_validator addr ce r ce' pl)
  then show ?case by (auto simp: engine_ok_def removeValidator_free and_then_Returns_iff VS_RemoveValidator_free
      case_prod_unfold)
qed (auto simp: CE_Start_def CE_Stop_def CE_AddEvent_def and_then_Returns_iff)

lemma ce_step_free: "ce_step x h2a a2h s s' \<Longrightarrow> engine_free (snd s) \<Longrightarrow> engine_free (snd s')"
  using ce_step_ok ce_step_set_free unfolding engine_free_def by blast

lemma new_engine_free:
  "\<forall>p. ev_Atropos (heap p) = 0 \<Longrightarrow> engine_free (NewConsensusEngine now heap vheap config)"
  by (simp add: engine_free_def new_engine_ok) (simp add: NewConsensusEngine_def NewValidatorSet_def)

text \<open>What the event loop can change of an event: its cached hash, and nothing else.\<close>

definition same_consensus :: "'st consensus_engine \<Rightarrow> 'st consensus_engine \<Rightarrow> bool" where
  "same_consensus ce ce' \<longleftrightarrow> ce_fameVoting ce' = ce_fameVoting ce \<and> ce_clothoSelector ce' = ce_clothoSelector ce \<and>
     ce_finalityEngine ce' = ce_finalityEngine ce \<and>
     (\<forall>q. ev_Round (d_heap (ce_poset ce') q) = ev_Round (d_heap (ce_poset ce) q) \<and>
          ev_IsRoot (d_heap (ce_poset ce') q) = ev_IsRoot (d_heap (ce_poset ce) q))"

lemma hash_ref_rounds:
  "ev_Round (d_heap (snd (hash_ref x p d)) q) = ev_Round (d_heap d q)"
  "ev_IsRoot (d_heap (snd (hash_ref x p d)) q) = ev_IsRoot (d_heap d q)"
  by (simp_all add: hash_ref_eq)

lemma AddEvent_rounds:
  assumes "p_mu P = unlocked" and "P_AddEvent x p P = Returns (res, P')"
  shows "ev_Round (d_heap P' q) = ev_Round (d_heap P q)" "ev_IsRoot (d_heap P' q) = ev_IsRoot (d_heap P q)"
  using assms(2) unfolding AddEvent_run [OF assms(1)] Let_def
  by (auto simp: and_then_Returns_iff hash_ref_rounds dest!: update_fields(1) split: if_splits)

lemma processEvent_same:
  assumes "engine_ok ce" and "CE_processEvent x ko p ce = Returns (u, ce')"
  shows "same_consensus ce ce'"
proof -
  obtain eventID P1 where h1: "hash_ref x p (ce_poset ce) = (eventID, P1)" by fastforce
  obtain cached cm1 where c: "CM_GetEvent eventID (ce_cacheManager ce) = (cached, cm1)" by fastforce
  obtain q cm2 where q: "(case cached of Some cachedEvent \<Rightarrow> (cachedEvent, cm1)
      | None \<Rightarrow> (p, CM_SetEvent (ko cm1) eventID p cm1)) = (q, cm2)" by fastforce
  obtain i P2 where h2: "hash_ref x q P1 = (i, P2)" by fastforce
  have "quiet P1" using quiet_hash_ref [of "ce_poset ce" x p] assms(1) h1 by (simp add: engine_ok_def)
  then have "quiet P2" using quiet_hash_ref [of P1 x q] h2 by simp
  then have mu: "p_mu P2 = unlocked" by (simp add: quiet_def)
  have r2: "ev_Round (d_heap P2 s) = ev_Round (d_heap (ce_poset ce) s)"
    "ev_IsRoot (d_heap P2 s) = ev_IsRoot (d_heap (ce_poset ce) s)" for s
    using hash_ref_rounds [of x p "ce_poset ce" s] hash_ref_rounds [of x q P1 s] h1 h2 by simp_all
  have run: "(if go_has (d_Events P2) i then Returns (None, ce\<lparr>ce_poset := P2, ce_cacheManager := cm2\<rparr>)
      else and_then (P_AddEvent x q P2) (\<lambda>(err, P3). Returns (if err = None then Some q else None,
        (ce\<lparr>ce_poset := P2, ce_cacheManager := cm2\<rparr>)\<lparr>ce_poset := P3\<rparr>))) = Returns (u, ce')"
    using assms(2) unfolding CE_processEvent_def Let_def h1 prod.case c q h2 .
  show ?thesis
  proof (cases "go_has (d_Events P2) i")
    case True
    then show ?thesis using run by (auto simp: same_consensus_def r2)
  next
    case False
    then obtain err P3 where "P_AddEvent x q P2 = Returns (err, P3)"
      and ce': "ce' = (ce\<lparr>ce_poset := P2, ce_cacheManager := cm2\<rparr>)\<lparr>ce_poset := P3\<rparr>"
      using run by (auto simp: and_then_Returns_iff)
    then show ?thesis using AddEvent_rounds [OF mu] by (simp add: same_consensus_def r2)
  qed
qed

lemma ce_step_frozen:
  assumes "ce_step x h2a a2h s s'" and "engine_ok (snd s)" and "fst s = In_createBlocks"
  shows "fst s' = In_createBlocks \<and> same_consensus (snd s) (snd s')"
  using assms
proof (induction rule: ce_step.induct)
  case (start pl ce)
  then show ?case by (simp add: same_consensus_def CE_Start_def)
next
  case (stop ce u ce' pl)
  then show ?case by (auto simp: CE_Stop_def and_then_Returns_iff same_consensus_def)
next
  case (add p ce r ce' pl)
  then show ?case by (auto simp: CE_AddEvent_def and_then_Returns_iff same_consensus_def)
next
  case (event ko ce b ce' pl)
  then have ok: "engine_ok (ce\<lparr>ce_eventQueue := q\<rparr>)" for q by (simp add: engine_ok_def)
  from event show ?case
    by (auto simp: CE_processEvents_def and_then_Returns_iff Let_def ok same_consensus_def split: option.splits
        dest!: processEvent_same [OF ok])
next
  case (block now k ce u ce' pl)
  then show ?case using createBlock_quiet [of ce x now k] by (simp add: engine_ok_def same_consensus_def)
next
  case (tick t pl ce pl' ce')
  then show ?case using createBlock_quiet [of ce x "ck_now t" "ck_pick t"]
    by (auto simp: CE_consensusTick_def engine_ok_def same_consensus_def)
next
  case (stopped pl ce pl')
  then show ?case by (simp add: CE_consensusDone_def)
next
  case (validator v ce r ce' pl)
  then show ?case by (auto simp: engine_ok_def addValidator_free same_consensus_def and_then_Returns_iff)
next
  case (no_validator addr ce r ce' pl)
  then show ?case by (auto simp: engine_ok_def removeValidator_free same_consensus_def and_then_Returns_iff)
qed

lemma ce_run_frozen:
  "(ce_step x h2a a2h)\<^sup>*\<^sup>* s s' \<Longrightarrow> engine_ok (snd s) \<Longrightarrow> fst s = In_createBlocks \<Longrightarrow>
   fst s' = In_createBlocks \<and> same_consensus (snd s) (snd s')"
proof (induction rule: rtranclp_induct)
  case base
  then show ?case by (simp add: same_consensus_def)
next
  case (step s1 s2)
  then have IH: "fst s1 = In_createBlocks" "same_consensus (snd s) (snd s1)" by auto
  have "engine_ok (snd s1)" using ce_run_ok [OF step.hyps(1) step.prems(1)] .
  then have "fst s2 = In_createBlocks \<and> same_consensus (snd s1) (snd s2)" by (rule ce_step_frozen [OF step.hyps(2) _ IH(1)])
  then show ?case using IH(2) by (simp add: same_consensus_def)
qed

lemma tick_returns:
  "engine_ok ce \<Longrightarrow> \<not> tasks_closed ce \<Longrightarrow>
   \<exists>ce1. CE_consensusTick x t In_runConsensus ce = Returns (In_createBlocks, ce1)"
  using pipeline_cases [of ce x t] by (auto simp: CE_consensusTick_def)

lemma new_engine_tasks: "\<not> tasks_closed (NewConsensusEngine now heap vheap config)"
  by (simp add: tasks_closed_def NewConsensusEngine_def NewParallelProcessor_def)

lemma first_tick:
  "\<forall>p. ev_Atropos (heap p) = 0 \<Longrightarrow> \<exists>ce1. CE_consensusTick x t In_runConsensus
     (NewConsensusEngine now heap vheap config) = Returns (In_createBlocks, ce1)"
  by (rule tick_returns [OF new_engine_ok new_engine_tasks])

lemma GetLatestBlock_free:
  "\<not> rw_writer (p_mu P) \<Longrightarrow> P_GetLatestBlock P =
     Returns (if p_LastBlock P = 0 then None else go_get (p_Blocks P) (p_LastBlock P), P)"
  unfolding P_GetLatestBlock_def
  by (subst poset_mu.RLock_pure_read) (simp_all add: set_p_mu_def)

text \<open>Adding a list of validators, in order.\<close>

fun add_validators :: "(string \<Rightarrow> address) \<Rightarrow> vref list \<Rightarrow> 'st consensus_engine \<Rightarrow> 'st consensus_engine outcome" where
  "add_validators h2a [] ce = Returns ce"
| "add_validators h2a (v # vs) ce = and_then (CE_AddValidator h2a v ce) (\<lambda>(_, ce1). add_validators h2a vs ce1)"

lemma add_validators_snoc:
  "add_validators h2a (vs @ [v]) ce =
     and_then (add_validators h2a vs ce) (\<lambda>ce1. and_then (CE_AddValidator h2a v ce1) (\<lambda>(_, ce2). Returns ce2))"
  by (induction vs arbitrary: ce) (simp_all add: and_then_assoc case_prod_unfold)

lemma add_validators_effect:
  assumes "ce_mu ce = unlocked" and "distinct (map (\<lambda>v. vd_ID (vs_heap (ce_validatorSet ce) v)) vs)"
    and "\<forall>v \<in> set vs. vd_Address (vs_heap (ce_validatorSet ce) v) = a \<and>
      \<not> go_has (vs_validators (ce_validatorSet ce)) (vd_ID (vs_heap (ce_validatorSet ce) v))"
    and "vs_mu (ce_validatorSet ce) = unlocked"
  shows "\<exists>ce'. add_validators h2a vs ce = Returns ce' \<and> ce_mu ce' = unlocked \<and>
    vs_mu (ce_validatorSet ce') = unlocked \<and>
    vs_heap (ce_validatorSet ce') = vs_heap (ce_validatorSet ce) \<and>
    go_get (ce_validators ce') = (if vs = [] then go_get (ce_validators ce)
      else (go_get (ce_validators ce))(h2a a \<mapsto> last vs)) \<and>
    (\<forall>v \<in> set vs. go_get (vs_validators (ce_validatorSet ce')) (vd_ID (vs_heap (ce_validatorSet ce) v)) = Some v) \<and>
    (\<forall>i. i \<notin> (\<lambda>v. vd_ID (vs_heap (ce_validatorSet ce) v)) ` set vs \<longrightarrow>
       go_get (vs_validators (ce_validatorSet ce')) i = go_get (vs_validators (ce_validatorSet ce)) i)"
  using assms(2,3)
proof (induction vs rule: rev_induct)
  case Nil
  then show ?case using assms(1,4) by simp
next
  case (snoc v vs)
  let ?ident = "\<lambda>v. vd_ID (vs_heap (ce_validatorSet ce) v)"
  obtain ce1 where r1: "add_validators h2a vs ce = Returns ce1" and mu1: "ce_mu ce1 = unlocked"
    and vmu1: "vs_mu (ce_validatorSet ce1) = unlocked"
    and heap1: "vs_heap (ce_validatorSet ce1) = vs_heap (ce_validatorSet ce)"
    and map1: "go_get (ce_validators ce1) = (if vs = [] then go_get (ce_validators ce)
      else (go_get (ce_validators ce))(h2a a \<mapsto> last vs))"
    and in1: "\<forall>v \<in> set vs. go_get (vs_validators (ce_validatorSet ce1)) (?ident v) = Some v"
    and out1: "\<forall>i. i \<notin> ?ident ` set vs \<longrightarrow>
      go_get (vs_validators (ce_validatorSet ce1)) i = go_get (vs_validators (ce_validatorSet ce)) i"
    using snoc.IH snoc.prems by auto
  have new: "?ident v \<notin> ?ident ` set vs" using snoc.prems(1) by auto
  have other: "?ident w \<noteq> ?ident v" if "w \<in> set vs" for w using imageI [OF that, of ?ident] new by metis
  have "\<not> go_has (vs_validators (ce_validatorSet ce1)) (?ident v)" using new out1 snoc.prems(2) by simp
  then have "add_validators h2a (vs @ [v]) ce = Returns (ce1\<lparr>ce_validators := go_put (h2a a) v (ce_validators ce1),
      ce_validatorSet := (ce_validatorSet ce1)\<lparr>vs_validators := go_put (?ident v) v (vs_validators (ce_validatorSet ce1))\<rparr>\<rparr>)"
    using snoc.prems(2)
    by (simp add: add_validators_snoc r1 addValidator_free [OF mu1] VS_AddValidator_free [OF vmu1] heap1
        VS_AddValidator_def Let_def)
  then show ?case using mu1 vmu1 heap1 map1 in1 out1 by (auto simp: fun_upd_def dest: other)
qed

lemma two_hashes:
  assumes "hash_of x (d_heap P q) = hash_of x (d_heap P p)"
  shows "hash_of x (d_heap (snd (hash_ref x p P)) q) = hash_of x (d_heap P p)"
  using assms by (simp add: hash_ref_eq)

lemma hash_ref_store [simp]:
  fixes P :: poset
  shows "d_Events (snd (hash_ref x p P)) = d_Events P" "p_mu (snd (hash_ref x p P)) = p_mu P"
    "block_millis (snd (hash_ref x p P)) = block_millis P" "fst (hash_ref x p P) = hash_of x (d_heap P p)"
  by (simp_all add: hash_ref_eq)

lemma P_AddEvent_stores:
  assumes "p_mu P = unlocked" and "block_millis P \<noteq> 0" and "\<not> go_has (d_Events P) (hash_of x (d_heap P p))"
  shows "\<exists>P'. P_AddEvent x p P = Returns (None, P') \<and>
    go_get (d_Events P') = (go_get (d_Events P))(hash_of x (d_heap P p) \<mapsto> p)"
proof -
  define P2 where "P2 = set_p_mu (unlocked\<lparr>rw_writer := True\<rparr>) ((snd (hash_ref x p P))
    \<lparr>d_Events := go_put (hash_of x (d_heap P p)) p (d_Events P),
     p_Heads := go_put (ev_CreatorID (d_heap P p)) (hash_of x (d_heap P p)) (p_Heads P)\<rparr>)"
  have "block_millis P2 \<noteq> 0" using assms(2) by (simp add: P2_def)
  then obtain P3 where P3: "P_updateRoundAssignment x p P2 = Returns P3" using update_spec by blast
  then have "P_AddEvent x p P = Returns (None, set_p_mu unlocked P3)"
    using assms(3) unfolding AddEvent_run [OF assms(1)] Let_def P2_def by simp
  then show ?thesis using update_fields(2) [OF P3] by (simp add: P2_def)
qed

section \<open>An engine for the examples\<close>

definition some_config :: consensus_config where
  "some_config = \<lparr>cc_BlockTime = 2000000000, cc_GasLimit = 30000000, cc_BaseFee = None\<rparr>"

definition some_clocks :: clocks where
  "some_clocks = \<lparr>ck_orders = (\<lambda>cm. \<lparr>ko_event = map fst (cm_eventCache cm), ko_vote = map fst (cm_voteCache cm),
     ko_consensus = map fst (cm_consensusCache cm), ko_state = map fst (cm_stateCache cm)\<rparr>),
     ck_millis = 0, ck_times = (\<lambda>_. 0), ck_rounds = [], ck_now = 0, ck_pick = 0\<rparr>"

definition some_engine :: "(address \<Rightarrow> int) consensus_engine" where
  "some_engine = NewConsensusEngine 0 (\<lambda>_. zero_event) (\<lambda>_. chain_validator) some_config"

lemma some_engine_ok: "engine_ok some_engine" "\<not> tasks_closed some_engine"
  by (simp add: some_engine_def new_engine_ok zero_event_def)
     (simp add: some_engine_def tasks_closed_def NewConsensusEngine_def NewParallelProcessor_def)

lemma some_engine_tick:
  "\<exists>ce. ce_step x h2a a2h (In_runConsensus, some_engine) (In_createBlocks, ce)"
proof -
  obtain ce where "CE_pipeline x some_clocks some_engine = Returns ((), ce)"
    using pipeline_cases [OF some_engine_ok(1), of x some_clocks] some_engine_ok(2) by auto
  then show ?thesis by (intro exI [of _ ce] ce_step.tick [of _ some_clocks]) (simp add: CE_consensusTick_def)
qed

section \<open>Properties\<close>

text \<open>
  C12. Processing an event stores it. With the poset's mutex free, a block time of at least a millisecond and a
  cache whose entries are filed under their own hashes, one turn of \<open>processEvents\<close> returns; afterwards an
  event is stored under the processed event's hash. If there was one before, the store is
  unchanged and nothing is gossiped; otherwise the new entry is the event itself, or the object the cache holds
  for that hash, and this entry is handed to the network. Nothing else in the store changes.
\<close>

theorem process_event_stores:
  assumes "p_mu (ce_poset ce) = unlocked" and "block_millis (ce_poset ce) \<noteq> 0"
    and "\<forall>i q. go_get (cm_eventCache (ce_cacheManager ce)) i = Some q \<longrightarrow> hash_of x (d_heap (ce_poset ce) q) = i"
  shows "\<exists>gossip ce'. CE_processEvent x ko p ce = Returns (gossip, ce') \<and>
    (let i = hash_of x (d_heap (ce_poset ce) p); old = go_get (d_Events (ce_poset ce));
         q = (case go_get (cm_eventCache (ce_cacheManager ce)) i of Some c \<Rightarrow> c | None \<Rightarrow> p)
     in go_get (d_Events (ce_poset ce')) = (if old i = None then old(i \<mapsto> q) else old) \<and>
        gossip = (if old i = None then Some q else None))"
proof -
  let ?P = "ce_poset ce"
  define i where "i = hash_of x (d_heap ?P p)"
  define cached where "cached = go_get (cm_eventCache (ce_cacheManager ce)) i"
  define q where "q = (case cached of Some c \<Rightarrow> c | None \<Rightarrow> p)"
  define P1 where "P1 = snd (hash_ref x p ?P)"
  define P2 where "P2 = snd (hash_ref x q P1)"
  have h1: "hash_ref x p ?P = (i, P1)" by (simp add: i_def P1_def prod_eq_iff)
  obtain cm1 where c: "CM_GetEvent i (ce_cacheManager ce) = (cached, cm1)"
    by (simp add: event_cache.getter_eq cached_def)
  obtain cm2 where q2: "(case cached of Some cachedEvent \<Rightarrow> (cachedEvent, cm1)
      | None \<Rightarrow> (p, CM_SetEvent (ko cm1) i p cm1)) = (q, cm2)"
    by (cases cached) (simp_all add: q_def)
  have "hash_of x (d_heap ?P q) = i"
    using assms(3) by (simp add: q_def cached_def i_def split: option.split)
  then have hq: "hash_of x (d_heap P1 q) = i" unfolding P1_def i_def by (rule two_hashes)
  then have h2: "hash_ref x q P1 = (i, P2)" by (simp add: P2_def prod_eq_iff)
  have P2: "d_Events P2 = d_Events ?P" "p_mu P2 = unlocked" "block_millis P2 \<noteq> 0" "hash_of x (d_heap P2 q) = i"
    using assms(1,2) hq by (simp_all add: P2_def P1_def) (simp add: hash_ref_eq)
  define ce1 where "ce1 = ce\<lparr>ce_poset := P2, ce_cacheManager := cm2\<rparr>"
  have run: "CE_processEvent x ko p ce = (if go_has (d_Events P2) i then Returns (None, ce1)
      else and_then (P_AddEvent x q P2) (\<lambda>(err, P3).
        Returns (if err = None then Some q else None, ce1\<lparr>ce_poset := P3\<rparr>)))"
    unfolding CE_processEvent_def Let_def h1 prod.case c q2 h2 ce1_def by (rule refl)
  show ?thesis
  proof (cases "go_get (d_Events ?P) i")
    case None
    then obtain P3 where "P_AddEvent x q P2 = Returns (None, P3)" "go_get (d_Events P3) = (go_get (d_Events ?P))(i \<mapsto> q)"
      using P_AddEvent_stores [OF P2(2,3), of x q] P2(1,4) by auto
    then have "CE_processEvent x ko p ce = Returns (Some q, ce1\<lparr>ce_poset := P3\<rparr>)" using None by (simp add: run P2(1))
    then show ?thesis using None \<open>go_get (d_Events P3) = _\<close>
      by (intro exI [of _ "Some q"] exI [of _ "ce1\<lparr>ce_poset := P3\<rparr>"]) (simp add: Let_def q_def cached_def flip: i_def)
  next
    case (Some old)
    then have "CE_processEvent x ko p ce = Returns (None, ce1)" by (simp add: run P2(1))
    then show ?thesis using Some P2(1)
      by (intro exI [of _ None] exI [of _ ce1]) (simp add: Let_def ce1_def flip: i_def)
  qed
qed

theorem process_event_stores_witness:
  "\<exists>ce'. CE_processEvent sample_crypto (ck_orders some_clocks) 11 some_engine = Returns (Some 11, ce') \<and>
     go_get (d_Events (ce_poset ce')) (hash_of sample_crypto zero_event) = Some 11"
proof -
  have "p_mu (ce_poset some_engine) = unlocked" "block_millis (ce_poset some_engine) \<noteq> 0"
    "d_Events (ce_poset some_engine) = []" "d_heap (ce_poset some_engine) = (\<lambda>_. zero_event)"
    "cm_eventCache (ce_cacheManager some_engine) = []"
    by (simp_all add: some_engine_def NewConsensusEngine_def NewPoset_def NewDAG_def dag.defs some_config_def
        block_millis_def NewCacheManager_def)
  then show ?thesis using process_event_stores [of some_engine sample_crypto "ck_orders some_clocks" 11] by auto
qed

text \<open>
  The pipeline never finalises anything. From a new engine whose callers pass events that carry no
  Atropos yet, after any sequence of events, ticks, block creations, validator changes, starts and stops, no
  stored event is finalised, no witness is famous, no Clotho has been selected, the block queue is
  empty, and the next \<open>createBlock\<close>, whenever it comes, returns and changes nothing.
\<close>

theorem engine_never_finalises:
  assumes "\<forall>p. ev_Atropos (heap p) = 0"
    and "(ce_step x h2a a2h)\<^sup>*\<^sup>* (In_runConsensus, NewConsensusEngine now0 heap vheap config) (pl, ce)"
  shows "FE_GetFinalizedEvents (ce_poset ce) = [] \<and> fv_famousWitnesses (ce_fameVoting ce) = [] \<and>
    (\<forall>r c. go_get (cs_clothos (ce_clothoSelector ce)) r = Some c \<longrightarrow> c = []) \<and>
    ch_items (ce_blockQueue ce) = [] \<and> CE_createBlock x now k ce = Returns ((), ce)"
proof -
  have ok: "engine_ok ce"
    by (rule ce_run_ok [OF assms(2), unfolded snd_conv, OF new_engine_ok [OF assms(1)]])
  then show ?thesis using createBlock_quiet [of ce x now k]
    by (auto simp: engine_ok_def quiet_no_finalised undecided_def clothos_quiet_def)
qed

theorem engine_never_finalises_witness:
  "\<exists>ce. ce_step sample_block_crypto (\<lambda>_. 0) (\<lambda>_. []) (In_runConsensus, some_engine) (In_createBlocks, ce) \<and>
     FE_GetFinalizedEvents (ce_poset ce) = [] \<and> ch_items (ce_blockQueue ce) = []"
proof -
  obtain ce where s: "ce_step sample_block_crypto (\<lambda>_. 0) (\<lambda>_. []) (In_runConsensus, some_engine) (In_createBlocks, ce)"
    using some_engine_tick by blast
  have "\<forall>p. ev_Atropos ((\<lambda>_. zero_event) (p :: eref)) = 0" by (simp add: zero_event_def)
  note fresh = this
  have "(ce_step sample_block_crypto (\<lambda>_. 0) (\<lambda>_. []))\<^sup>*\<^sup>* (In_runConsensus,
      NewConsensusEngine 0 (\<lambda>_. zero_event) (\<lambda>_. chain_validator) some_config) (In_createBlocks, ce)"
    using s unfolding some_engine_def by (rule r_into_rtranclp)
  from engine_never_finalises [OF fresh this] s
  show ?thesis by blast
qed

text \<open>
  C16. The pipeline runs once, over events that carry no Atropos when they are submitted, as \<open>NewEvent\<close>
  makes them. The first tick of a new engine returns and leaves the consensus loop inside
  \<open>createBlocks\<close>; from any later point on, whatever the engine does, the loop stays there, the votes,
  Clothos and finality tables are frozen, and no event, however it arrives, gets another round or becomes a
  root.
\<close>

theorem pipeline_runs_once:
  assumes "\<forall>p. ev_Atropos (heap p) = 0"
    and "(ce_step x h2a a2h)\<^sup>*\<^sup>* (In_runConsensus, NewConsensusEngine now heap vheap config) (In_createBlocks, ce)"
    and "(ce_step x h2a a2h)\<^sup>*\<^sup>* (In_createBlocks, ce) (pl, ce')"
  shows "(\<exists>ce1. CE_consensusTick x t In_runConsensus (NewConsensusEngine now heap vheap config) =
      Returns (In_createBlocks, ce1)) \<and>
    pl = In_createBlocks \<and> ce_fameVoting ce' = ce_fameVoting ce \<and> ce_clothoSelector ce' = ce_clothoSelector ce \<and>
    ce_finalityEngine ce' = ce_finalityEngine ce \<and>
    ev_Round (d_heap (ce_poset ce') q) = ev_Round (d_heap (ce_poset ce) q) \<and>
    ev_IsRoot (d_heap (ce_poset ce') q) = ev_IsRoot (d_heap (ce_poset ce) q)"
proof -
  have "engine_ok ce"
    by (rule ce_run_ok [OF assms(2), unfolded snd_conv, OF new_engine_ok [OF assms(1)]])
  then show ?thesis
    using ce_run_frozen [OF assms(3)] first_tick [OF assms(1)] by (auto simp: same_consensus_def)
qed

theorem pipeline_runs_once_witness:
  "\<exists>ce1. CE_consensusTick sample_block_crypto some_clocks In_runConsensus some_engine = Returns (In_createBlocks, ce1)"
proof -
  obtain ce where s: "ce_step sample_block_crypto (\<lambda>_. 0) (\<lambda>_. []) (In_runConsensus, some_engine) (In_createBlocks, ce)"
    using some_engine_tick by blast
  have "\<forall>p. ev_Atropos ((\<lambda>_. zero_event) (p :: eref)) = 0" by (simp add: zero_event_def)
  note fresh = this
  have "(ce_step sample_block_crypto (\<lambda>_. 0) (\<lambda>_. []))\<^sup>*\<^sup>* (In_runConsensus,
      NewConsensusEngine 0 (\<lambda>_. zero_event) (\<lambda>_. chain_validator) some_config) (In_createBlocks, ce)"
    using s unfolding some_engine_def by (rule r_into_rtranclp)
  from pipeline_runs_once [OF fresh this rtranclp.rtrancl_refl]
  show ?thesis by (simp add: some_engine_def)
qed

text \<open>
  The block the engine builds from a group of events. With the poset's mutex free and recycled blocks from
  the engine's own pools, it follows the poset's latest block: number and parent continue it, or are 1
  and zero when there is none; transactions and event identifiers are those of the events in order, and
  the time is the median of the non-zero Atropos times. The block is unsigned, its hash cache is
  empty, and the poset is unchanged, so that \<open>LastBlock\<close> stays as it was.
\<close>

theorem engine_block_spec:
  assumes "\<not> rw_writer (p_mu (ce_poset ce))" and "mo_reachable (ce_memoryOptimizer ce)" and "ps \<noteq> []"
  defines "es \<equiv> map (d_heap (ce_poset ce)) ps"
    and "latest \<equiv> (if p_LastBlock (ce_poset ce) = 0 then None else go_get (p_Blocks (ce_poset ce)) (p_LastBlock (ce_poset ce)))"
  shows "\<exists>b ce'. CE_createBlockFromEvents x now k ps ce = Returns (Some b, ce') \<and> ce_poset ce' = ce_poset ce \<and>
    bh_Number (bk_Header b) = (case latest of None \<Rightarrow> 1 | Some l \<Rightarrow> bh_Number (bk_Header l) + 1) \<and>
    bh_ParentHash (bk_Header b) = (case latest of None \<Rightarrow> 0 | Some l \<Rightarrow> fst (Block_Hash x l)) \<and>
    bk_Transactions b = concat (map ev_Transactions es) \<and>
    bk_Events b = map (hash_of (crypto.truncate x)) es \<and>
    bh_AtroposTime (bk_Header b) = go_median (filter (\<lambda>t. t > 0) (map ev_AtroposTime es)) \<and>
    bh_Signature (bk_Header b) = [] \<and> bk_hash b = 0"
proof -
  obtain b0 mo where g: "MO_GetBlock k (ce_memoryOptimizer ce) = (b0, mo)" by fastforce
  then have b0: "b0 = zero_block" using GetBlock_zero [OF mo_reachable_clean [OF assms(2)], of k] by simp
  obtain parent n where pn: "(case latest of Some b \<Rightarrow> (fst (Block_Hash x b), bh_Number (bk_Header b) + 1) | None \<Rightarrow> (0, 1)) = (parent, n)"
    by fastforce
  have med: "(if length ts > 0 then CE_calculateMedian ts else 0) = go_median ts" for ts
    by (simp add: CE_calculateMedian_def)
  show ?thesis
    unfolding CE_createBlockFromEvents_def Let_def GetLatestBlock_free [OF assms(1)] and_then.simps prod.case
      latest_def [symmetric] pn g med
    using assms(3) pn by (auto simp: b0 zero_block_def es_def comp_def split: option.splits)
qed

theorem engine_block_spec_witness:
  "\<exists>b ce'. CE_createBlockFromEvents sample_block_crypto 5 0 [11, 12] some_engine = Returns (Some b, ce') \<and>
     bh_Number (bk_Header b) = 1"
proof -
  have "\<not> rw_writer (p_mu (ce_poset some_engine))" "mo_reachable (ce_memoryOptimizer some_engine)"
    "p_LastBlock (ce_poset some_engine) = 0"
    by (simp_all add: some_engine_def NewConsensusEngine_def NewPoset_def NewDAG_def dag.defs unlocked_def mo_new)
  then show ?thesis using engine_block_spec [of some_engine "[11, 12]" sample_block_crypto 5 0] by auto
qed

text \<open>
  The engine keeps two validator tables that disagree. Adding validators with fresh identifiers
  that carry the same \<open>Address\<close> string (\<open>NewValidator\<close> leaves it empty) reports no error; the
  validator set gets every one of them, the address table only the last. Removing that
  address empties the table's entry, while the set, which is keyed by identifier, keeps all of them
  unless the address in hexadecimal happens to be an identifier.
\<close>

theorem engine_validators_diverge:
  assumes "ce_mu ce = unlocked" and "vs \<noteq> []" and "distinct (map (\<lambda>v. vd_ID (vs_heap (ce_validatorSet ce) v)) vs)"
    and "\<forall>v \<in> set vs. vd_Address (vs_heap (ce_validatorSet ce) v) = a \<and>
      \<not> go_has (vs_validators (ce_validatorSet ce)) (vd_ID (vs_heap (ce_validatorSet ce) v))"
    and "vs_mu (ce_validatorSet ce) = unlocked"
  shows "\<exists>ce1 ce2. add_validators h2a vs ce = Returns ce1 \<and>
    (\<forall>v \<in> set vs. VS_GetValidator (vd_ID (vs_heap (ce_validatorSet ce) v)) (ce_validatorSet ce1) = Some v) \<and>
    go_get (ce_validators ce1) = (go_get (ce_validators ce))(h2a a \<mapsto> last vs) \<and>
    CE_RemoveValidator a2h (h2a a) ce1 = Returns (None, ce2) \<and> go_get (ce_validators ce2) (h2a a) = None \<and>
    (\<not> go_has (vs_validators (ce_validatorSet ce1)) (a2h (h2a a)) \<longrightarrow> ce_validatorSet ce2 = ce_validatorSet ce1)"
proof -
  obtain ce1 where r: "add_validators h2a vs ce = Returns ce1" and mu: "ce_mu ce1 = unlocked"
    and vmu: "vs_mu (ce_validatorSet ce1) = unlocked"
    and m: "go_get (ce_validators ce1) = (go_get (ce_validators ce))(h2a a \<mapsto> last vs)"
    and i: "\<forall>v \<in> set vs. go_get (vs_validators (ce_validatorSet ce1)) (vd_ID (vs_heap (ce_validatorSet ce) v)) = Some v"
    using add_validators_effect [OF assms(1,3,4,5), of h2a] assms(2) by auto
  define ce2 where "ce2 = ce1\<lparr>ce_validators := go_del (h2a a) (ce_validators ce1),
    ce_validatorSet := snd (VS_RemoveValidator (a2h (h2a a)) (ce_validatorSet ce1))\<rparr>"
  have "CE_RemoveValidator a2h (h2a a) ce1 = Returns (None, ce2)"
    by (simp add: removeValidator_free [OF mu] VS_RemoveValidator_free [OF vmu] case_prod_unfold ce2_def)
  then show ?thesis
    by (intro exI [of _ ce1] exI [of _ ce2])
      (use r m i in \<open>simp add: ce2_def VS_GetValidator_def VS_RemoveValidator_def\<close>)
qed

definition two_validators :: "vref \<Rightarrow> validator" where
  "two_validators v = NewValidator (if v = 11 then ''a'' else ''b'') sample_key 1 0"

theorem engine_validators_diverge_witness:
  "\<exists>ce1. add_validators (\<lambda>_. 0) [11, 12] (some_engine\<lparr>ce_validatorSet := NewValidatorSet two_validators\<rparr>) = Returns ce1 \<and>
    go_get (ce_validators ce1) 0 = Some 12 \<and> VS_GetValidator ''a'' (ce_validatorSet ce1) = Some 11"
proof -
  let ?ce = "some_engine\<lparr>ce_validatorSet := NewValidatorSet two_validators\<rparr>"
  have "ce_mu ?ce = unlocked" by (simp add: some_engine_def NewConsensusEngine_def)
  then show ?thesis
    using engine_validators_diverge [of ?ce "[11, 12]" "''''" "\<lambda>_. 0" "\<lambda>_. []"]
    by (fastforce simp: NewValidatorSet_def NewValidator_def two_validators_def simp del: add_validators.simps)
qed

text \<open>
  C38. Stopping is final, and unsafe. \<open>Stop\<close> of a running engine returns and closes its queues;
  afterwards every \<open>AddEvent\<close> panics, whatever the event, and so does a second \<open>Stop\<close>; and a
  consensus tick that is still pending panics in fame voting, where it sends its task.
\<close>

theorem engine_stop_is_final:
  assumes "engine_ok ce" and "pp_ok (ce_parallelProcessor ce)" and "pp_running (ce_parallelProcessor ce)"
    and "\<not> ch_closed (ce_eventQueue ce)" and "\<not> ch_closed (ce_blockQueue ce)"
  shows "\<exists>ce'. CE_Stop ce = Returns ((), ce') \<and> CE_AddEvent p ce' = Panics \<and> CE_Stop ce' = Panics \<and>
    CE_consensusTick x t In_runConsensus ce' = Panics"
proof -
  obtain pp where pp: "PP_Stop (ce_parallelProcessor ce) = Returns ((), pp)" "pp_ok pp" "\<not> pp_running pp"
    "ch_closed (pp_eventQueue pp)" "ch_closed (pp_consensusQueue pp)"
    using PP_Stop_ok [OF assms(2)] assms(3) by blast
  define ce' where "ce' = ce\<lparr>ce_cancelled := True, ce_parallelProcessor := pp, ce_eventQueue := (ce_eventQueue ce)\<lparr>ch_closed := True\<rparr>,
    ce_blockQueue := (ce_blockQueue ce)\<lparr>ch_closed := True\<rparr>\<rparr>"
  have "CE_Stop ce = Returns ((), ce')"
    using assms(4,5) by (simp add: CE_Stop_def pp(1) close_chan_def ce'_def)
  moreover have "CE_AddEvent p ce' = Panics"
    using pp(4) by (simp add: CE_AddEvent_def PP_AddEvent_def ce'_def)
  moreover have "PP_Stop pp = Returns ((), pp)" using pp(3) by (simp add: PP_Stop_def)
  then have "CE_Stop ce' = Panics" by (simp add: CE_Stop_def ce'_def)
  moreover have "engine_ok ce'" "tasks_closed ce'"
    using assms(1) pp(5) by (simp_all add: engine_ok_def ce'_def tasks_closed_def)
  then have "CE_consensusTick x t In_runConsensus ce' = Panics"
    using pipeline_cases [of ce' x t] by (simp add: CE_consensusTick_def)
  ultimately show ?thesis by blast
qed

theorem engine_stop_is_final_witness:
  "\<exists>ce'. CE_Stop (CE_Start some_engine) = Returns ((), ce') \<and> CE_AddEvent 11 ce' = Panics"
proof -
  have "engine_ok (CE_Start some_engine)" using some_engine_ok(1) by (simp add: engine_ok_def CE_Start_def)
  moreover have "pp_ok (ce_parallelProcessor (CE_Start some_engine))" "pp_running (ce_parallelProcessor (CE_Start some_engine))"
    using pp_ok_start [OF pp_ok_new, of 4 2]
    by (simp_all add: CE_Start_def some_engine_def NewConsensusEngine_def)
       (simp_all add: PP_Start_def NewParallelProcessor_def)
  moreover have "\<not> ch_closed (ce_eventQueue (CE_Start some_engine))" "\<not> ch_closed (ce_blockQueue (CE_Start some_engine))"
    by (simp_all add: CE_Start_def some_engine_def NewConsensusEngine_def)
  ultimately show ?thesis using engine_stop_is_final [of "CE_Start some_engine" 11] by blast
qed

end
