(* ===== verification/Worker_System.thy ===== *)
theory Worker_System
  imports Parallel_Processor Poset_Model
begin

text \<open>
  The goroutines of the \<open>ParallelProcessor\<close> (\<open>consensus.go\<close>) as a system: any number of event workers, consensus
  workers and result processors over its three channels, interleaved with the callers of \<open>AddEvent\<close>,
  \<open>AddConsensusTask\<close>, \<open>Start\<close> and \<open>Stop\<close>. A worker is waiting in its \<open>range\<close>, about to send a result, or has ended, so a
  turn of its loop is two steps, between which the others run. What \<open>handleResult\<close> prints is the list \<open>ws_printed\<close>.
\<close>

section \<open>Workers\<close>

datatype worker = Ranging | Sending processing_result | Ended

record worker_system =
  ws_pp :: parallel_processor
  ws_event :: "worker list"
  ws_consensus :: "worker list"
  ws_handlers :: nat
  ws_printed :: "processing_result list"

definition EW_take :: "crypto \<Rightarrow> poset \<Rightarrow> nat \<Rightarrow> parallel_processor \<Rightarrow> (worker \<times> parallel_processor) outcome" where
  "EW_take x d wid pp =
     and_then (receive (pp_eventQueue pp)) (\<lambda>(item, q).
       let pp1 = pp\<lparr>pp_eventQueue := q\<rparr> in
       case item of
         None \<Rightarrow> Returns (Ended, pp1)
       | Some p \<Rightarrow> if \<not> pp_running pp1 then Returns (Ended, pp1)
                   else Returns (Sending ((PP_processEvent x d p)\<lparr>pr_TaskID := ''event_'' @ dec wid\<rparr>), pp1))"

definition CW_take :: "nat \<Rightarrow> parallel_processor \<Rightarrow> (worker \<times> parallel_processor) outcome" where
  "CW_take wid pp =
     and_then (receive (pp_consensusQueue pp)) (\<lambda>(item, q).
       let pp1 = pp\<lparr>pp_consensusQueue := q\<rparr> in
       case item of
         None \<Rightarrow> Returns (Ended, pp1)
       | Some t \<Rightarrow> if \<not> pp_running pp1 then Returns (Ended, pp1)
                   else Returns (Sending ((PP_processConsensusTask t)\<lparr>pr_TaskID := ''consensus_'' @ dec wid @ ''_'' @ ct_Type t\<rparr>), pp1))"

definition put_result :: "processing_result \<Rightarrow> parallel_processor \<Rightarrow> (worker \<times> parallel_processor) outcome" where
  "put_result r pp = and_then (send r (pp_results pp)) (\<lambda>(_, rs). Returns (Ranging, pp\<lparr>pp_results := rs\<rparr>))"

definition EW_step :: "crypto \<Rightarrow> poset \<Rightarrow> nat \<Rightarrow> worker \<Rightarrow> parallel_processor \<Rightarrow> (worker \<times> parallel_processor) outcome" where
  "EW_step x d wid w pp = (case w of Ranging \<Rightarrow> EW_take x d wid pp | Sending r \<Rightarrow> put_result r pp | Ended \<Rightarrow> Blocks)"

definition CW_step :: "nat \<Rightarrow> worker \<Rightarrow> parallel_processor \<Rightarrow> (worker \<times> parallel_processor) outcome" where
  "CW_step wid w pp = (case w of Ranging \<Rightarrow> CW_take wid pp | Sending r \<Rightarrow> put_result r pp | Ended \<Rightarrow> Blocks)"

text \<open>One turn of \<open>resultProcessor\<close>, with what \<open>handleResult\<close> prints.\<close>

definition RP_turn :: "worker_system \<Rightarrow> worker_system outcome" where
  "RP_turn s =
     (if ws_handlers s = 0 then Blocks
      else and_then (receive (pp_results (ws_pp s))) (\<lambda>(item, q).
        let s1 = s\<lparr>ws_pp := (ws_pp s)\<lparr>pp_results := q\<rparr>\<rparr> in
        case item of
          None \<Rightarrow> Returns (s1\<lparr>ws_handlers := ws_handlers s - 1\<rparr>)
        | Some r \<Rightarrow> if \<not> pp_running (ws_pp s1) then Returns (s1\<lparr>ws_handlers := ws_handlers s - 1\<rparr>)
                    else Returns (s1\<lparr>ws_printed := ws_printed s @ [r]\<rparr>)))"

text \<open>\<open>Start\<close> with the goroutines it starts.\<close>

definition WS_Start :: "worker_system \<Rightarrow> worker_system" where
  "WS_Start s =
     (let pp = ws_pp s in
      if pp_running pp then s
      else s\<lparr>ws_pp := snd (PP_Start pp), ws_event := ws_event s @ replicate (nat (pp_eventWorkers pp)) Ranging,
             ws_consensus := ws_consensus s @ replicate (nat (pp_consensusWorkers pp)) Ranging,
             ws_handlers := ws_handlers s + 1\<rparr>)"

definition NewWorkerSystem :: "int \<Rightarrow> int \<Rightarrow> worker_system" where
  "NewWorkerSystem m n =
     \<lparr>ws_pp = NewParallelProcessor m n, ws_event = [], ws_consensus = [], ws_handlers = 0, ws_printed = []\<rparr>"

section \<open>The system\<close>

text \<open>The steps of the goroutines. The event heap belongs to the callers and may change between steps.\<close>

inductive work_step :: "crypto \<Rightarrow> worker_system \<Rightarrow> worker_system \<Rightarrow> bool" for x where
  event_worker: "i < length (ws_event s) \<Longrightarrow> EW_step x d i (ws_event s ! i) (ws_pp s) = Returns (w, pp) \<Longrightarrow>
    work_step x s (s\<lparr>ws_pp := pp, ws_event := (ws_event s)[i := w]\<rparr>)"
| consensus_worker: "i < length (ws_consensus s) \<Longrightarrow> CW_step i (ws_consensus s ! i) (ws_pp s) = Returns (w, pp) \<Longrightarrow>
    work_step x s (s\<lparr>ws_pp := pp, ws_consensus := (ws_consensus s)[i := w]\<rparr>)"
| result_processor: "RP_turn s = Returns s' \<Longrightarrow> work_step x s s'"

text \<open>What the callers do. \<open>call_step\<close> and \<open>work_step\<close> together are the runs of the processor.\<close>

inductive call_step :: "worker_system \<Rightarrow> worker_system \<Rightarrow> bool" where
  submit: "PP_AddEvent p (ws_pp s) = Returns (u, pp) \<Longrightarrow> call_step s (s\<lparr>ws_pp := pp\<rparr>)"
| task: "PP_AddConsensusTask t (ws_pp s) = Returns (u, pp) \<Longrightarrow> call_step s (s\<lparr>ws_pp := pp\<rparr>)"
| started: "call_step s (WS_Start s)"
| stopped: "PP_Stop (ws_pp s) = Returns (u, pp) \<Longrightarrow> call_step s (s\<lparr>ws_pp := pp\<rparr>)"

inductive ws_reachable :: "crypto \<Rightarrow> int \<Rightarrow> int \<Rightarrow> worker_system \<Rightarrow> bool" for x m n where
  ws_new: "ws_reachable x m n (NewWorkerSystem m n)"
| ws_work: "ws_reachable x m n s \<Longrightarrow> work_step x s s' \<Longrightarrow> ws_reachable x m n s'"
| ws_call: "ws_reachable x m n s \<Longrightarrow> call_step s s' \<Longrightarrow> ws_reachable x m n s'"

section \<open>Work left and events in the system\<close>

fun weight :: "worker \<Rightarrow> nat" where
  "weight (Sending r) = 2"
| "weight _ = 0"

definition pending_work :: "worker_system \<Rightarrow> nat" where
  "pending_work s =
     3 * length (ch_items (pp_eventQueue (ws_pp s))) + 3 * length (ch_items (pp_consensusQueue (ws_pp s))) +
     sum_list (map weight (ws_event s)) + sum_list (map weight (ws_consensus s)) +
     length (ch_items (pp_results (ws_pp s)))"

definition result_events :: "processing_result \<Rightarrow> eref multiset" where
  "result_events r = (case pr_Data r of Event_data p \<Rightarrow> {#p#} | _ \<Rightarrow> {#})"

fun held_events :: "worker \<Rightarrow> eref multiset" where
  "held_events (Sending r) = result_events r"
| "held_events _ = {#}"

definition printed_events :: "worker_system \<Rightarrow> eref multiset" where
  "printed_events s = sum_list (map result_events (ws_printed s))"

definition events_in :: "worker_system \<Rightarrow> eref multiset" where
  "events_in s =
     mset (ch_items (pp_eventQueue (ws_pp s))) + sum_list (map held_events (ws_event s)) +
     sum_list (map held_events (ws_consensus s)) +
     sum_list (map result_events (ch_items (pp_results (ws_pp s)))) + printed_events s"

text \<open>A system that has been started and not stopped.\<close>

definition ws_open :: "worker_system \<Rightarrow> bool" where
  "ws_open s \<longleftrightarrow> pp_running (ws_pp s) \<and> \<not> ch_closed (pp_results (ws_pp s))"

section \<open>Lemmas\<close>

lemma sum_list_map_update:
  "i < length xs \<Longrightarrow> sum_list (map f (xs[i := y])) + f (xs ! i) = sum_list (map f xs) + (f y :: 'b :: comm_monoid_add)"
proof (induction xs arbitrary: i)
  case (Cons a xs)
  show ?case
  proof (cases i)
    case 0
    then show ?thesis by (simp add: ac_simps)
  next
    case (Suc k)
    then show ?thesis using Cons.IH [of k] Cons.prems by (simp add: add.assoc)
  qed
qed simp

lemma result_events_simps [simp]:
  "result_events ((PP_processEvent x d p)\<lparr>pr_TaskID := i\<rparr>) = {#p#}"
  "result_events ((PP_processConsensusTask t)\<lparr>pr_TaskID := i\<rparr>) = {#}"
  by (simp_all add: result_events_def PP_processEvent_def PP_processConsensusTask_def PP_processFameVoting_def
      PP_processClothoSelection_def PP_processFinality_def task_result_def)

text \<open>The static part of the invariant: the capacities, and that the three channels are closed together.\<close>

definition pp_shape :: "int \<Rightarrow> int \<Rightarrow> parallel_processor \<Rightarrow> bool" where
  "pp_shape m n pp \<longleftrightarrow> pp_eventWorkers pp = m \<and> pp_consensusWorkers pp = n \<and> ch_cap (pp_results pp) = 100 \<and>
     ch_closed (pp_eventQueue pp) = ch_closed (pp_results pp) \<and>
     ch_closed (pp_consensusQueue pp) = ch_closed (pp_results pp)"

definition ws_inv :: "int \<Rightarrow> int \<Rightarrow> worker_system \<Rightarrow> bool" where
  "ws_inv m n s \<longleftrightarrow> pp_shape m n (ws_pp s) \<and>
     (\<not> ch_closed (pp_results (ws_pp s)) \<longrightarrow>
        (if pp_running (ws_pp s)
         then length (ws_event s) = nat m \<and> length (ws_consensus s) = nat n \<and> ws_handlers s = 1 \<and>
              Ended \<notin> set (ws_event s) \<and> Ended \<notin> set (ws_consensus s)
         else ws_event s = [] \<and> ws_consensus s = [] \<and> ws_handlers s = 0))"

lemma ws_inv_new: "ws_inv m n (NewWorkerSystem m n)"
  by (simp add: ws_inv_def pp_shape_def NewWorkerSystem_def NewParallelProcessor_def)

text \<open>What a worker's step does to the processor, by the place it is in.\<close>

lemma receive_cases:
  assumes "receive c = Returns (item, q)"
  obtains (got) a where "item = Some a" "ch_items c = a # ch_items q" "q = c\<lparr>ch_items := ch_items q\<rparr>"
  | (ended) "item = None" "q = c" "ch_items c = []" "ch_closed c"
  using assms by (auto simp: receive_def split: list.splits if_splits)

text \<open>Both kinds of workers take an item from a queue of the processor, and differ in the queue and in what they make of it.\<close>

definition take_work ::
  "(parallel_processor \<Rightarrow> 'a channel) \<Rightarrow> ('a channel \<Rightarrow> parallel_processor \<Rightarrow> parallel_processor) \<Rightarrow>
     ('a \<Rightarrow> processing_result) \<Rightarrow> parallel_processor \<Rightarrow> (worker \<times> parallel_processor) outcome" where
  "take_work queue put work pp =
     and_then (receive (queue pp)) (\<lambda>(item, q). case item of
       None \<Rightarrow> Returns (Ended, put q pp)
     | Some a \<Rightarrow> Returns (if pp_running pp then Sending (work a) else Ended, put q pp))"

lemma take_is_work:
  "EW_take x d wid = take_work pp_eventQueue (\<lambda>q pp. pp\<lparr>pp_eventQueue := q\<rparr>)
     (\<lambda>p. (PP_processEvent x d p)\<lparr>pr_TaskID := ''event_'' @ dec wid\<rparr>)"
  "CW_take wid = take_work pp_consensusQueue (\<lambda>q pp. pp\<lparr>pp_consensusQueue := q\<rparr>)
     (\<lambda>t. (PP_processConsensusTask t)\<lparr>pr_TaskID := ''consensus_'' @ dec wid @ ''_'' @ ct_Type t\<rparr>)"
  by (rule ext, simp add: EW_take_def take_work_def Let_def, intro arg_cong2 [where f = and_then] refl ext,
      simp split: prod.split option.split)
     (rule ext, simp add: CW_take_def take_work_def Let_def, intro arg_cong2 [where f = and_then] refl ext,
      simp split: prod.split option.split)

lemma take_work_cases:
  assumes "take_work queue put work pp0 = Returns (w, pp)"
  obtains (got) a where "pp_running pp0" "w = Sending (work a)"
      "\<exists>q. pp = put ((queue pp0)\<lparr>ch_items := q\<rparr>) pp0 \<and> ch_items (queue pp0) = a # q"
  | (leave) "w = Ended" "\<not> pp_running pp0 \<or> ch_closed (queue pp0)" "\<exists>q. pp = put ((queue pp0)\<lparr>ch_items := q\<rparr>) pp0"
proof -
  obtain item q where r: "receive (queue pp0) = Returns (item, q)"
    and rest: "(case item of None \<Rightarrow> Returns (Ended, put q pp0)
       | Some a \<Rightarrow> Returns (if pp_running pp0 then Sending (work a) else Ended, put q pp0)) = Returns (w, pp)"
    using assms by (auto simp: take_work_def and_then_Returns_iff)
  have "q = (queue pp0)\<lparr>ch_items := ch_items q\<rparr>" using r by (cases rule: receive_cases) auto
  then obtain qs where same: "q = (queue pp0)\<lparr>ch_items := qs\<rparr>" by blast
  from r show ?thesis
  proof (cases rule: receive_cases)
    case (got a)
    then show ?thesis
      using rest that(1) [of a] that(2) same by (cases "pp_running pp0") auto
  next
    case ended
    then have "w = Ended" "pp = put ((queue pp0)\<lparr>ch_items := qs\<rparr>) pp0" using rest same by simp_all
    then show ?thesis using ended by (intro that(2)) auto
  qed
qed

lemma put_result_cases:
  assumes "put_result r pp0 = Returns (w, pp)"
  shows "w = Ranging \<and> \<not> ch_closed (pp_results pp0) \<and>
    pp = pp0\<lparr>pp_results := (pp_results pp0)\<lparr>ch_items := ch_items (pp_results pp0) @ [r]\<rparr>\<rparr>"
  using assms by (auto simp: put_result_def and_then_Returns_iff send_def split: if_splits)

lemma worker_step_cases:
  assumes "EW_step x d i w0 pp0 = Returns (w, pp)"
  obtains (take) p r where "w0 = Ranging" "pp_running pp0" "w = Sending r" "result_events r = {#p#}"
      "\<exists>q. pp = pp0\<lparr>pp_eventQueue := (pp_eventQueue pp0)\<lparr>ch_items := q\<rparr>\<rparr> \<and> ch_items (pp_eventQueue pp0) = p # q"
  | (put) r where "w0 = Sending r" "w = Ranging" "\<not> ch_closed (pp_results pp0)"
      "pp = pp0\<lparr>pp_results := (pp_results pp0)\<lparr>ch_items := ch_items (pp_results pp0) @ [r]\<rparr>\<rparr>"
  | (leave) "w0 = Ranging" "w = Ended" "\<not> pp_running pp0 \<or> ch_closed (pp_eventQueue pp0)"
      "\<exists>q. pp = pp0\<lparr>pp_eventQueue := (pp_eventQueue pp0)\<lparr>ch_items := q\<rparr>\<rparr>"
proof (cases w0)
  case Ranging
  with assms have "EW_take x d i pp0 = Returns (w, pp)" by (simp add: EW_step_def)
  from this [unfolded take_is_work] show ?thesis
  proof (cases rule: take_work_cases)
    case (got a)
    show ?thesis by (rule take [OF Ranging got(1,2) _ got(3)]) simp
  next
    case l: leave
    show ?thesis by (rule leave [OF Ranging l])
  qed
next
  case (Sending r)
  with assms have "put_result r pp0 = Returns (w, pp)" by (simp add: EW_step_def)
  from put_result_cases [OF this] show ?thesis using put [OF Sending] by blast
qed (use assms in \<open>simp add: EW_step_def\<close>)

lemma consensus_step_cases:
  assumes "CW_step i w0 pp0 = Returns (w, pp)"
  obtains (take) t r where "w0 = Ranging" "pp_running pp0" "w = Sending r" "result_events r = {#}"
      "\<exists>q. pp = pp0\<lparr>pp_consensusQueue := (pp_consensusQueue pp0)\<lparr>ch_items := q\<rparr>\<rparr> \<and> ch_items (pp_consensusQueue pp0) = t # q"
  | (put) r where "w0 = Sending r" "w = Ranging" "\<not> ch_closed (pp_results pp0)"
      "pp = pp0\<lparr>pp_results := (pp_results pp0)\<lparr>ch_items := ch_items (pp_results pp0) @ [r]\<rparr>\<rparr>"
  | (leave) "w0 = Ranging" "w = Ended" "\<not> pp_running pp0 \<or> ch_closed (pp_consensusQueue pp0)"
      "\<exists>q. pp = pp0\<lparr>pp_consensusQueue := (pp_consensusQueue pp0)\<lparr>ch_items := q\<rparr>\<rparr>"
proof (cases w0)
  case Ranging
  with assms have "CW_take i pp0 = Returns (w, pp)" by (simp add: CW_step_def)
  from this [unfolded take_is_work] show ?thesis
  proof (cases rule: take_work_cases)
    case (got a)
    show ?thesis by (rule take [OF Ranging got(1,2) _ got(3)]) simp
  next
    case l: leave
    show ?thesis by (rule leave [OF Ranging l])
  qed
next
  case (Sending r)
  with assms have "put_result r pp0 = Returns (w, pp)" by (simp add: CW_step_def)
  from put_result_cases [OF this] show ?thesis using put [OF Sending] by blast
qed (use assms in \<open>simp add: CW_step_def\<close>)

lemma RP_turn_cases:
  assumes "RP_turn s = Returns s'"
  obtains (printed) r where "pp_running (ws_pp s)" "ch_items (pp_results (ws_pp s)) = r # ch_items (pp_results (ws_pp s'))"
      "\<exists>q. s' = s\<lparr>ws_pp := (ws_pp s)\<lparr>pp_results := (pp_results (ws_pp s))\<lparr>ch_items := q\<rparr>\<rparr>, ws_printed := ws_printed s @ [r]\<rparr>"
  | (leave) "\<not> pp_running (ws_pp s) \<or> ch_closed (pp_results (ws_pp s))"
      "\<exists>q k. s' = s\<lparr>ws_pp := (ws_pp s)\<lparr>pp_results := (pp_results (ws_pp s))\<lparr>ch_items := q\<rparr>\<rparr>, ws_handlers := k\<rparr>"
proof -
  obtain item q where r: "receive (pp_results (ws_pp s)) = Returns (item, q)"
    and rest: "(let s1 = s\<lparr>ws_pp := (ws_pp s)\<lparr>pp_results := q\<rparr>\<rparr> in
      case item of None \<Rightarrow> Returns (s1\<lparr>ws_handlers := ws_handlers s - 1\<rparr>)
      | Some r \<Rightarrow> if \<not> pp_running (ws_pp s1) then Returns (s1\<lparr>ws_handlers := ws_handlers s - 1\<rparr>)
                  else Returns (s1\<lparr>ws_printed := ws_printed s @ [r]\<rparr>)) = Returns s'"
    using assms by (auto simp: RP_turn_def and_then_Returns_iff split: if_splits)
  from r show ?thesis
  proof (cases rule: receive_cases)
    case (got r)
    show ?thesis
    proof (cases "pp_running (ws_pp s)")
      case True
      show ?thesis by (rule printed [of r]) (use True rest got in \<open>auto simp: Let_def intro!: exI [of _ "ch_items q"]\<close>)
    next
      case False
      show ?thesis by (rule leave) (use False rest got in \<open>auto simp: Let_def intro!: exI [of _ "ch_items q"]\<close>)
    qed
  next
    case ended
    show ?thesis
      by (rule leave) (use rest ended in \<open>auto simp: Let_def intro!: exI [of _ "ch_items q"] exI [of _ "ws_handlers s - 1"]\<close>)
  qed
qed

lemma not_ended_update: "Ended \<notin> set ws \<Longrightarrow> w \<noteq> Ended \<Longrightarrow> Ended \<notin> set (ws[i := w])"
  using set_update_subset_insert [of ws i w] by auto

lemma work_step_inv:
  assumes "work_step x s s'" and inv: "ws_inv m n s"
  shows "ws_inv m n s'"
  using assms(1)
proof (cases rule: work_step.cases)
  case (event_worker i d w pp)
  from event_worker(3) show ?thesis
    by (cases rule: worker_step_cases) (use inv event_worker in \<open>auto simp: ws_inv_def pp_shape_def not_ended_update\<close>)
next
  case (consensus_worker i w pp)
  from consensus_worker(3) show ?thesis
    by (cases rule: consensus_step_cases) (use inv consensus_worker in \<open>auto simp: ws_inv_def pp_shape_def not_ended_update\<close>)
next
  case result_processor
  then have h: "ws_handlers s \<noteq> 0" by (simp add: RP_turn_def split: if_split_asm)
  from result_processor show ?thesis
    by (cases rule: RP_turn_cases) (use inv h in \<open>auto simp: ws_inv_def pp_shape_def split: if_splits\<close>)
qed

lemma call_step_inv:
  assumes "call_step s s'" and inv: "ws_inv m n s"
  shows "ws_inv m n s'"
  using assms(1)
proof (cases rule: call_step.cases)
  case (submit p u pp)
  then show ?thesis using inv
    by (auto simp: PP_AddEvent_def and_then_Returns_iff ws_inv_def pp_shape_def try_send_def split: if_splits)
next
  case (task t u pp)
  then show ?thesis using inv
    by (auto simp: PP_AddConsensusTask_def and_then_Returns_iff ws_inv_def pp_shape_def try_send_def split: if_splits)
next
  case started
  then show ?thesis using inv by (auto simp: WS_Start_def Let_def PP_Start_def ws_inv_def pp_shape_def)
next
  case (stopped u pp)
  then show ?thesis using inv
    by (auto simp: PP_Stop_def and_then_Returns_iff ws_inv_def pp_shape_def close_chan_def split: if_splits)
qed

lemma ws_reachable_inv: "ws_reachable x m n s \<Longrightarrow> ws_inv m n s"
  by (induction rule: ws_reachable.induct) (auto intro: ws_inv_new work_step_inv call_step_inv)

text \<open>While the system is open, a step does one unit of work and loses no event.\<close>

lemma open_fields:
  assumes "ws_open s" and "ws_inv m n s"
  shows "pp_running (ws_pp s)" "\<not> ch_closed (pp_results (ws_pp s))" "\<not> ch_closed (pp_eventQueue (ws_pp s))"
    "\<not> ch_closed (pp_consensusQueue (ws_pp s))" "ch_cap (pp_results (ws_pp s)) = 100" "ws_handlers s = 1"
    "length (ws_event s) = nat m" "length (ws_consensus s) = nat n"
    "Ended \<notin> set (ws_event s)" "Ended \<notin> set (ws_consensus s)"
  using assms by (auto simp: ws_open_def ws_inv_def pp_shape_def)

lemma work_step_effect:
  assumes "work_step x s s'" and op: "ws_open s" and inv: "ws_inv m n s"
  shows "ws_open s' \<and> Suc (pending_work s') = pending_work s \<and> events_in s' = events_in s"
  using assms(1)
proof (cases rule: work_step.cases)
  case (event_worker i d w pp)
  have sums: "sum_list (map weight ((ws_event s)[i := w])) + weight (ws_event s ! i) = sum_list (map weight (ws_event s)) + weight w"
    "sum_list (map held_events ((ws_event s)[i := w])) + held_events (ws_event s ! i) =
       sum_list (map held_events (ws_event s)) + held_events w"
    using event_worker(2) by (rule sum_list_map_update)+
  from event_worker(3) show ?thesis
  proof (cases rule: worker_step_cases)
    case (take p r)
    then show ?thesis using event_worker(1) sums open_fields [OF op inv]
      by (auto simp: ws_open_def pending_work_def events_in_def printed_events_def union_ac)
  next
    case (put r)
    then show ?thesis using event_worker(1) sums open_fields [OF op inv]
      by (auto simp: ws_open_def pending_work_def events_in_def printed_events_def union_ac)
  next
    case leave
    then show ?thesis using open_fields [OF op inv] by simp
  qed
next
  case (consensus_worker i w pp)
  have sums: "sum_list (map weight ((ws_consensus s)[i := w])) + weight (ws_consensus s ! i) = sum_list (map weight (ws_consensus s)) + weight w"
    "sum_list (map held_events ((ws_consensus s)[i := w])) + held_events (ws_consensus s ! i) =
       sum_list (map held_events (ws_consensus s)) + held_events w"
    using consensus_worker(2) by (rule sum_list_map_update)+
  from consensus_worker(3) show ?thesis
  proof (cases rule: consensus_step_cases)
    case (take t r)
    then show ?thesis using consensus_worker(1) sums open_fields [OF op inv]
      by (auto simp: ws_open_def pending_work_def events_in_def printed_events_def union_ac)
  next
    case (put r)
    then show ?thesis using consensus_worker(1) sums open_fields [OF op inv]
      by (auto simp: ws_open_def pending_work_def events_in_def printed_events_def union_ac)
  next
    case leave
    then show ?thesis using open_fields [OF op inv] by simp
  qed
next
  case result_processor
  then show ?thesis
  proof (cases rule: RP_turn_cases)
    case (printed r)
    then show ?thesis using open_fields [OF op inv]
      by (auto simp: ws_open_def pending_work_def events_in_def printed_events_def union_ac)
  next
    case leave
    then show ?thesis using open_fields [OF op inv] by simp
  qed
qed

text \<open>Work that is left can be done: no set of goroutines waits for one another.\<close>

lemma work_left_moves:
  assumes op: "ws_open s" and inv: "ws_inv m n s" and "0 < m" and "0 < n" and "pending_work s \<noteq> 0"
  shows "\<exists>s'. work_step x s s'"
proof (cases "ch_items (pp_results (ws_pp s)) = []")
  case False
  then obtain r rs where r: "ch_items (pp_results (ws_pp s)) = r # rs" by (cases "ch_items (pp_results (ws_pp s))") auto
  then have "\<exists>s'. RP_turn s = Returns s'" using open_fields [OF op inv] by (simp add: RP_turn_def receive_def Let_def)
  then show ?thesis using result_processor by blast
next
  case empty: True
  have put: "\<exists>pp. put_result r (ws_pp s) = Returns (Ranging, pp)" for r
    using open_fields(2,5) [OF op inv] empty by (simp add: put_result_def send_def)
  have len: "0 < length (ws_event s)" "0 < length (ws_consensus s)" using open_fields(7,8) [OF op inv] assms(3,4) by simp_all
  consider (ev) i r where "i < length (ws_event s)" "ws_event s ! i = Sending r"
    | (co) i r where "i < length (ws_consensus s)" "ws_consensus s ! i = Sending r"
    | (idle) "\<forall>w \<in> set (ws_event s) \<union> set (ws_consensus s). w = Ranging"
    using open_fields(9,10) [OF op inv] by (metis Un_iff in_set_conv_nth worker.exhaust)
  then show ?thesis
  proof cases
    case ev
    then show ?thesis using put [of r] work_step.event_worker [of i s x undefined] by (fastforce simp: EW_step_def)
  next
    case co
    then show ?thesis using put [of r] work_step.consensus_worker [of i s] by (fastforce simp: CW_step_def)
  next
    case idle
    then have "weight u = 0" if "u \<in> set (ws_event s) \<union> set (ws_consensus s)" for u
      using bspec [OF idle that] by simp
    then have w: "sum_list (map weight (ws_event s)) = 0" "sum_list (map weight (ws_consensus s)) = 0" by simp_all
    have first: "ws_event s ! 0 = Ranging" "ws_consensus s ! 0 = Ranging" using idle len by auto
    show ?thesis
    proof (cases "ch_items (pp_eventQueue (ws_pp s))")
      case (Cons p ps)
      then have "\<exists>w pp. EW_step x undefined 0 (ws_event s ! 0) (ws_pp s) = Returns (w, pp)"
        using first by (simp add: EW_step_def EW_take_def receive_def Let_def)
      then show ?thesis using work_step.event_worker [OF len(1)] by blast
    next
      case Nil
      then obtain t ts where "ch_items (pp_consensusQueue (ws_pp s)) = t # ts"
        using w empty assms(5) by (cases "ch_items (pp_consensusQueue (ws_pp s))") (auto simp: pending_work_def)
      then have "\<exists>w pp. CW_step 0 (ws_consensus s ! 0) (ws_pp s) = Returns (w, pp)"
        using first by (simp add: CW_step_def CW_take_def receive_def Let_def)
      then show ?thesis using work_step.consensus_worker [OF len(2)] by blast
    qed
  qed
qed

lemma nothing_left:
  assumes "pending_work s = 0"
  shows "events_in s = printed_events s"
proof -
  have held: "weight w = 0 \<Longrightarrow> held_events w = {#}" for w by (cases w) simp_all
  have "sum_list (map held_events ws) = {#}" if "sum_list (map weight ws) = 0" for ws
    using that by (induction ws) (auto simp: held)
  then show ?thesis using assms by (simp add: pending_work_def events_in_def)
qed

lemma work_run:
  assumes "(work_step x ^^ k) s s'" and "ws_open s" and "ws_inv m n s"
  shows "ws_open s' \<and> ws_inv m n s' \<and> k + pending_work s' = pending_work s \<and> events_in s' = events_in s"
  using assms(1)
proof (induction k arbitrary: s')
  case (Suc k)
  then obtain s1 where s1: "(work_step x ^^ k) s s1" "work_step x s1 s'" by auto
  then show ?case using Suc.IH [OF s1(1)] work_step_effect [OF s1(2)] work_step_inv [OF s1(2)] by fastforce
qed (use assms in simp)

lemma all_work_can_be_done:
  "ws_open s \<Longrightarrow> ws_inv m n s \<Longrightarrow> 0 < m \<Longrightarrow> 0 < n \<Longrightarrow>
   \<exists>s'. (work_step x ^^ pending_work s) s s' \<and> pending_work s' = 0"
proof (induction "pending_work s" arbitrary: s)
  case 0
  then show ?case by (intro exI [of _ s]) simp
next
  case (Suc k)
  then obtain s1 where s1: "work_step x s s1" using work_left_moves [of s m n x] by auto
  then have "ws_open s1" "pending_work s = Suc (pending_work s1)" "ws_inv m n s1"
    using work_step_effect [OF s1 Suc.prems(1,2)] work_step_inv [OF s1 Suc.prems(2)] by auto
  moreover from this Suc obtain s' where "(work_step x ^^ pending_work s1) s1 s'" "pending_work s' = 0" by force
  ultimately show ?case using s1 by (metis relpowp_Suc_I2)
qed

text \<open>What a call adds: an event when the queue has room, and nothing when it is full.\<close>

lemma submit_adds:
  assumes "ws_open s" and "ws_inv m n s"
  shows "\<exists>pp. PP_AddEvent p (ws_pp s) = Returns ((), pp) \<and> ws_open (s\<lparr>ws_pp := pp\<rparr>) \<and>
    events_in (s\<lparr>ws_pp := pp\<rparr>) = events_in s +
      (if length (ch_items (pp_eventQueue (ws_pp s))) < ch_cap (pp_eventQueue (ws_pp s)) then {#p#} else {#})"
  using open_fields [OF assms]
  by (simp add: PP_AddEvent_def try_send_def ws_open_def events_in_def printed_events_def)

lemma sum_list_empty [simp]: "sum_list (replicate k {#}) = {#}"
  by (induction k) simp_all

lemma start_opens: "ws_open (WS_Start (NewWorkerSystem m n))" "events_in (WS_Start (NewWorkerSystem m n)) = {#}"
  by (simp_all add: WS_Start_def NewWorkerSystem_def PP_Start_def NewParallelProcessor_def ws_open_def events_in_def
      printed_events_def)

section \<open>Results\<close>

text \<open>A turn of a worker's loop that nobody interrupts is the definition of \<open>Parallel_Processor\<close>.\<close>

lemma event_worker_turn:
  "PP_eventWorker x d wid pp =
     and_then (EW_take x d wid pp) (\<lambda>(w, pp1). case w of
       Sending r \<Rightarrow> and_then (put_result r pp1) (\<lambda>(_, pp2). Returns (True, pp2))
     | _ \<Rightarrow> Returns (False, pp1))"
  by (cases "receive (pp_eventQueue pp)")
    (auto simp: PP_eventWorker_def EW_take_def put_result_def Let_def and_then_assoc case_prod_unfold split: option.split)

lemma consensus_worker_turn:
  "PP_consensusWorker wid pp =
     and_then (CW_take wid pp) (\<lambda>(w, pp1). case w of
       Sending r \<Rightarrow> and_then (put_result r pp1) (\<lambda>(_, pp2). Returns (True, pp2))
     | _ \<Rightarrow> Returns (False, pp1))"
  by (cases "receive (pp_consensusQueue pp)")
    (auto simp: PP_consensusWorker_def CW_take_def put_result_def Let_def and_then_assoc case_prod_unfold split: option.split)

text \<open>
  C28. The workers drain the queues. Take a parallel processor with at least one worker of each kind, started and not
  stopped, in any state its calls and goroutines can reach. However the goroutines interleave from there, each
  of their steps takes one unit off the work left, so they make at most \<open>pending_work\<close> steps; while work is
  left some goroutine can go on, although the workers send to a bounded channel; and when none is left, every event
  that was in the system has been printed as a result exactly as often as it was submitted.
\<close>

theorem workers_drain_the_queues:
  assumes "ws_reachable x m n s" and "0 < m" and "0 < n" and "ws_open s" and "(work_step x ^^ k) s s'"
  shows "k + pending_work s' = pending_work s \<and> (pending_work s' \<noteq> 0 \<longrightarrow> (\<exists>s2. work_step x s' s2)) \<and>
    (pending_work s' = 0 \<longrightarrow> printed_events s' = events_in s)"
proof -
  have run: "ws_open s'" "ws_inv m n s'" "k + pending_work s' = pending_work s" "events_in s' = events_in s"
    using work_run [OF assms(5,4) ws_reachable_inv [OF assms(1)]] by auto
  then show ?thesis using work_left_moves [OF run(1,2) assms(2,3)] nothing_left [of s'] by auto
qed

theorem workers_drain_the_queues_witness:
  "\<exists>s s'. ws_reachable sample_crypto 4 2 s \<and> (work_step sample_crypto ^^ pending_work s) s s' \<and> printed_events s' = {#11#}"
proof -
  let ?s0 = "WS_Start (NewWorkerSystem 4 2)"
  have r0: "ws_reachable sample_crypto 4 2 ?s0" by (rule ws_call [OF ws_new started])
  have room: "length (ch_items (pp_eventQueue (ws_pp ?s0))) < ch_cap (pp_eventQueue (ws_pp ?s0))"
    by (simp add: WS_Start_def NewWorkerSystem_def PP_Start_def NewParallelProcessor_def make_chan_def)
  then obtain pp where pp: "PP_AddEvent 11 (ws_pp ?s0) = Returns ((), pp)" "ws_open (?s0\<lparr>ws_pp := pp\<rparr>)"
    "events_in (?s0\<lparr>ws_pp := pp\<rparr>) = {#11#}"
    using submit_adds [OF start_opens(1) ws_reachable_inv [OF r0], of 11] by (auto simp: start_opens(2))
  define s where "s = ?s0\<lparr>ws_pp := pp\<rparr>"
  have r: "ws_reachable sample_crypto 4 2 s" unfolding s_def by (rule ws_call [OF r0 submit [OF pp(1)]])
  have op: "ws_open s" using pp(2) by (simp add: s_def)
  obtain s' where s': "(work_step sample_crypto ^^ pending_work s) s s'" "pending_work s' = 0"
    using all_work_can_be_done [OF op ws_reachable_inv [OF r]] by auto
  have "printed_events s' = {#11#}" using workers_drain_the_queues [OF r _ _ op s'(1)] s'(2) pp(3) by (simp add: s_def)
  then show ?thesis using r s'(1) by blast
qed

text \<open>
  \<open>Stop\<close> is not safe while a worker holds a result: it closes the channel the worker sends to, and the send
  panics. Events that are still queued are dropped: after \<open>Stop\<close> nothing is printed any more.
\<close>

theorem worker_caught_by_stop_panics:
  assumes "ws_reachable x m n s" and "ws_open s" and "PP_Stop (ws_pp s) = Returns (u, pp)"
    and "ws_event s ! i = Sending r"
  shows "EW_step x d i (ws_event s ! i) pp = Panics"
proof -
  have "ch_closed (pp_results pp)" using assms(2,3)
    by (auto simp: PP_Stop_def and_then_Returns_iff ws_open_def close_chan_def split: if_splits)
  then show ?thesis using assms(4) by (simp add: EW_step_def put_result_def)
qed

lemma stopped_prints_nothing:
  assumes "work_step x s s'" and "\<not> pp_running (ws_pp s)"
  shows "ws_printed s' = ws_printed s \<and> \<not> pp_running (ws_pp s')"
  using assms(1)
proof (cases rule: work_step.cases)
  case (event_worker i d w pp)
  from event_worker(3) show ?thesis by (cases rule: worker_step_cases) (use event_worker assms(2) in auto)
next
  case (consensus_worker i w pp)
  from consensus_worker(3) show ?thesis by (cases rule: consensus_step_cases) (use consensus_worker assms(2) in auto)
next
  case result_processor
  then show ?thesis by (cases rule: RP_turn_cases) (use assms(2) in auto)
qed

end
