(* ===== verification/Engine_Workers.thy ===== *)
theory Engine_Workers
  imports Consensus_Engine Worker_System
begin

text \<open>
  The engine together with the goroutines of its parallel processor. The two share the processor's channels: the
  engine's \<open>AddEvent\<close>, \<open>Start\<close>, \<open>Stop\<close> and pipeline write to them, the workers read from them. A worker also calls
  \<open>Hash\<close> on the event it takes, which fills the hash cache of that event. No worker writes to any other
  part of the engine, so what holds of the engine alone holds of the composed system.
\<close>

text \<open>The place of the consensus loop, the engine, and the workers; the processor is the engine's.\<close>

type_synonym 'st engine_system = "loop_place \<times> 'st consensus_engine \<times> worker_system"

definition workers_of :: "'st consensus_engine \<Rightarrow> worker_system \<Rightarrow> worker_system" where
  "workers_of ce s = s\<lparr>ws_pp := ce_parallelProcessor ce\<rparr>"

definition with_workers :: "worker_system \<Rightarrow> 'st consensus_engine \<Rightarrow> 'st consensus_engine" where
  "with_workers s ce = ce\<lparr>ce_parallelProcessor := ws_pp s\<rparr>"

text \<open>\<open>Start\<close> with the workers it starts.\<close>

definition CE_Start_workers :: "'st consensus_engine \<Rightarrow> worker_system \<Rightarrow> 'st consensus_engine \<times> worker_system" where
  "CE_Start_workers ce s = (let s1 = WS_Start (workers_of ce s) in (with_workers s1 ce, s1))"

lemma CE_Start_workers: "fst (CE_Start_workers ce s) = CE_Start ce"
  by (simp add: CE_Start_workers_def CE_Start_def with_workers_def workers_of_def WS_Start_def PP_Start_def Let_def)

inductive es_step ::
  "block_crypto \<Rightarrow> (string \<Rightarrow> address) \<Rightarrow> (address \<Rightarrow> string) \<Rightarrow> 'st engine_system \<Rightarrow> 'st engine_system \<Rightarrow> bool"
  for x h2a a2h where
  es_start: "CE_Start_workers ce s = (ce', s') \<Longrightarrow> es_step x h2a a2h (pl, ce, s) (pl, ce', s')"
| es_engine: "ce_step x h2a a2h (pl, ce) (pl', ce') \<Longrightarrow>
    pp_running (ce_parallelProcessor ce') \<longrightarrow> pp_running (ce_parallelProcessor ce) \<Longrightarrow>
    es_step x h2a a2h (pl, ce, s) (pl', ce', workers_of ce' s)"
| es_worker: "work_step (crypto.truncate x) s s' \<Longrightarrow> es_step x h2a a2h (pl, ce, s) (pl, with_workers s' ce, s')"
| es_hash: "es_step x h2a a2h (pl, ce, s) (pl, ce\<lparr>ce_poset := snd (hash_ref (crypto.truncate x) p (ce_poset ce))\<rparr>, s)"

section \<open>The engine as a caller of the processor\<close>

lemma workers_of_calls:
  "call_step (workers_of ce s) (s\<lparr>ws_pp := ce_parallelProcessor ce'\<rparr>) \<Longrightarrow> call_step (workers_of ce s) (workers_of ce' s)"
  by (simp add: workers_of_def)

lemma task_calls:
  assumes "CE_addTask name n ce = Returns ce'"
  shows "call_step (workers_of ce s) (workers_of ce' s)"
  using assms task [of _ "workers_of ce s"]
  by (fastforce simp: CE_addTask_def and_then_Returns_iff workers_of_def)

text \<open>Each stage of the pipeline is at most one call, and leaves the mutex free.\<close>

lemma stage_calls:
  assumes "ce_mu ce = unlocked"
  shows "CE_runRoundAssignment y ce = Returns (u, ce') \<Longrightarrow> ce_mu ce' = unlocked \<and> workers_of ce' s = workers_of ce s"
    and "CE_runFameVoting y now ce = Returns (u, ce') \<Longrightarrow>
      ce_mu ce' = unlocked \<and> call_step (workers_of ce s) (workers_of ce' s)"
    and "CE_runClothoSelection y ce = Returns (u, ce') \<Longrightarrow>
      ce_mu ce' = unlocked \<and> call_step (workers_of ce s) (workers_of ce' s)"
    and "CE_runFinality y ko tms rs ce = Returns (u, ce') \<Longrightarrow>
      ce_mu ce' = unlocked \<and> call_step (workers_of ce s) (workers_of ce' s)"
proof -
  show "CE_runRoundAssignment y ce = Returns (u, ce') \<Longrightarrow> ce_mu ce' = unlocked \<and> workers_of ce' s = workers_of ce s"
    by (auto simp: runRoundAssignment_free [OF assms] and_then_Returns_iff workers_of_def assms)
  have same: "workers_of (ce1\<lparr>ce_fameVoting := fv\<rparr>) s = workers_of ce1 s" "workers_of (ce1\<lparr>ce_clothoSelector := cs\<rparr>) s = workers_of ce1 s"
    "workers_of (ce1\<lparr>ce_poset := P, ce_finalityEngine := fe\<rparr>) s = workers_of ce1 s" for ce1 :: "'a consensus_engine" and fv cs P fe
    by (simp_all add: workers_of_def)
  show "CE_runFameVoting y now ce = Returns (u, ce') \<Longrightarrow> ce_mu ce' = unlocked \<and> call_step (workers_of ce s) (workers_of ce' s)"
    by (auto simp: runFameVoting_free [OF assms] and_then_Returns_iff same assms dest: addTask_mu task_calls)
  show "CE_runClothoSelection y ce = Returns (u, ce') \<Longrightarrow> ce_mu ce' = unlocked \<and> call_step (workers_of ce s) (workers_of ce' s)"
    by (auto simp: runClothoSelection_free [OF assms] and_then_Returns_iff same assms dest: addTask_mu task_calls)
  show "CE_runFinality y ko tms rs ce = Returns (u, ce') \<Longrightarrow> ce_mu ce' = unlocked \<and> call_step (workers_of ce s) (workers_of ce' s)"
    by (auto simp: runFinality_free [OF assms] and_then_Returns_iff same assms case_prod_unfold Let_def dest: addTask_mu task_calls)
qed

lemma pipeline_calls:
  assumes "ce_mu ce = unlocked" and "CE_pipeline x t ce = Returns (u, ce')"
  shows "call_step\<^sup>*\<^sup>* (workers_of ce s) (workers_of ce' s)"
proof -
  obtain v1 ce1 v2 ce2 v3 ce3 where run: "CE_runRoundAssignment (crypto.truncate x) ce = Returns (v1, ce1)"
    "CE_runFameVoting (crypto.truncate x) (ck_millis t) ce1 = Returns (v2, ce2)"
    "CE_runClothoSelection (crypto.truncate x) ce2 = Returns (v3, ce3)"
    "CE_runFinality (crypto.truncate x) (ck_orders t) (ck_times t) (ck_rounds t) ce3 = Returns (u, ce')"
    using assms(2) by (auto simp: CE_pipeline_def and_then_Returns_iff)
  note s1 = stage_calls(1) [OF assms(1) run(1), of s]
  note s2 = stage_calls(2) [OF conjunct1 [OF s1] run(2), of s]
  note s3 = stage_calls(3) [OF conjunct1 [OF s2] run(3), of s]
  note s4 = stage_calls(4) [OF conjunct1 [OF s3] run(4), of s]
  show ?thesis using s1 s2 s3 s4 by (metis converse_rtranclp_into_rtranclp rtranclp.rtrancl_refl)
qed

lemma processEvent_processor:
  "CE_processEvent y ko p ce = Returns (g, ce') \<Longrightarrow> ce_parallelProcessor ce' = ce_parallelProcessor ce"
  by (auto simp: CE_processEvent_def Let_def case_prod_unfold and_then_Returns_iff split: if_split_asm)

lemma engine_calls:
  assumes "ce_step x h2a a2h t t'" and "engine_ok (snd t)"
    and "pp_running (ce_parallelProcessor (snd t')) \<longrightarrow> pp_running (ce_parallelProcessor (snd t))"
  shows "call_step\<^sup>*\<^sup>* (workers_of (snd t) s) (workers_of (snd t') s)"
  using assms
proof (induction rule: ce_step.induct)
  case (start pl ce)
  then show ?case by (cases "pp_running (ce_parallelProcessor ce)") (auto simp: CE_Start_def PP_Start_def)
next
  case (stop ce u ce' pl)
  then show ?case
    by (auto simp: CE_Stop_def and_then_Returns_iff workers_of_def intro!: r_into_rtranclp
        dest: call_step.stopped [of "s\<lparr>ws_pp := ce_parallelProcessor ce\<rparr>", simplified])
next
  case (add p ce r ce' pl)
  then show ?case
    by (auto simp: CE_AddEvent_def and_then_Returns_iff workers_of_def intro!: r_into_rtranclp
        dest: call_step.submit [of _ "s\<lparr>ws_pp := ce_parallelProcessor ce\<rparr>", simplified])
next
  case (event ko ce b ce' pl)
  have "ce_parallelProcessor ce' = ce_parallelProcessor ce"
    using event(1) by (auto simp: CE_processEvents_def and_then_Returns_iff Let_def split: option.splits)
      (drule processEvent_processor, simp)
  then show ?case by (simp add: workers_of_def)
next
  case (block now k ce u ce' pl)
  then show ?case using createBlock_quiet [of ce x now k] by (simp add: engine_ok_def)
next
  case (tick t pl ce pl' ce')
  then show ?case using createBlock_quiet [of ce x "ck_now t" "ck_pick t"] pipeline_calls [of ce x t]
    by (cases pl) (auto simp: CE_consensusTick_def engine_ok_def and_then_Returns_iff)
next
  case (stopped pl ce pl')
  then show ?case by simp
next
  case (validator v ce r ce' pl)
  then show ?case by (auto simp: engine_ok_def addValidator_free workers_of_def and_then_Returns_iff)
next
  case (no_validator addr ce r ce' pl)
  then show ?case by (auto simp: engine_ok_def removeValidator_free workers_of_def and_then_Returns_iff)
qed

section \<open>The invariant of the composed system\<close>

definition es_inv :: "crypto \<Rightarrow> 'st engine_system \<Rightarrow> bool" where
  "es_inv y t \<longleftrightarrow> (case t of (pl, ce, s) \<Rightarrow>
     engine_ok ce \<and> ws_pp s = ce_parallelProcessor ce \<and> ws_reachable y 4 2 s)"

lemma workers_of_same: "ws_pp s = ce_parallelProcessor ce \<Longrightarrow> workers_of ce s = s"
  by (simp add: workers_of_def flip: worker_system.surjective)

lemma reachable_calls: "call_step\<^sup>*\<^sup>* s s' \<Longrightarrow> ws_reachable y m n s \<Longrightarrow> ws_reachable y m n s'"
  by (induction rule: rtranclp_induct) (auto intro: ws_call)

lemma with_workers_ok: "engine_ok (with_workers s ce) = engine_ok ce"
  by (simp add: engine_ok_def with_workers_def)

lemma es_step_inv: "es_step x h2a a2h t t' \<Longrightarrow> es_inv (crypto.truncate x) t \<Longrightarrow> es_inv (crypto.truncate x) t'"
proof (induction rule: es_step.induct)
  case (es_start ce s ce' s' pl)
  then have *: "workers_of ce s = s" by (simp add: es_inv_def workers_of_same)
  have "s' = WS_Start s" "ce' = with_workers s' ce" using es_start by (auto simp: CE_Start_workers_def Let_def *)
  then show ?case using es_start ws_call [OF _ started] by (auto simp: es_inv_def with_workers_ok) (simp add: with_workers_def)
next
  case (es_engine pl ce pl' ce' s)
  then have *: "workers_of ce s = s" "engine_ok ce" "ws_reachable (crypto.truncate x) 4 2 s" by (simp_all add: es_inv_def workers_of_same)
  have "engine_ok ce'" using ce_step_ok [OF es_engine(1)] *(2) by simp
  moreover have "call_step\<^sup>*\<^sup>* s (workers_of ce' s)" using engine_calls [OF es_engine(1), of s] es_engine(2) * by simp
  ultimately show ?case using reachable_calls *(3) by (auto simp: es_inv_def) (simp add: workers_of_def)
next
  case (es_worker s s' pl ce)
  then show ?case by (auto simp: es_inv_def with_workers_ok intro: ws_work) (simp add: with_workers_def)
next
  case (es_hash pl ce s p)
  then show ?case by (simp add: es_inv_def engine_ok_def quiet_hash_ref)
qed

lemma es_run_inv: "(es_step x h2a a2h)\<^sup>*\<^sup>* t t' \<Longrightarrow> es_inv (crypto.truncate x) t \<Longrightarrow> es_inv (crypto.truncate x) t'"
  by (induction rule: rtranclp_induct) (auto intro: es_step_inv)

lemma es_new_inv:
  "\<forall>p. ev_Atropos (heap p) = 0 \<Longrightarrow>
   es_inv y (pl, NewConsensusEngine now heap vheap config, NewWorkerSystem 4 2)"
  by (simp add: es_inv_def new_engine_ok ws_new) (simp add: NewConsensusEngine_def NewWorkerSystem_def)

text \<open>
  The engine's workers never finalise anything, and never hold anything up. In every state the engine reaches together with
  the workers of its parallel processor, whatever is submitted and however the goroutines interleave, no event is
  final, no witness famous and no block queued; and as long as the engine has not been stopped, the workers
  have a step to make whenever their queues hold work.
\<close>

theorem workers_do_not_finalise:
  assumes "\<forall>p. ev_Atropos (heap p) = 0"
    and "(es_step x h2a a2h)\<^sup>*\<^sup>* (In_runConsensus, NewConsensusEngine now heap vheap config, NewWorkerSystem 4 2) (pl, ce, s)"
  shows "(\<forall>p. ev_Atropos (d_heap (ce_poset ce) p) = 0) \<and> undecided (ce_fameVoting ce) \<and> ch_items (ce_blockQueue ce) = [] \<and>
    (ws_open s \<and> pending_work s \<noteq> 0 \<longrightarrow> (\<exists>t. es_step x h2a a2h (pl, ce, s) t \<and> pending_work (snd (snd t)) < pending_work s))"
proof -
  have inv: "es_inv (crypto.truncate x) (pl, ce, s)" by (rule es_run_inv [OF assms(2) es_new_inv [OF assms(1)]])
  then have ok: "engine_ok ce" and r: "ws_inv 4 2 s" by (auto simp: es_inv_def dest: ws_reachable_inv)
  have "\<exists>t. es_step x h2a a2h (pl, ce, s) t \<and> pending_work (snd (snd t)) < pending_work s"
    if op: "ws_open s" and left: "pending_work s \<noteq> 0"
  proof -
    obtain s' where s': "work_step (crypto.truncate x) s s'" using work_left_moves [OF op r _ _ left] by auto
    then show ?thesis using work_step_effect [OF s' op r] es_worker [OF s'] by fastforce
  qed
  then show ?thesis using ok by (auto simp: engine_ok_def quiet_def)
qed

end
