(* ===== verification/Go_Float64_Sums.thy ===== *)
theory Go_Float64_Sums
  imports Go_Float64
begin

text \<open>
  Sums, strict comparison and the conversion of a \<open>uint64\<close>, for the peer scores of \<open>network.go\<close> and
  the staking figures of \<open>api_server.go\<close>, and the fact used about them: arithmetic on values
  that are integers is exact. Sums are rounded to 53 bits below \<open>2 ^ 53\<close>; the program adds small
  non-negative numbers only.
\<close>

fun f64_add :: "f64 \<Rightarrow> f64 \<Rightarrow> f64" where
  "f64_add (F64 a i) (F64 b j) = f64_ratio (a * 2 ^ j + b * 2 ^ i) (2 ^ (i + j))"
| "f64_add F64_NaN y = F64_NaN"
| "f64_add x F64_NaN = F64_NaN"
| "f64_add _ _ = F64_Inf"

fun f64_gt :: "f64 \<Rightarrow> f64 \<Rightarrow> bool" where
  "f64_gt (F64 a i) (F64 b j) \<longleftrightarrow> b * 2 ^ i < a * 2 ^ j"
| "f64_gt F64_Inf (F64 b j) \<longleftrightarrow> True"
| "f64_gt _ _ \<longleftrightarrow> False"

text \<open>\<open>float64(n)\<close> for a \<open>uint64\<close>: exact below \<open>2 ^ 53\<close>, else rounded to 53 bits.\<close>

definition f64_of_u64 :: "u64 \<Rightarrow> f64" where
  "f64_of_u64 w =
     (let n = unat w in
      if n < 2 ^ 53 then F64 n 0
      else case find (\<lambda>k. n < 2 ^ (53 + k)) [1..<12] of
             Some k \<Rightarrow> F64 (rne n (2 ^ k) * 2 ^ k) 0
           | None \<Rightarrow> F64_Inf)"

section \<open>Exact integers\<close>

definition f64_is :: "f64 \<Rightarrow> nat \<Rightarrow> bool" where
  "f64_is v n \<longleftrightarrow> (case v of F64 m k \<Rightarrow> m = n * 2 ^ k | _ \<Rightarrow> False)"

lemma f64_isE:
  assumes "f64_is v n"
  obtains k where "v = F64 (n * 2 ^ k) k"
  using assms by (auto simp: f64_is_def split: f64.splits)

lemma f64_is_of_nat [simp, intro]: "f64_is (f64_of_nat n) n"
  by (simp add: f64_is_def f64_of_nat_def)

lemma f64_is_u64: "unat w < 2 ^ 53 \<Longrightarrow> f64_is (f64_of_u64 w) (unat w)"
  by (simp add: f64_is_def f64_of_u64_def Let_def)

lemma rne_exact: "0 < b \<Longrightarrow> rne (q * b) b = q"
  by (simp add: rne_def)

lemma f64_ratio_exact:
  assumes "a = n * b" and "0 < b"
  shows "f64_is (f64_ratio a b) n"
proof -
  have "rne (n * b * 2 ^ k) b = n * 2 ^ k" for k
    using rne_exact [OF assms(2), of "n * 2 ^ k"] by (simp add: ac_simps)
  then show ?thesis using assms by (simp add: f64_is_def f64_ratio_def Let_def)
qed

lemma f64_is_add:
  assumes "f64_is x n" and "f64_is y m"
  shows "f64_is (f64_add x y) (n + m)"
proof -
  obtain i j where e: "x = F64 (n * 2 ^ i) i" "y = F64 (m * 2 ^ j) j" using assms by (elim f64_isE) blast
  show ?thesis unfolding e f64_add.simps by (rule f64_ratio_exact) (simp_all add: power_add algebra_simps)
qed

lemma f64_is_mul:
  assumes "f64_is x n" and "f64_is y m"
  shows "f64_is (f64_mul x y) (n * m)"
proof -
  obtain i j where e: "x = F64 (n * 2 ^ i) i" "y = F64 (m * 2 ^ j) j" using assms by (elim f64_isE) blast
  show ?thesis unfolding e f64_mul.simps by (rule f64_ratio_exact) (simp_all add: power_add)
qed

lemma f64_is_div:
  assumes "f64_is x (n * m)" and "f64_is y m" and "0 < m"
  shows "f64_is (f64_div x y) n"
proof -
  obtain i j where e: "x = F64 (n * m * 2 ^ i) i" "y = F64 (m * 2 ^ j) j" using assms(1,2) by (elim f64_isE) blast
  have "f64_is (f64_ratio (n * m * 2 ^ i * 2 ^ j) (m * 2 ^ j * 2 ^ i)) n"
    using assms(3) by (intro f64_ratio_exact) simp_all
  then show ?thesis using assms(3) by (simp add: e)
qed

lemma f64_is_gt:
  assumes "f64_is x n" and "f64_is y m"
  shows "f64_gt x y \<longleftrightarrow> m < n"
proof -
  obtain i j where e: "x = F64 (n * 2 ^ i) i" "y = F64 (m * 2 ^ j) j" using assms by (elim f64_isE) blast
  have "m * 2 ^ j * 2 ^ i < n * 2 ^ i * 2 ^ j \<longleftrightarrow> m * (2 ^ i * 2 ^ j) < n * (2 ^ i * 2 ^ j)"
    by (simp add: algebra_simps)
  then show ?thesis by (simp add: e ac_simps)
qed

end
