(* ===== verification/Network_Manager.thy ===== *)
theory Network_Manager
  imports Dag Go_Channel Go_Float64_Sums
begin

text \<open>
  \<open>network.go\<close>: the peer table, peer scores, gossip and the message queue of the network layer.

  libp2p is a parameter: its connection notifications, stream results and addresses are arguments. Instants are
  integers (nanoseconds). A goroutine's loop is one definition per iteration; a broadcast returns
  the sends it starts. \<open>nm.mu\<close> is modelled call by call. \<open>eventQueue\<close>, \<open>syncQueue\<close>, the connection
  manager and the bandwidth optimizer are created and never used again.
\<close>

section \<open>State\<close>

type_synonym peer_id = string
type_synonym instant = int

record peer_info =
  pi_ID :: peer_id
  pi_Address :: string
  pi_LastSeen :: instant
  pi_Events :: "(event_id, bool) gomap"
  pi_IsValidator :: bool
  pi_Stake :: u64
  pi_Score :: f64
  pi_Reputation :: f64
  pi_Latency :: int
  pi_ConnectionQuality :: f64
  pi_BandwidthUsage :: "64 word"
  pi_MessageCount :: "64 word"
  pi_ValidatorID :: string
  pi_NetworkVersion :: string
  pi_Capabilities :: "string list"

record peer_scoring =
  ps_scores :: "(peer_id, f64) gomap"
  ps_reputation :: "(peer_id, f64) gomap"
  ps_baseScore :: f64
  ps_reputationDecay :: f64
  ps_maxScore :: f64

definition NewPeerScoring :: peer_scoring where
  "NewPeerScoring = \<lparr>ps_scores = [], ps_reputation = [], ps_baseScore = f64_of_nat 100,
     ps_reputationDecay = F64 4278419646001971 52, ps_maxScore = f64_of_nat 1000\<rparr>"

record connection_info =
  ci_PeerID :: peer_id
  ci_ConnectedAt :: instant
  ci_Quality :: f64
  ci_Bandwidth :: "64 word"
  ci_Latency :: int
  ci_ProtocolVersion :: string
  ci_LastPing :: instant
  ci_PingLatency :: int

record connection_manager =
  cn_connections :: "(peer_id, connection_info) gomap"
  cn_maxConnections :: int
  cn_connectionTimeout :: int
  cn_keepAliveInterval :: int

definition go_second :: int where
  "go_second = 1000000000"

definition NewConnectionManager :: connection_manager where
  "NewConnectionManager = \<lparr>cn_connections = [], cn_maxConnections = 50,
     cn_connectionTimeout = 30 * go_second, cn_keepAliveInterval = 60 * go_second\<rparr>"

record bandwidth_optimizer =
  bo_limits :: "(peer_id, 64 word) gomap"
  bo_usage :: "(peer_id, 64 word) gomap"
  bo_globalLimit :: "64 word"
  bo_perPeerLimit :: "64 word"
  bo_priorityLevels :: "(string, 64 word) gomap"

definition NewBandwidthOptimizer :: bandwidth_optimizer where
  "NewBandwidthOptimizer = \<lparr>bo_limits = [], bo_usage = [], bo_globalLimit = 100 * 1024 * 1024,
     bo_perPeerLimit = 10 * 1024 * 1024,
     bo_priorityLevels = [(''consensus'', 50 * 1024 * 1024), (''sync'', 30 * 1024 * 1024),
       (''gossip'', 20 * 1024 * 1024)]\<rparr>"

record event_message =
  em_Type :: string
  em_Event :: "eref option"
  em_EventID :: event_id
  em_From :: peer_id
  em_Timestamp :: instant
  em_Round :: u64
  em_Priority :: int
  em_NetworkVersion :: string
  em_ProtocolVersion :: string

record sync_request =
  sr_From :: peer_id
  sr_FromRound :: u64
  sr_ToRound :: u64
  sr_Events :: "event_id list"
  sr_NetworkVersion :: string
  sr_BlockHeight :: u64

record message_queue =
  mq_highPriority :: "event_message channel"
  mq_normalPriority :: "event_message channel"
  mq_lowPriority :: "event_message channel"
  mq_maxQueueSize :: int
  mq_dropPolicy :: string

definition NewMessageQueue :: message_queue where
  "NewMessageQueue = \<lparr>mq_highPriority = make_chan 100, mq_normalPriority = make_chan 500,
     mq_lowPriority = make_chan 400, mq_maxQueueSize = 1000, mq_dropPolicy = ''oldest''\<rparr>"

record network_stats =
  ns_TotalPeers :: int
  ns_ActivePeers :: int
  ns_Validators :: int
  ns_TotalStake :: u64
  ns_AverageLatency :: int
  ns_BandwidthUsage :: "64 word"
  ns_MessageQueueSize :: int
  ns_ConsensusPeers :: int
  ns_SyncPeers :: int
  ns_BlockHeight :: u64
  ns_NetworkVersion :: string

record network_manager =
  nm_self :: peer_id
  nm_dag :: "dag option"
  nm_peers :: "(peer_id, peer_info) gomap"
  nm_mu :: rwmutex
  nm_cancelled :: bool
  nm_peerScoring :: peer_scoring
  nm_connectionMgr :: connection_manager
  nm_bandwidthOptimizer :: bandwidth_optimizer
  nm_messageQueue :: message_queue
  nm_stats :: network_stats
  nm_maxPeers :: int
  nm_connectionTimeout :: int
  nm_bandwidthLimit :: "64 word"
  nm_messageQueueSize :: int

definition zero_stats :: network_stats where
  "zero_stats = \<lparr>ns_TotalPeers = 0, ns_ActivePeers = 0, ns_Validators = 0, ns_TotalStake = 0,
     ns_AverageLatency = 0, ns_BandwidthUsage = 0, ns_MessageQueueSize = 0, ns_ConsensusPeers = 0,
     ns_SyncPeers = 0, ns_BlockHeight = 0, ns_NetworkVersion = ''''\<rparr>"

text \<open>\<open>host\<close> is what \<open>libp2p.New\<close> returned: an error, or a host with its peer ID.\<close>

definition NewNetworkManager :: "string + peer_id \<Rightarrow> dag option \<Rightarrow> string + network_manager" where
  "NewNetworkManager host d =
     (case host of
        Inl err \<Rightarrow> Inl (''failed to create libp2p host: '' @ err)
      | Inr self \<Rightarrow> Inr \<lparr>nm_self = self, nm_dag = d, nm_peers = [], nm_mu = unlocked, nm_cancelled = False,
          nm_peerScoring = NewPeerScoring, nm_connectionMgr = NewConnectionManager,
          nm_bandwidthOptimizer = NewBandwidthOptimizer, nm_messageQueue = NewMessageQueue,
          nm_stats = zero_stats, nm_maxPeers = 50, nm_connectionTimeout = 30 * go_second,
          nm_bandwidthLimit = 100 * 1024 * 1024, nm_messageQueueSize = 1000\<rparr>)"

definition set_nm_mu :: "rwmutex \<Rightarrow> network_manager \<Rightarrow> network_manager" where
  "set_nm_mu m s = s\<lparr>nm_mu := m\<rparr>"

interpretation nm_mutex: mutex_field nm_mu set_nm_mu
  by unfold_locales (simp_all add: set_nm_mu_def)

section \<open>Connections\<close>

definition NM_handlePeerConnected ::
  "peer_id \<Rightarrow> string \<Rightarrow> instant \<Rightarrow> network_manager \<Rightarrow> (unit \<times> network_manager) outcome" where
  "NM_handlePeerConnected peerID addr now = with_Lock nm_mu set_nm_mu (\<lambda>s.
     let peerInfo = \<lparr>pi_ID = peerID, pi_Address = addr, pi_LastSeen = now, pi_Events = [],
           pi_IsValidator = False, pi_Stake = 0, pi_Score = ps_baseScore (nm_peerScoring s),
           pi_Reputation = f64_of_nat 1, pi_Latency = 0, pi_ConnectionQuality = f64_of_nat 1,
           pi_BandwidthUsage = 0, pi_MessageCount = 0, pi_ValidatorID = '''',
           pi_NetworkVersion = ''1.0.0'', pi_Capabilities = [''events'', ''sync'']\<rparr>;
         peers = go_put peerID peerInfo (nm_peers s)
     in Returns ((), s\<lparr>nm_peers := peers, nm_stats := (nm_stats s)\<lparr>ns_TotalPeers := int (length peers),
          ns_ActivePeers := ns_ActivePeers (nm_stats s) + 1\<rparr>\<rparr>))"

text \<open>The reputation of the entry is lowered just before the entry is deleted.\<close>

definition NM_handlePeerDisconnected :: "peer_id \<Rightarrow> network_manager \<Rightarrow> (unit \<times> network_manager) outcome" where
  "NM_handlePeerDisconnected peerID = with_Lock nm_mu set_nm_mu (\<lambda>s.
     case go_get (nm_peers s) peerID of
       None \<Rightarrow> Returns ((), s)
     | Some peerInfo \<Rightarrow>
         let peerInfo' = peerInfo\<lparr>pi_Reputation :=
               f64_mul (pi_Reputation peerInfo) (ps_reputationDecay (nm_peerScoring s))\<rparr>;
             peers = go_del peerID (go_put peerID peerInfo' (nm_peers s))
         in Returns ((), s\<lparr>nm_peers := peers, nm_stats := (nm_stats s)\<lparr>ns_TotalPeers := int (length peers),
              ns_ActivePeers := ns_ActivePeers (nm_stats s) - 1\<rparr>\<rparr>))"

text \<open>\<open>time.Since\<close>: the difference, saturated to 64 bits.\<close>

definition time_since :: "instant \<Rightarrow> instant \<Rightarrow> int" where
  "time_since now t = max (- (2 ^ 63)) (min (2 ^ 63 - 1) (now - t))"

text \<open>
  \<open>cleanupPoorConnections\<close>: deletion during the loop does not disturb it; the result lists the calls of
  \<open>ClosePeer\<close>, two for an entry that meets both conditions.
\<close>

definition poor_score :: "peer_info \<Rightarrow> bool" where
  "poor_score pr \<longleftrightarrow> f64_gt (f64_of_nat 10) (pi_Score pr)"

definition not_seen :: "instant \<Rightarrow> peer_info \<Rightarrow> bool" where
  "not_seen now pr \<longleftrightarrow> time_since now (pi_LastSeen pr) > 5 * 60 * go_second"

definition NM_cleanupPoorConnections ::
  "instant \<Rightarrow> network_manager \<Rightarrow> (peer_id list \<times> network_manager) outcome" where
  "NM_cleanupPoorConnections now = with_Lock nm_mu set_nm_mu (\<lambda>s.
     Returns (concat (map (\<lambda>(peerID, pr). (if poor_score pr then [peerID] else []) @
                                          (if not_seen now pr then [peerID] else [])) (nm_peers s)),
              s\<lparr>nm_peers := filter (\<lambda>(peerID, pr). \<not> poor_score pr \<and> \<not> not_seen now pr) (nm_peers s)\<rparr>))"

section \<open>Scores and bandwidth\<close>

definition NM_calculatePeerScore :: "instant \<Rightarrow> peer_scoring \<Rightarrow> peer_info \<Rightarrow> f64" where
  "NM_calculatePeerScore now sc pr =
     (let score = ps_baseScore sc;
          score = (if time_since now (pi_LastSeen pr) < 24 * 3600 * go_second then f64_add score (f64_of_nat 50) else score);
          score = (if pi_IsValidator pr then f64_add score (f64_of_nat 100) else score);
          score = f64_add score (f64_div (f64_of_u64 (pi_Stake pr)) (f64_of_nat 1000000));
          score = f64_add score (f64_mul (pi_ConnectionQuality pr) (f64_of_nat 50));
          score = (if pi_Latency pr < 100 * 1000000 then f64_add score (f64_of_nat 30)
                   else if pi_Latency pr < 500 * 1000000 then f64_add score (f64_of_nat 15) else score)
      in if f64_gt score (ps_maxScore sc) then ps_maxScore sc else score)"

definition NM_updatePeerScores :: "instant \<Rightarrow> network_manager \<Rightarrow> (unit \<times> network_manager) outcome" where
  "NM_updatePeerScores now = with_Lock nm_mu set_nm_mu (\<lambda>s.
     let newScore = NM_calculatePeerScore now (nm_peerScoring s) in
     Returns ((), s\<lparr>
       nm_peerScoring := (nm_peerScoring s)\<lparr>ps_scores :=
         fold (\<lambda>(peerID, pr). go_put peerID (newScore pr)) (nm_peers s) (ps_scores (nm_peerScoring s))\<rparr>,
       nm_peers := map (\<lambda>(peerID, pr). (peerID, pr\<lparr>pi_Score := newScore pr\<rparr>)) (nm_peers s)\<rparr>))"

definition NM_updateBandwidthStats :: "network_manager \<Rightarrow> (unit \<times> network_manager) outcome" where
  "NM_updateBandwidthStats = with_Lock nm_mu set_nm_mu (\<lambda>s.
     Returns ((), s\<lparr>nm_stats := (nm_stats s)\<lparr>ns_BandwidthUsage :=
       fold (\<lambda>(_, pr) totalBandwidth. totalBandwidth + pi_BandwidthUsage pr) (nm_peers s) 0\<rparr>\<rparr>))"

section \<open>Gossip\<close>

definition NM_GossipEvent ::
  "instant \<Rightarrow> eref \<Rightarrow> u64 \<Rightarrow> network_manager \<Rightarrow> (string option \<times> network_manager) outcome" where
  "NM_GossipEvent now p round s =
     (let msg = \<lparr>em_Type = ''event'', em_Event = Some p, em_EventID = 0, em_From = nm_self s, em_Timestamp = now,
            em_Round = round, em_Priority = 1, em_NetworkVersion = ''1.0.0'', em_ProtocolVersion = ''1.0.0''\<rparr>
      in and_then (try_send msg (mq_normalPriority (nm_messageQueue s))) (\<lambda>(sent, q).
         Returns (if sent then None else Some ''message queue full'',
                  s\<lparr>nm_messageQueue := (nm_messageQueue s)\<lparr>mq_normalPriority := q\<rparr>\<rparr>)))"

definition NM_broadcastToPeers ::
  "event_message \<Rightarrow> (peer_info \<Rightarrow> bool) \<Rightarrow> network_manager \<Rightarrow>
   ((peer_id \<times> event_message) list \<times> network_manager) outcome" where
  "NM_broadcastToPeers msg wanted = with_RLock nm_mu set_nm_mu (\<lambda>s.
     Returns (map (\<lambda>(peerID, pr). (peerID, msg)) (filter (\<lambda>(peerID, pr). wanted pr) (nm_peers s)), s))"

definition NM_processHighPriorityMessage ::
  "event_message \<Rightarrow> network_manager \<Rightarrow> ((peer_id \<times> event_message) list \<times> network_manager) outcome" where
  "NM_processHighPriorityMessage msg =
     NM_broadcastToPeers msg (\<lambda>pr. pi_IsValidator pr \<and> f64_gt (pi_Score pr) (f64_of_nat 50))"

definition NM_processNormalPriorityMessage ::
  "event_message \<Rightarrow> network_manager \<Rightarrow> ((peer_id \<times> event_message) list \<times> network_manager) outcome" where
  "NM_processNormalPriorityMessage msg = NM_broadcastToPeers msg (\<lambda>pr. f64_gt (pi_Score pr) (f64_of_nat 30))"

definition NM_processLowPriorityMessage ::
  "event_message \<Rightarrow> network_manager \<Rightarrow> ((peer_id \<times> event_message) list \<times> network_manager) outcome" where
  "NM_processLowPriorityMessage msg = NM_broadcastToPeers msg (\<lambda>pr. True)"

text \<open>
  One round of the \<open>select\<close> of \<open>processMessageQueue\<close>. The argument is the case that is taken; a case
  whose channel is empty is not ready. None: the loop ends.
\<close>

datatype queue_case = Case_done | Case_high | Case_normal | Case_low

definition NM_processMessageQueue ::
  "queue_case \<Rightarrow> network_manager \<Rightarrow> ((peer_id \<times> event_message) list option \<times> network_manager) outcome" where
  "NM_processMessageQueue c s =
     (let q = nm_messageQueue s;
          deliver = (\<lambda>process chan put_back.
            and_then (receive chan) (\<lambda>(msg, chan').
            case msg of
              None \<Rightarrow> Panics
            | Some m \<Rightarrow> and_then (process m (s\<lparr>nm_messageQueue := put_back chan'\<rparr>))
                (\<lambda>(sends, s'). Returns (Some sends, s'))))
      in case c of
           Case_done \<Rightarrow> if nm_cancelled s then Returns (None, s) else Blocks
         | Case_high \<Rightarrow> deliver NM_processHighPriorityMessage (mq_highPriority q) (\<lambda>ch. q\<lparr>mq_highPriority := ch\<rparr>)
         | Case_normal \<Rightarrow> deliver NM_processNormalPriorityMessage (mq_normalPriority q) (\<lambda>ch. q\<lparr>mq_normalPriority := ch\<rparr>)
         | Case_low \<Rightarrow> deliver NM_processLowPriorityMessage (mq_lowPriority q) (\<lambda>ch. q\<lparr>mq_lowPriority := ch\<rparr>))"

text \<open>
  The statistics of one peer after a message: \<open>Lock; if exists \{ MessageCount++; LastSeen = now \}; Unlock\<close>.
\<close>

definition count_message :: "peer_id \<Rightarrow> instant \<Rightarrow> network_manager \<Rightarrow> (unit \<times> network_manager) outcome" where
  "count_message peerID now = with_Lock nm_mu set_nm_mu (\<lambda>s.
     Returns ((), case go_get (nm_peers s) peerID of
         None \<Rightarrow> s
       | Some pr \<Rightarrow> s\<lparr>nm_peers := go_put peerID
           (pr\<lparr>pi_MessageCount := pi_MessageCount pr + 1, pi_LastSeen := now\<rparr>) (nm_peers s)\<rparr>))"

text \<open>\<open>delivered\<close>: the stream was opened and the message encoded onto it.\<close>

definition NM_sendEventToPeer ::
  "bool \<Rightarrow> instant \<Rightarrow> peer_id \<Rightarrow> event_message \<Rightarrow> network_manager \<Rightarrow> (unit \<times> network_manager) outcome" where
  "NM_sendEventToPeer delivered now peerID msg s =
     (if \<not> delivered then Returns ((), s) else count_message peerID now s)"

section \<open>Streams\<close>

text \<open>
  \<open>nm.dag.AddEvent\<close>: a method call on a nil DAG dereferences it and panics.
\<close>

definition nm_dag_AddEvent :: "crypto \<Rightarrow> eref \<Rightarrow> network_manager \<Rightarrow> (string option \<times> network_manager) outcome" where
  "nm_dag_AddEvent x p s =
     (case nm_dag s of
        None \<Rightarrow> Panics
      | Some d \<Rightarrow> and_then (DAG_AddEvent x p d) (\<lambda>(err, d'). Returns (err, s\<lparr>nm_dag := Some d'\<rparr>)))"

text \<open>
  The messages that the JSON decoder yields until its first error, each with the time at which its
  processing ends. An error of \<open>AddEvent\<close> is printed only.
\<close>

fun NM_handleEventStream ::
  "crypto \<Rightarrow> peer_id \<Rightarrow> (event_message \<times> instant) list \<Rightarrow> network_manager \<Rightarrow> (unit \<times> network_manager) outcome" where
  "NM_handleEventStream x remote [] s = Returns ((), s)"
| "NM_handleEventStream x remote ((msg, now) # rest) s =
     and_then (if em_Type msg = ''event'' \<and> em_Event msg \<noteq> None then nm_dag_AddEvent x (the (em_Event msg)) s
               else Returns (None, s)) (\<lambda>(_, s1).
     and_then (count_message remote now s1) (\<lambda>(_, s2).
     NM_handleEventStream x remote rest s2))"

text \<open>The sync and consensus streams are read and printed, nothing else.\<close>

definition NM_handleSyncRequest :: "sync_request \<Rightarrow> network_manager \<Rightarrow> network_manager" where
  "NM_handleSyncRequest req s = s"

definition NM_handleSyncStream :: "sync_request option \<Rightarrow> network_manager \<Rightarrow> network_manager" where
  "NM_handleSyncStream decoded s = (case decoded of None \<Rightarrow> s | Some req \<Rightarrow> NM_handleSyncRequest req s)"

definition NM_handleConsensusStream :: "network_manager \<Rightarrow> network_manager" where
  "NM_handleConsensusStream s = s"

section \<open>Calls from outside\<close>

text \<open>What libp2p does with an address, with a parsed address, and with a peer to connect to.\<close>

record ('m, 'i) p2p_host =
  ph_NewMultiaddr :: "string \<Rightarrow> string + 'm"
  ph_AddrInfo :: "'m \<Rightarrow> string + 'i"
  ph_Connect :: "'i \<Rightarrow> string option"

definition NM_ConnectToPeer :: "('m, 'i) p2p_host \<Rightarrow> string \<Rightarrow> string option" where
  "NM_ConnectToPeer h addr =
     (case ph_NewMultiaddr h addr of
        Inl err \<Rightarrow> Some (''invalid multiaddr: '' @ err)
      | Inr maddr \<Rightarrow>
          (case ph_AddrInfo h maddr of
             Inl err \<Rightarrow> Some (''invalid peer info: '' @ err)
           | Inr peerInfo \<Rightarrow> map_option (\<lambda>err. ''failed to connect to peer: '' @ err) (ph_Connect h peerInfo)))"

definition NM_GetPeers :: "network_manager \<Rightarrow> (peer_info list \<times> network_manager) outcome" where
  "NM_GetPeers = with_RLock nm_mu set_nm_mu (\<lambda>s. Returns (map snd (nm_peers s), s))"

text \<open>\<open>GetNetworkStats\<close>: the number of peers, the counters as they are, and every peer's figures.\<close>

record peer_stats =
  po_id :: peer_id
  po_address :: string
  po_last_seen :: instant
  po_is_validator :: bool
  po_stake :: u64
  po_score :: f64
  po_reputation :: f64
  po_latency :: int
  po_connection_quality :: f64
  po_bandwidth_usage :: "64 word"
  po_message_count :: "64 word"

definition peer_stats_of :: "peer_info \<Rightarrow> peer_stats" where
  "peer_stats_of pr = \<lparr>po_id = pi_ID pr, po_address = pi_Address pr, po_last_seen = pi_LastSeen pr,
     po_is_validator = pi_IsValidator pr, po_stake = pi_Stake pr, po_score = pi_Score pr,
     po_reputation = pi_Reputation pr, po_latency = pi_Latency pr,
     po_connection_quality = pi_ConnectionQuality pr, po_bandwidth_usage = pi_BandwidthUsage pr,
     po_message_count = pi_MessageCount pr\<rparr>"

record network_report =
  nr_total_peers :: int
  nr_stats :: network_stats
  nr_peers :: "peer_stats list"

definition NM_GetNetworkStats :: "network_manager \<Rightarrow> (network_report \<times> network_manager) outcome" where
  "NM_GetNetworkStats = with_RLock nm_mu set_nm_mu (\<lambda>s.
     Returns (\<lparr>nr_total_peers = int (length (nm_peers s)), nr_stats = nm_stats s,
       nr_peers = map (peer_stats_of \<circ> snd) (nm_peers s)\<rparr>, s))"

definition transaction_event :: "u64 \<Rightarrow> transaction \<Rightarrow> event" where
  "transaction_event lamport tx = zero_event\<lparr>ev_CreatorID := ''transaction'', ev_Lamport := lamport,
     ev_Transactions := [tx]\<rparr>"

text \<open>\<open>p\<close> is the address the allocation of the new event returns, \<open>lamport\<close> the clock's \<open>uint64\<close> nanoseconds.\<close>

definition NM_AddTransaction ::
  "crypto \<Rightarrow> eref \<Rightarrow> u64 \<Rightarrow> instant \<Rightarrow> transaction \<Rightarrow> network_manager \<Rightarrow> (string option \<times> network_manager) outcome" where
  "NM_AddTransaction x p lamport now tx s =
     (let event = transaction_event lamport tx in
      and_then (Event_CalculateTxHash x event) (\<lambda>h.
      let s1 = s\<lparr>nm_dag := map_option (upd_event p (\<lambda>_. event\<lparr>ev_TxHash := h\<rparr>)) (nm_dag s)\<rparr> in
      and_then (nm_dag_AddEvent x p s1) (\<lambda>(err, s2).
      case err of
        Some e \<Rightarrow> Returns (Some (''failed to add transaction event: '' @ e), s2)
      | None \<Rightarrow>
          and_then (NM_GossipEvent now p 0 s2) (\<lambda>(err', s3).
          Returns (map_option (\<lambda>e. ''failed to gossip transaction: '' @ e) err', s3)))))"

definition NM_GetBalance :: "address \<Rightarrow> network_manager \<Rightarrow> int" where
  "NM_GetBalance a s = 1000000000000000000"

text \<open>\<open>Start\<close> starts five goroutines, of which peer discovery only prints; \<open>Stop\<close> cancels the context.\<close>

datatype nm_task = Peer_discovery | Message_queue_loop | Score_loop | Bandwidth_loop | Connection_loop

definition NM_Start :: "network_manager \<Rightarrow> string option \<times> nm_task list" where
  "NM_Start s = (None, [Peer_discovery, Message_queue_loop, Score_loop, Bandwidth_loop, Connection_loop])"

definition NM_Stop :: "network_manager \<Rightarrow> network_manager" where
  "NM_Stop s = s\<lparr>nm_cancelled := True\<rparr>"

section \<open>Reachable states\<close>

text \<open>
  One completed step of the manager: a notification of libp2p, a tick of a loop, a gossip call, a round of
  the message loop, or the end of a send. Streams are left out of this relation: no handler is
  registered for them anywhere.
\<close>

inductive nm_step :: "network_manager \<Rightarrow> network_manager \<Rightarrow> bool" where
  nm_connected: "NM_handlePeerConnected pid addr now s = Returns ((), s') \<Longrightarrow> nm_step s s'"
| nm_disconnected: "NM_handlePeerDisconnected pid s = Returns ((), s') \<Longrightarrow> nm_step s s'"
| nm_scores: "NM_updatePeerScores now s = Returns ((), s') \<Longrightarrow> nm_step s s'"
| nm_bandwidth: "NM_updateBandwidthStats s = Returns ((), s') \<Longrightarrow> nm_step s s'"
| nm_cleanup: "NM_cleanupPoorConnections now s = Returns (closed, s') \<Longrightarrow> nm_step s s'"
| nm_gossip: "NM_GossipEvent now p round s = Returns (err, s') \<Longrightarrow> nm_step s s'"
| nm_pump: "NM_processMessageQueue c s = Returns (sends, s') \<Longrightarrow> nm_step s s'"
| nm_sent: "NM_sendEventToPeer delivered now pid msg s = Returns ((), s') \<Longrightarrow> nm_step s s'"
| nm_stop: "nm_step s (NM_Stop s)"

inductive_cases nm_stepE: "nm_step s s'"

inductive nm_reachable :: "network_manager \<Rightarrow> bool" where
  nm_new: "NewNetworkManager host d = Inr s \<Longrightarrow> nm_reachable s"
| nm_next: "nm_reachable s \<Longrightarrow> nm_step s s' \<Longrightarrow> nm_reachable s'"

section \<open>The operations over a free mutex\<close>

lemma set_nm_mu_fields [simp]:
  "nm_peers (set_nm_mu m s) = nm_peers s" "nm_stats (set_nm_mu m s) = nm_stats s"
  "nm_peerScoring (set_nm_mu m s) = nm_peerScoring s" "nm_messageQueue (set_nm_mu m s) = nm_messageQueue s"
  by (simp_all add: set_nm_mu_def)

lemma nm_locked:
  assumes "nm_mu s = unlocked" and "nm_mu t = unlocked" and "\<And>m. body (set_nm_mu m s) = Returns (r, set_nm_mu m t)"
  shows "with_Lock nm_mu set_nm_mu body s = Returns (r, t)"
proof -
  have "set_nm_mu unlocked t = t" using assms(2) nm_mutex.set_mu_same [of t] by simp
  then show ?thesis
    using nm_mutex.Lock_returns [of s body r "set_nm_mu (unlocked\<lparr>rw_writer := True\<rparr>) t"] assms(1,3) by simp
qed

lemma nm_read:
  assumes "nm_mu s = unlocked" and "\<And>m. f (set_nm_mu m s) = f s"
  shows "with_RLock nm_mu set_nm_mu (\<lambda>t. Returns (f t, t)) s = Returns (f s, s)"
  by (subst nm_mutex.RLock_pure_read) (simp_all add: assms unlocked_def)

definition fresh_peer :: "peer_id \<Rightarrow> string \<Rightarrow> instant \<Rightarrow> f64 \<Rightarrow> peer_info" where
  "fresh_peer pid addr now score = \<lparr>pi_ID = pid, pi_Address = addr, pi_LastSeen = now, pi_Events = [],
     pi_IsValidator = False, pi_Stake = 0, pi_Score = score, pi_Reputation = f64_of_nat 1, pi_Latency = 0,
     pi_ConnectionQuality = f64_of_nat 1, pi_BandwidthUsage = 0, pi_MessageCount = 0, pi_ValidatorID = '''',
     pi_NetworkVersion = ''1.0.0'', pi_Capabilities = [''events'', ''sync'']\<rparr>"

definition with_peers :: "(peer_id, peer_info) gomap \<Rightarrow> int \<Rightarrow> network_manager \<Rightarrow> network_manager" where
  "with_peers m change s = s\<lparr>nm_peers := m, nm_stats := (nm_stats s)\<lparr>ns_TotalPeers := int (length m),
     ns_ActivePeers := ns_ActivePeers (nm_stats s) + change\<rparr>\<rparr>"

lemma del_put: "go_del k (go_put k v m) = go_del k m"
  by (induction m) (auto simp: AList.delete_eq)

lemma Connected_free:
  "nm_mu s = unlocked \<Longrightarrow> NM_handlePeerConnected pid addr now s =
     Returns ((), with_peers (go_put pid (fresh_peer pid addr now (ps_baseScore (nm_peerScoring s))) (nm_peers s)) 1 s)"
  unfolding NM_handlePeerConnected_def
  by (rule nm_locked) (simp_all add: with_peers_def fresh_peer_def Let_def set_nm_mu_def)

lemma Disconnected_free:
  "nm_mu s = unlocked \<Longrightarrow> NM_handlePeerDisconnected pid s =
     Returns ((), if go_has (nm_peers s) pid then with_peers (go_del pid (nm_peers s)) (- 1) s else s)"
  unfolding NM_handlePeerDisconnected_def
  by (rule nm_locked) (auto simp: with_peers_def Let_def set_nm_mu_def del_put split: option.split)

lemma Cleanup_free:
  "nm_mu s = unlocked \<Longrightarrow> NM_cleanupPoorConnections now s =
     Returns (concat (map (\<lambda>(peerID, pr). (if poor_score pr then [peerID] else []) @
                                          (if not_seen now pr then [peerID] else [])) (nm_peers s)),
              s\<lparr>nm_peers := filter (\<lambda>(peerID, pr). \<not> poor_score pr \<and> \<not> not_seen now pr) (nm_peers s)\<rparr>)"
  unfolding NM_cleanupPoorConnections_def by (rule nm_locked) (simp_all add: set_nm_mu_def)

lemma Scores_free:
  "nm_mu s = unlocked \<Longrightarrow> NM_updatePeerScores now s = Returns ((), s\<lparr>
     nm_peerScoring := (nm_peerScoring s)\<lparr>ps_scores :=
       fold (\<lambda>(peerID, pr). go_put peerID (NM_calculatePeerScore now (nm_peerScoring s) pr)) (nm_peers s)
         (ps_scores (nm_peerScoring s))\<rparr>,
     nm_peers := map (\<lambda>(peerID, pr). (peerID, pr\<lparr>pi_Score := NM_calculatePeerScore now (nm_peerScoring s) pr\<rparr>))
       (nm_peers s)\<rparr>)"
  unfolding NM_updatePeerScores_def by (rule nm_locked) (simp_all add: set_nm_mu_def Let_def)

lemma Bandwidth_free:
  "nm_mu s = unlocked \<Longrightarrow> NM_updateBandwidthStats s = Returns ((), s\<lparr>nm_stats := (nm_stats s)\<lparr>ns_BandwidthUsage :=
     fold (\<lambda>(_, pr) total. total + pi_BandwidthUsage pr) (nm_peers s) 0\<rparr>\<rparr>)"
  unfolding NM_updateBandwidthStats_def by (rule nm_locked) (simp_all add: set_nm_mu_def)

lemma count_message_free:
  "nm_mu s = unlocked \<Longrightarrow> count_message pid now s = Returns ((), case go_get (nm_peers s) pid of
     None \<Rightarrow> s
   | Some pr \<Rightarrow> s\<lparr>nm_peers := go_put pid (pr\<lparr>pi_MessageCount := pi_MessageCount pr + 1, pi_LastSeen := now\<rparr>)
       (nm_peers s)\<rparr>)"
  unfolding count_message_def
  by (rule nm_locked) (auto simp: set_nm_mu_def split: option.split)

lemma Broadcast_free:
  "nm_mu s = unlocked \<Longrightarrow> NM_broadcastToPeers msg wanted s =
     Returns (map (\<lambda>(peerID, pr). (peerID, msg)) (filter (\<lambda>(peerID, pr). wanted pr) (nm_peers s)), s)"
  unfolding NM_broadcastToPeers_def by (rule nm_read) simp_all

section \<open>The invariant\<close>

text \<open>
  No operation ever makes a peer a validator or writes its stake, latency, quality or bandwidth;
  so only three scores occur.
\<close>

definition plain_peer :: "peer_info \<Rightarrow> bool" where
  "plain_peer pr \<longleftrightarrow> \<not> pi_IsValidator pr \<and> pi_Stake pr = 0 \<and> pi_Latency pr = 0 \<and> pi_BandwidthUsage pr = 0 \<and>
     f64_is (pi_ConnectionQuality pr) 1 \<and> (\<exists>n \<in> {100, 180, 230}. f64_is (pi_Score pr) n)"

definition nm_inv :: "network_manager \<Rightarrow> bool" where
  "nm_inv s \<longleftrightarrow> nm_mu s = unlocked \<and> wf_gomap (nm_peers s) \<and> (\<forall>(pid, pr) \<in> set (nm_peers s). plain_peer pr) \<and>
     ps_baseScore (nm_peerScoring s) = f64_of_nat 100 \<and> ps_maxScore (nm_peerScoring s) = f64_of_nat 1000 \<and>
     mq_highPriority (nm_messageQueue s) = make_chan 100 \<and> mq_lowPriority (nm_messageQueue s) = make_chan 400 \<and>
     chan_ok (mq_normalPriority (nm_messageQueue s)) \<and> ch_cap (mq_normalPriority (nm_messageQueue s)) = 500 \<and>
     \<not> ch_closed (mq_normalPriority (nm_messageQueue s)) \<and> int (length (nm_peers s)) \<le> ns_ActivePeers (nm_stats s)"

lemma nm_inv_mu: "nm_inv s \<Longrightarrow> nm_mu s = unlocked"
  by (simp add: nm_inv_def)

lemma plain_score:
  assumes "plain_peer pr" and "ps_baseScore sc = f64_of_nat 100" and "ps_maxScore sc = f64_of_nat 1000"
  shows "f64_is (NM_calculatePeerScore now sc pr)
    (if time_since now (pi_LastSeen pr) < 24 * 3600 * go_second then 230 else 180)"
proof -
  define up where "up = (time_since now (pi_LastSeen pr) < 24 * 3600 * go_second)"
  define a where "a = (if up then f64_add (f64_of_nat 100) (f64_of_nat 50) else f64_of_nat 100)"
  have a: "f64_is a (if up then 150 else 100)"
    using f64_is_add [OF f64_is_of_nat f64_is_of_nat, of 100 50] by (simp add: a_def)
  have stake: "f64_is (f64_div (f64_of_u64 (pi_Stake pr)) (f64_of_nat 1000000)) 0"
    using f64_is_u64 [of 0] f64_is_div [OF _ f64_is_of_nat, of _ 0 1000000] assms(1) by (simp add: plain_peer_def)
  have quality: "f64_is (f64_mul (pi_ConnectionQuality pr) (f64_of_nat 50)) 50"
    using f64_is_mul [OF _ f64_is_of_nat, of "pi_ConnectionQuality pr" 1 50] assms(1) by (simp add: plain_peer_def)
  define b where "b = f64_add (f64_add (f64_add a (f64_div (f64_of_u64 (pi_Stake pr)) (f64_of_nat 1000000)))
    (f64_mul (pi_ConnectionQuality pr) (f64_of_nat 50))) (f64_of_nat 30)"
  have b: "f64_is b (if up then 230 else 180)"
    using f64_is_add [OF f64_is_add [OF f64_is_add [OF a stake] quality] f64_is_of_nat, of 30]
    by (simp add: b_def split: if_splits)
  have "\<not> f64_gt b (f64_of_nat 1000)" using f64_is_gt [OF b f64_is_of_nat] by simp
  moreover have "NM_calculatePeerScore now sc pr = (if f64_gt b (f64_of_nat 1000) then f64_of_nat 1000 else b)"
    using assms by (simp add: NM_calculatePeerScore_def plain_peer_def Let_def up_def a_def b_def)
  ultimately show ?thesis using b by (simp add: up_def)
qed

lemma plain_not_poor:
  assumes "plain_peer pr"
  shows "\<not> poor_score pr" and "f64_gt (pi_Score pr) (f64_of_nat 30)"
proof -
  obtain n where n: "n \<in> {100, 180, 230}" "f64_is (pi_Score pr) n" using assms by (auto simp: plain_peer_def)
  show "\<not> poor_score pr" using n(1) f64_is_gt [OF f64_is_of_nat n(2), of 10] by (auto simp: poor_score_def)
  show "f64_gt (pi_Score pr) (f64_of_nat 30)" using n(1) f64_is_gt [OF n(2) f64_is_of_nat, of 30] by auto
qed

lemma plain_fresh [simp]: "plain_peer (fresh_peer pid addr now (f64_of_nat 100))"
  by (simp add: plain_peer_def fresh_peer_def)

lemma nm_inv_new: "NewNetworkManager host d = Inr s \<Longrightarrow> nm_inv s"
  by (auto simp: NewNetworkManager_def nm_inv_def NewMessageQueue_def NewPeerScoring_def zero_stats_def
      split: sum.splits)

lemma plain_put: "(\<forall>(pid, pr) \<in> set m. plain_peer pr) \<Longrightarrow> plain_peer v \<Longrightarrow> \<forall>(pid, pr) \<in> set (go_put k v m). plain_peer pr"
  using set_go_put_subset [of k v m] by auto

text \<open>Taking a message from the queue.\<close>

lemma Gossip_open:
  assumes "nm_inv s"
  shows "NM_GossipEvent now p round s =
    (let q = nm_messageQueue s; ch = mq_normalPriority q;
         msg = \<lparr>em_Type = ''event'', em_Event = Some p, em_EventID = 0, em_From = nm_self s, em_Timestamp = now,
           em_Round = round, em_Priority = 1, em_NetworkVersion = ''1.0.0'', em_ProtocolVersion = ''1.0.0''\<rparr>
     in if length (ch_items ch) < 500
        then Returns (None, s\<lparr>nm_messageQueue := q\<lparr>mq_normalPriority := ch\<lparr>ch_items := ch_items ch @ [msg]\<rparr>\<rparr>\<rparr>)
        else Returns (Some ''message queue full'', s))"
  using assms by (simp add: NM_GossipEvent_def try_send_def nm_inv_def Let_def)

lemma Process_normal:
  assumes "nm_inv s" and "ch_items (mq_normalPriority (nm_messageQueue s)) = m # ms"
  shows "NM_processMessageQueue Case_normal s =
    Returns (Some (map (\<lambda>(pid, pr). (pid, m)) (nm_peers s)), s\<lparr>nm_messageQueue :=
      (nm_messageQueue s)\<lparr>mq_normalPriority := (mq_normalPriority (nm_messageQueue s))\<lparr>ch_items := ms\<rparr>\<rparr>\<rparr>)"
proof -
  have "filter (\<lambda>(peerID, pr). f64_gt (pi_Score pr) (f64_of_nat 30)) (nm_peers s) = nm_peers s"
    using assms(1) plain_not_poor(2) by (auto simp: nm_inv_def intro!: filter_True)
  moreover have "nm_mu (s\<lparr>nm_messageQueue := q\<rparr>) = unlocked" for q using nm_inv_mu [OF assms(1)] by simp
  ultimately show ?thesis
    using assms(2)
    by (simp add: NM_processMessageQueue_def receive_def NM_processNormalPriorityMessage_def Broadcast_free Let_def)
qed

lemma Process_normal_empty:
  "nm_inv s \<Longrightarrow> ch_items (mq_normalPriority (nm_messageQueue s)) = [] \<Longrightarrow> NM_processMessageQueue Case_normal s = Blocks"
  by (simp add: NM_processMessageQueue_def receive_def nm_inv_def)

lemma Process_other:
  "nm_inv s \<Longrightarrow> NM_processMessageQueue Case_high s = Blocks"
  "nm_inv s \<Longrightarrow> NM_processMessageQueue Case_low s = Blocks"
  by (simp_all add: NM_processMessageQueue_def receive_def nm_inv_def)

lemma Cleanup_plain:
  assumes "nm_inv s"
  shows "NM_cleanupPoorConnections now s =
    Returns (map fst (filter (\<lambda>(pid, pr). not_seen now pr) (nm_peers s)),
             s\<lparr>nm_peers := filter (\<lambda>(pid, pr). \<not> not_seen now pr) (nm_peers s)\<rparr>)"
proof -
  have np: "\<forall>kv \<in> set (nm_peers s). \<not> poor_score (snd kv)"
    using assms plain_not_poor(1) by (auto simp: nm_inv_def)
  have "concat (map (\<lambda>(peerID, pr). (if poor_score pr then [peerID] else []) @
      (if not_seen now pr then [peerID] else [])) m) = map fst (filter (\<lambda>(pid, pr). not_seen now pr) m)"
    if "\<forall>kv \<in> set m. \<not> poor_score (snd kv)" for m :: "(peer_id \<times> peer_info) list"
    using that by (induction m) auto
  moreover have "filter (\<lambda>(peerID, pr). \<not> poor_score pr \<and> \<not> not_seen now pr) (nm_peers s) =
      filter (\<lambda>(pid, pr). \<not> not_seen now pr) (nm_peers s)"
    using np by (intro filter_cong) auto
  ultimately show ?thesis using np by (simp only: Cleanup_free [OF nm_inv_mu [OF assms]])
qed

section \<open>Every step keeps the invariant\<close>

lemma peers_length_del: "wf_gomap m \<Longrightarrow> go_has m k \<Longrightarrow> Suc (length (go_del k m)) = length m"
proof (induction m)
  case (Cons a m)
  obtain k' v where a: "a = (k', v)" by (cases a)
  have wf: "wf_gomap m" and fresh: "k' \<notin> fst ` set m" using Cons.prems(1) by (auto simp: a wf_gomap_def)
  show ?case
  proof (cases "k' = k")
    case True
    then have "go_del k m = m" using fresh by (force simp: AList.delete_eq intro!: filter_True)
    then show ?thesis using True by (simp add: a)
  next
    case False
    then show ?thesis using Cons.IH [OF wf] Cons.prems(2) by (simp add: a)
  qed
qed simp

lemma inv_connected:
  assumes "nm_inv s"
  shows "nm_inv (with_peers (go_put pid (fresh_peer pid addr now (ps_baseScore (nm_peerScoring s))) (nm_peers s)) 1 s)"
  using assms plain_put [of "nm_peers s" "fresh_peer pid addr now (f64_of_nat 100)" pid]
    length_go_put_le [of pid "fresh_peer pid addr now (f64_of_nat 100)" "nm_peers s"]
  by (simp add: nm_inv_def with_peers_def)

lemma inv_disconnected:
  assumes "nm_inv s" and "go_has (nm_peers s) pid"
  shows "nm_inv (with_peers (go_del pid (nm_peers s)) (- 1) s)"
  using assms peers_length_del [of "nm_peers s" pid]
  by (auto simp: nm_inv_def with_peers_def) (auto simp: AList.delete_eq)

lemma inv_peers:
  assumes "nm_inv s" and "wf_gomap m" and "\<forall>(pid, pr) \<in> set m. plain_peer pr" and "length m \<le> length (nm_peers s)"
  shows "nm_inv (s\<lparr>nm_peers := m\<rparr>)"
  using assms by (simp add: nm_inv_def)

lemma inv_scoring:
  assumes "nm_inv s"
  shows "nm_inv (s\<lparr>nm_peerScoring := (nm_peerScoring s)\<lparr>ps_scores := sc\<rparr>, nm_peers :=
    map (\<lambda>(peerID, pr). (peerID, pr\<lparr>pi_Score := NM_calculatePeerScore now (nm_peerScoring s) pr\<rparr>)) (nm_peers s)\<rparr>)"
proof -
  have sc: "ps_baseScore (nm_peerScoring s) = f64_of_nat 100" "ps_maxScore (nm_peerScoring s) = f64_of_nat 1000"
    using assms by (simp_all add: nm_inv_def)
  have "plain_peer (pr\<lparr>pi_Score := NM_calculatePeerScore now (nm_peerScoring s) pr\<rparr>)" if "plain_peer pr" for pr
    using plain_score [OF that sc, of now] that by (auto simp: plain_peer_def split: if_splits)
  moreover have "wf_gomap (map (\<lambda>(peerID, pr). (peerID, pr\<lparr>pi_Score := f pr\<rparr>)) (nm_peers s))" for f
    using assms by (simp add: nm_inv_def wf_gomap_def comp_def case_prod_unfold)
  ultimately show ?thesis using assms by (auto simp: nm_inv_def)
qed

lemma inv_count:
  assumes "nm_inv s" and "go_get (nm_peers s) pid = Some pr"
  shows "nm_inv (s\<lparr>nm_peers := go_put pid (pr\<lparr>pi_MessageCount := n, pi_LastSeen := now\<rparr>) (nm_peers s)\<rparr>)"
proof (rule inv_peers [OF assms(1)])
  show "wf_gomap (go_put pid (pr\<lparr>pi_MessageCount := n, pi_LastSeen := now\<rparr>) (nm_peers s))"
    using assms(1) by (simp add: nm_inv_def)
  have "plain_peer pr" using assms go_get_in [OF assms(2)] by (auto simp: nm_inv_def)
  then show "\<forall>(i, q) \<in> set (go_put pid (pr\<lparr>pi_MessageCount := n, pi_LastSeen := now\<rparr>) (nm_peers s)). plain_peer q"
    using assms(1) by (intro plain_put) (simp_all add: nm_inv_def plain_peer_def)
  show "length (go_put pid (pr\<lparr>pi_MessageCount := n, pi_LastSeen := now\<rparr>) (nm_peers s)) \<le> length (nm_peers s)"
    using assms(2) by (simp add: length_go_put)
qed

lemma inv_queue:
  assumes "nm_inv s" and "length xs \<le> 500"
  shows "nm_inv (s\<lparr>nm_messageQueue := (nm_messageQueue s)\<lparr>mq_normalPriority :=
    (mq_normalPriority (nm_messageQueue s))\<lparr>ch_items := xs\<rparr>\<rparr>\<rparr>)"
  using assms by (simp add: nm_inv_def chan_ok_def)

lemma nm_step_inv:
  assumes "nm_inv s" and "nm_step s s'"
  shows "nm_inv s'"
proof -
  note mu = nm_inv_mu [OF assms(1)]
  show ?thesis using assms(2)
  proof (cases rule: nm_stepE [consumes 1, case_names connected disconnected scores bandwidth cleanup gossip pump sent stop])
    case (connected pid addr now)
    then show ?thesis using inv_connected [OF assms(1)] by (auto simp: Connected_free [OF mu])
  next
    case (disconnected pid)
    then show ?thesis using inv_disconnected [OF assms(1)] assms(1)
      by (auto simp: Disconnected_free [OF mu] split: if_splits)
  next
    case (scores now)
    then show ?thesis using inv_scoring [OF assms(1)] by (auto simp: Scores_free [OF mu])
  next
    case bandwidth
    then show ?thesis using assms(1) by (auto simp: Bandwidth_free [OF mu] nm_inv_def)
  next
    case (cleanup now closed)
    then have "s' = s\<lparr>nm_peers := filter (\<lambda>(pid, pr). \<not> not_seen now pr) (nm_peers s)\<rparr>"
      by (simp add: Cleanup_plain [OF assms(1)])
    moreover have "nm_inv (s\<lparr>nm_peers := filter (\<lambda>(pid, pr). \<not> not_seen now pr) (nm_peers s)\<rparr>)"
      using assms(1) by (intro inv_peers) (auto simp: nm_inv_def wf_gomap_def intro!: distinct_map_filter)
    ultimately show ?thesis by simp
  next
    case (gossip now p round err)
    then show ?thesis using assms(1) inv_queue [OF assms(1)]
      by (auto simp: Gossip_open [OF assms(1)] Let_def split: if_splits)
  next
    case (pump c sends)
    show ?thesis
    proof (cases c)
      case Case_done
      then show ?thesis using pump assms(1) by (auto simp: NM_processMessageQueue_def Let_def split: if_splits)
    next
      case Case_normal
      then obtain m ms where items: "ch_items (mq_normalPriority (nm_messageQueue s)) = m # ms"
        using pump Process_normal_empty [OF assms(1)] by (cases "ch_items (mq_normalPriority (nm_messageQueue s))") auto
      have "length ms \<le> 500" using assms(1) items by (simp add: nm_inv_def chan_ok_def)
      then show ?thesis using pump Case_normal Process_normal [OF assms(1) items] inv_queue [OF assms(1)] by auto
    qed (use pump Process_other [OF assms(1)] in auto)
  next
    case (sent delivered now pid msg)
    then show ?thesis using assms(1) inv_count [OF assms(1)]
      by (auto simp: NM_sendEventToPeer_def count_message_free [OF mu] split: if_splits option.splits)
  next
    case stop
    then show ?thesis using assms(1) by (simp add: NM_Stop_def nm_inv_def)
  qed
qed

lemma nm_reachable_inv: "nm_reachable s \<Longrightarrow> nm_inv s"
proof (induction rule: nm_reachable.induct)
  case (nm_new host d s)
  then show ?case by (rule nm_inv_new)
next
  case (nm_next s s')
  then show ?case by (blast intro: nm_step_inv)
qed

section \<open>Properties\<close>

text \<open>A manager with one connected peer, seen at time 0.\<close>

definition new_manager :: network_manager where
  "new_manager = projr (NewNetworkManager (Inr ''self'') None)"

definition one_peer :: network_manager where
  "one_peer = with_peers [(''peer'', fresh_peer ''peer'' ''/ip4/10.0.0.1'' 0 (f64_of_nat 100))] 1 new_manager"

lemma new_manager_fields [simp]:
  "nm_peers new_manager = []" "nm_mu new_manager = unlocked" "nm_dag new_manager = None"
  "nm_messageQueue new_manager = NewMessageQueue" "nm_peerScoring new_manager = NewPeerScoring"
  "nm_self new_manager = ''self''" "nm_stats new_manager = zero_stats"
  by (simp_all add: new_manager_def NewNetworkManager_def)

lemma new_manager_reachable: "nm_reachable new_manager"
  by (rule nm_new [of "Inr ''self''" None]) (simp add: new_manager_def NewNetworkManager_def)

lemma one_peer_reachable: "nm_reachable one_peer"
proof (rule nm_next [OF new_manager_reachable])
  have "NM_handlePeerConnected ''peer'' ''/ip4/10.0.0.1'' 0 new_manager = Returns ((), one_peer)"
    by (simp add: Connected_free one_peer_def NewPeerScoring_def)
  then show "nm_step new_manager one_peer" by (rule nm_connected)
qed

lemma one_peer_fields [simp]:
  "nm_peers one_peer = [(''peer'', fresh_peer ''peer'' ''/ip4/10.0.0.1'' 0 (f64_of_nat 100))]"
  "nm_messageQueue one_peer = NewMessageQueue" "ns_ActivePeers (nm_stats one_peer) = 1" "nm_self one_peer = ''self''"
  by (simp_all add: one_peer_def with_peers_def zero_stats_def)

text \<open>
  Peers are never told apart. Whatever connections, ticks, messages and sends have happened, no listed
  peer is a validator or has a stake, every score is 100, 180 or 230, and a tick of the score loop sets it to
  230 for a peer seen within a day and 180 otherwise. So the queues of high and of low priority are
  never served, the test for poor scores never holds, and the bandwidth sum is 0.
\<close>

theorem peers_never_told_apart:
  assumes "nm_reachable s" and "(pid, pr) \<in> set (nm_peers s)"
  shows "\<not> pi_IsValidator pr \<and> pi_Stake pr = 0 \<and> (\<exists>n \<in> {100, 180, 230}. f64_is (pi_Score pr) n) \<and>
    f64_is (NM_calculatePeerScore now (nm_peerScoring s) pr)
      (if time_since now (pi_LastSeen pr) < 24 * 3600 * go_second then 230 else 180) \<and>
    \<not> poor_score pr \<and> NM_processMessageQueue Case_high s = Blocks \<and> NM_processMessageQueue Case_low s = Blocks \<and>
    (\<exists>s'. NM_updateBandwidthStats s = Returns ((), s') \<and> ns_BandwidthUsage (nm_stats s') = 0)"
proof -
  note inv = nm_reachable_inv [OF assms(1)]
  have plain: "plain_peer pr" and sc: "ps_baseScore (nm_peerScoring s) = f64_of_nat 100"
    "ps_maxScore (nm_peerScoring s) = f64_of_nat 1000"
    using inv assms(2) by (auto simp: nm_inv_def)
  have "fold (\<lambda>(_, pr) total. total + pi_BandwidthUsage pr) m b = b"
    if "\<forall>(pid, pr) \<in> set m. plain_peer pr" for m :: "(peer_id \<times> peer_info) list" and b
    using that by (induction m arbitrary: b) (auto simp: plain_peer_def)
  then have "\<exists>s'. NM_updateBandwidthStats s = Returns ((), s') \<and> ns_BandwidthUsage (nm_stats s') = 0"
    using inv by (simp add: Bandwidth_free [OF nm_inv_mu [OF inv]] nm_inv_def)
  then show ?thesis
    using plain plain_score [OF plain sc] plain_not_poor(1) [OF plain] Process_other [OF inv] by (simp add: plain_peer_def)
qed

theorem peers_never_told_apart_witness:
  "NM_processMessageQueue Case_high one_peer = Blocks \<and>
   f64_is (NM_calculatePeerScore 0 (nm_peerScoring one_peer) (fresh_peer ''peer'' ''/ip4/10.0.0.1'' 0 (f64_of_nat 100))) 230"
  using peers_never_told_apart [OF one_peer_reachable, of "''peer''" _ 0]
  by (simp add: time_since_def fresh_peer_def go_second_def)

text \<open>Rounds of the message loop that take a normal message, and the sends they start.\<close>

fun drain :: "nat \<Rightarrow> network_manager \<Rightarrow> ((peer_id \<times> event_message) list \<times> network_manager) outcome" where
  "drain 0 s = Returns ([], s)"
| "drain (Suc n) s =
     and_then (NM_processMessageQueue Case_normal s) (\<lambda>(sends, s1).
     and_then (drain n s1) (\<lambda>(rest, s2). Returns (case_option [] id sends @ rest, s2)))"

lemma drain_all:
  "nm_inv s \<Longrightarrow> ch_items (mq_normalPriority (nm_messageQueue s)) = ms \<Longrightarrow>
   drain (length ms) s = Returns (concat (map (\<lambda>m. map (\<lambda>(pid, pr). (pid, m)) (nm_peers s)) ms),
     s\<lparr>nm_messageQueue := (nm_messageQueue s)\<lparr>mq_normalPriority :=
       (mq_normalPriority (nm_messageQueue s))\<lparr>ch_items := []\<rparr>\<rparr>\<rparr>)"
proof (induction ms arbitrary: s)
  case Nil
  then show ?case by simp
next
  case (Cons m ms)
  let ?s1 = "s\<lparr>nm_messageQueue := (nm_messageQueue s)\<lparr>mq_normalPriority :=
    (mq_normalPriority (nm_messageQueue s))\<lparr>ch_items := ms\<rparr>\<rparr>\<rparr>"
  have "length ms \<le> 500" using Cons.prems by (simp add: nm_inv_def chan_ok_def)
  then have "nm_inv ?s1" using Cons.prems(1) by (intro inv_queue) simp_all
  from Cons.IH [OF this] show ?case
    by (simp add: Process_normal [OF Cons.prems])
qed

text \<open>
  C17. Gossip reaches every listed peer, once, in order. \<open>GossipEvent\<close> appends its message to the normal queue
  unless 500 messages wait, in which case it drops the new one and returns an error. When the message loop then
  takes all waiting messages, it starts, for each message in the order of the queue, exactly one send to each
  peer of the table, and leaves the queue empty.
\<close>

theorem gossip_reaches_every_peer:
  assumes "nm_reachable s" and "ch_items (mq_normalPriority (nm_messageQueue s)) = ms"
  shows "length ms \<le> 500 \<and>
    (length ms = 500 \<longrightarrow> NM_GossipEvent now p round s = Returns (Some ''message queue full'', s)) \<and>
    (length ms < 500 \<longrightarrow> (\<exists>m s1 s2. NM_GossipEvent now p round s = Returns (None, s1) \<and>
       em_Event m = Some p \<and> em_Round m = round \<and> em_From m = nm_self s \<and>
       drain (Suc (length ms)) s1 =
         Returns (concat (map (\<lambda>m. map (\<lambda>pid. (pid, m)) (map fst (nm_peers s))) (ms @ [m])), s2) \<and>
       distinct (map fst (nm_peers s)) \<and> ch_items (mq_normalPriority (nm_messageQueue s2)) = []))"
proof -
  note inv = nm_reachable_inv [OF assms(1)]
  have len: "length ms \<le> 500" using inv assms(2) by (simp add: nm_inv_def chan_ok_def)
  have dist: "distinct (map fst (nm_peers s))" using inv by (simp add: nm_inv_def wf_gomap_def)
  define m where "m = \<lparr>em_Type = ''event'', em_Event = Some p, em_EventID = 0, em_From = nm_self s, em_Timestamp = now,
    em_Round = round, em_Priority = 1, em_NetworkVersion = ''1.0.0'', em_ProtocolVersion = ''1.0.0''\<rparr>"
  let ?s1 = "s\<lparr>nm_messageQueue := (nm_messageQueue s)\<lparr>mq_normalPriority :=
    (mq_normalPriority (nm_messageQueue s))\<lparr>ch_items := ms @ [m]\<rparr>\<rparr>\<rparr>"
  have "\<exists>m s1 s2. NM_GossipEvent now p round s = Returns (None, s1) \<and>
       em_Event m = Some p \<and> em_Round m = round \<and> em_From m = nm_self s \<and>
       drain (Suc (length ms)) s1 =
         Returns (concat (map (\<lambda>m. map (\<lambda>pid. (pid, m)) (map fst (nm_peers s))) (ms @ [m])), s2) \<and>
       ch_items (mq_normalPriority (nm_messageQueue s2)) = []" if room: "length ms < 500"
  proof -
    have "NM_GossipEvent now p round s = Returns (None, ?s1)"
      using room by (simp add: Gossip_open [OF inv] assms(2) Let_def m_def)
    moreover have "nm_inv ?s1" using room by (intro inv_queue [OF inv]) simp
    from drain_all [OF this] have "\<exists>s2. drain (Suc (length ms)) ?s1 =
        Returns (concat (map (\<lambda>m. map (\<lambda>pid. (pid, m)) (map fst (nm_peers s))) (ms @ [m])), s2) \<and>
        ch_items (mq_normalPriority (nm_messageQueue s2)) = []"
      by (simp add: comp_def case_prod_unfold del: drain.simps)
    moreover have "em_Event m = Some p" "em_Round m = round" "em_From m = nm_self s" by (simp_all add: m_def)
    ultimately show ?thesis by blast
  qed
  then show ?thesis using len dist by (auto simp: Gossip_open [OF inv] assms(2) Let_def simp del: drain.simps)
qed

theorem gossip_reaches_every_peer_witness:
  "\<exists>m s1 s2. NM_GossipEvent 5 11 3 one_peer = Returns (None, s1) \<and> em_Event m = Some 11 \<and>
     drain 1 s1 = Returns ([(''peer'', m)], s2)"
  using gossip_reaches_every_peer [OF one_peer_reachable refl, of 5 11 3]
  by (auto simp: NewMessageQueue_def simp del: drain.simps)

text \<open>
  C29. What the cleanup removes. In every reachable state a tick of \<open>cleanupPoorConnections\<close> removes, and closes,
  exactly the peers not seen for more than five minutes. \<open>ActivePeers\<close> is not lowered, nor does the
  notification of the disconnection lower it, because the peer is no longer listed: the counter is always
  at least the number of peers and, after a cleanup that removed some, stays above it.
\<close>

theorem cleanup_removes_unseen:
  assumes "nm_reachable s"
  shows "\<exists>closed s'. NM_cleanupPoorConnections now s = Returns (closed, s') \<and>
    closed = map fst (filter (\<lambda>(pid, pr). not_seen now pr) (nm_peers s)) \<and>
    nm_peers s' = filter (\<lambda>(pid, pr). \<not> not_seen now pr) (nm_peers s) \<and>
    (\<forall>pid \<in> set closed. NM_handlePeerDisconnected pid s' = Returns ((), s')) \<and>
    int (length (nm_peers s')) + int (length closed) \<le> ns_ActivePeers (nm_stats s') \<and>
    ns_ActivePeers (nm_stats s') = ns_ActivePeers (nm_stats s)"
proof -
  note inv = nm_reachable_inv [OF assms]
  let ?gone = "map fst (filter (\<lambda>(pid, pr). not_seen now pr) (nm_peers s))"
  let ?s' = "s\<lparr>nm_peers := filter (\<lambda>(pid, pr). \<not> not_seen now pr) (nm_peers s)\<rparr>"
  have wf: "wf_gomap (nm_peers s)" and mu: "nm_mu ?s' = unlocked" using inv by (simp_all add: nm_inv_def)
  have "go_get (nm_peers ?s') pid = None" if pid: "pid \<in> set ?gone" for pid
  proof -
    obtain pr where pr: "(pid, pr) \<in> set (nm_peers s)" "not_seen now pr" using pid by auto
    then have "q = pr" if "(pid, q) \<in> set (nm_peers s)" for q
      using that go_get_iff [OF wf] by (metis option.inject)
    then show ?thesis using pr(2) by (auto simp: map_of_eq_None_iff)
  qed
  then have "\<forall>pid \<in> set ?gone. NM_handlePeerDisconnected pid ?s' = Returns ((), ?s')"
    by (simp add: Disconnected_free [OF mu])
  moreover have "length (filter (\<lambda>(pid, pr). \<not> not_seen now pr) (nm_peers s)) + length ?gone = length (nm_peers s)"
    using sum_length_filter_compl [of "\<lambda>(pid, pr). not_seen now pr" "nm_peers s"] by (simp add: case_prod_unfold)
  moreover have "int (length (nm_peers s)) \<le> ns_ActivePeers (nm_stats s)" using inv by (simp add: nm_inv_def)
  ultimately show ?thesis
    by (intro exI [of _ ?gone] exI [of _ ?s'] conjI Cleanup_plain [OF inv]) simp_all
qed

theorem cleanup_removes_unseen_witness:
  "\<exists>s'. NM_cleanupPoorConnections (10 * 60 * go_second) one_peer = Returns ([''peer''], s') \<and>
     nm_peers s' = [] \<and> ns_ActivePeers (nm_stats s') = 1"
  using cleanup_removes_unseen [OF one_peer_reachable, of "10 * 60 * go_second"]
  by (simp add: not_seen_def time_since_def fresh_peer_def go_second_def) blast

text \<open>
  No transaction is ever gossiped by \<open>AddTransaction\<close>. Without a DAG (the program creates the manager with
  nil) the call panics; with one whose mutex is free it blocks for ever in \<open>DAG.AddEvent\<close>, or returns the
  error for an event that is already stored. It never reaches the message queue. The event stream handler
  panics or blocks alike at the first new event.
\<close>

theorem add_transaction_never_succeeds:
  assumes "\<And>d. nm_dag s = Some d \<Longrightarrow> d_mu d = unlocked" and "rlp_txs x [tx] \<noteq> None"
  shows "(nm_dag s = None \<longrightarrow> NM_AddTransaction x p lamport now tx s = Panics) \<and>
    (nm_dag s \<noteq> None \<longrightarrow> NM_AddTransaction x p lamport now tx s = Blocks \<or>
       (\<exists>s'. NM_AddTransaction x p lamport now tx s =
          Returns (Some ''failed to add transaction event: event already exists'', s') \<and>
          nm_messageQueue s' = nm_messageQueue s)) \<and>
    (nm_dag s = None \<longrightarrow> em_Type m = ''event'' \<longrightarrow> em_Event m \<noteq> None \<longrightarrow>
       NM_handleEventStream x remote ((m, t) # rest) s = Panics)"
proof -
  obtain h where h: "Event_CalculateTxHash x (transaction_event lamport tx) = Returns h"
    using assms(2) by (auto simp: Event_CalculateTxHash_def transaction_event_def)
  show ?thesis
  proof (cases "nm_dag s")
    case None
    then show ?thesis by (auto simp: NM_AddTransaction_def h Let_def nm_dag_AddEvent_def)
  next
    case (Some d)
    let ?d = "upd_event p (\<lambda>_. (transaction_event lamport tx)\<lparr>ev_TxHash := h\<rparr>) d"
    have "d_mu ?d = unlocked" using assms(1) [OF Some] by (simp add: upd_event_def)
    from DAG_AddEvent_free [OF this, of x p] show ?thesis using Some
      by (simp add: NM_AddTransaction_def h Let_def nm_dag_AddEvent_def split: if_splits)
  qed
qed

definition plain_tx :: transaction where
  "plain_tx = \<lparr>tx_Hash = 1, tx_Gas = 21000, tx_GasPrice = 1, tx_Value = 5, tx_To = Some 7, tx_Data = [],
     tx_Sender = Some 8\<rparr>"

theorem add_transaction_never_succeeds_witness:
  "NM_AddTransaction sample_crypto 11 7 7 plain_tx one_peer = Panics"
  using add_transaction_never_succeeds [of one_peer sample_crypto plain_tx 11 7 7]
  by (simp add: sample_crypto_def one_peer_def with_peers_def)

end
