(* ===== verification/State_Queries.thy ===== *)
theory State_Queries
  imports Sinar_Token
begin

text \<open>
  \<open>state.go\<close>: the queries and the price of the native token, and the two stubs. The maps that the code
  builds for display are records here; amounts are integers (the code prints them in decimal) and
  the runtime's memory figures of \<open>GetStateStats\<close> are left out.
\<close>

section \<open>Tables and statistics\<close>

definition SD_GetAllValidators :: "state_db \<Rightarrow> ((address, validator_state) gomap \<times> state_db) outcome" where
  "SD_GetAllValidators = with_RLock sd_mu set_sd_mu (\<lambda>s.
     Returns (fold (\<lambda>(a, v). go_put a v) (sd_validators s) [], s))"

definition SD_GetAllProposals :: "state_db \<Rightarrow> ((u64, proposal) gomap \<times> state_db) outcome" where
  "SD_GetAllProposals = with_RLock sd_mu set_sd_mu (\<lambda>s.
     Returns (fold (\<lambda>(i, p). go_put i p) (sd_proposals s) [], s))"

record state_stats =
  st_total_accounts :: nat
  st_total_contracts :: nat
  st_total_validators :: nat
  st_active_validators :: nat
  st_total_stake :: int
  st_total_proposals :: nat
  st_executed_proposals :: nat

definition SD_GetStateStats :: "state_db \<Rightarrow> (state_stats \<times> state_db) outcome" where
  "SD_GetStateStats = with_RLock sd_mu set_sd_mu (\<lambda>s.
     let validators = map snd (sd_validators s) in
     Returns (\<lparr>st_total_accounts = length (sd_accounts s), st_total_contracts = length (sd_contracts s),
       st_total_validators = length (sd_validators s), st_active_validators = count_if vt_IsActive validators,
       st_total_stake = fold (\<lambda>v total. if vt_IsActive v then total + vt_Stake v else total) validators 0,
       st_total_proposals = length (sd_proposals s),
       st_executed_proposals = count_if pr_Executed (map snd (sd_proposals s))\<rparr>, s))"

section \<open>The token\<close>

definition SN_GetSINARInfo :: "state_db \<Rightarrow> sinar_token" where
  "SN_GetSINARInfo s = sd_sinarToken s"

definition SN_GetSINARPrice :: "state_db \<Rightarrow> big_float" where
  "SN_GetSINARPrice s = tk_Price (sd_sinarToken s)"

definition SN_SetSINARPrice :: "big_float \<Rightarrow> state_db \<Rightarrow> state_db" where
  "SN_SetSINARPrice price s = s\<lparr>sd_sinarToken := (sd_sinarToken s)\<lparr>tk_Price := price\<rparr>\<rparr>"

record distribution_part =
  dp_wallets :: nat
  dp_percentage :: int
  dp_amount :: int

record distribution_info =
  df_team :: distribution_part
  df_ecosystem :: distribution_part
  df_validator :: distribution_part
  df_liquidity :: distribution_part
  df_community :: distribution_part
  df_reserve :: distribution_part

definition distribution_part_of :: "address list \<Rightarrow> int \<Rightarrow> distribution_part" where
  "distribution_part_of wallets percentage =
     \<lparr>dp_wallets = length wallets, dp_percentage = percentage, dp_amount = SINAR_TOTAL_SUPPLY * percentage div 100\<rparr>"

definition SN_GetDistributionInfo :: distribution_info where
  "SN_GetDistributionInfo = (let d = NewInitialDistribution in
     \<lparr>df_team = distribution_part_of (di_TeamWallets d) 15,
      df_ecosystem = distribution_part_of (di_EcosystemWallets d) 25,
      df_validator = distribution_part_of (di_ValidatorWallets d) 20,
      df_liquidity = distribution_part_of (di_LiquidityWallets d) 10,
      df_community = distribution_part_of (di_CommunityWallets d) 20,
      df_reserve = distribution_part_of (di_ReserveWallets d) 10\<rparr>)"

section \<open>Stubs\<close>

definition SD_UpdateFinalizedEvent :: "event_id \<Rightarrow> u64 \<Rightarrow> state_db \<Rightarrow> (unit \<times> state_db) outcome" where
  "SD_UpdateFinalizedEvent i r = with_Lock sd_mu set_sd_mu (\<lambda>s. Returns ((), s))"

definition SD_GetValidatorStake :: "string \<Rightarrow> state_db \<Rightarrow> (int \<times> state_db) outcome" where
  "SD_GetValidatorStake validatorID = with_RLock sd_mu set_sd_mu (\<lambda>s. Returns (1000000, s))"

section \<open>Lemmas\<close>

lemma sd_read:
  assumes "sd_mu s = unlocked" and "\<And>m. f (set_sd_mu m s) = f s"
  shows "with_RLock sd_mu set_sd_mu (\<lambda>t. Returns (f t, t)) s = Returns (f s, s)"
  by (subst sd_mutex.RLock_pure_read) (simp_all add: assms unlocked_def)

text \<open>Copying a map entry by entry gives the same map.\<close>

lemma copy_map: "wf_gomap m \<Longrightarrow> go_get (fold (\<lambda>(k, v). go_put k v) m acc) = go_get acc ++ go_get m"
proof (induction m arbitrary: acc)
  case Nil
  then show ?case by simp
next
  case (Cons kv m)
  obtain k v where kv: "kv = (k, v)" by (cases kv)
  have wf: "wf_gomap m" and fresh: "go_get m k = None"
    using Cons.prems by (auto simp: kv wf_gomap_def map_of_eq_None_iff)
  show ?case using fresh by (auto simp: kv Cons.IH [OF wf] fun_eq_iff map_add_def split: option.split)
qed

text \<open>The amounts announced are the amounts paid, group by group, and together the whole supply.\<close>

lemma paid_as_announced:
  "sum_list (map snd (shares_of (di_TeamWallets NewInitialDistribution) (SINAR_TOTAL_SUPPLY * 15 div 100))) =
     dp_amount (df_team SN_GetDistributionInfo)"
  "sum_list (map snd (shares_of (di_LiquidityWallets NewInitialDistribution) (SINAR_TOTAL_SUPPLY * 10 div 100))) =
     dp_amount (df_liquidity SN_GetDistributionInfo)"
  by (simp_all add: shares_of_sum wallets_nonempty SN_GetDistributionInfo_def distribution_part_of_def Let_def)

lemma announced_is_supply:
  "(\<Sum>part \<leftarrow> [df_team, df_ecosystem, df_validator, df_liquidity, df_community, df_reserve].
     dp_amount (part SN_GetDistributionInfo)) = SINAR_TOTAL_SUPPLY"
  by (simp add: SN_GetDistributionInfo_def distribution_part_of_def Let_def SINAR_TOTAL_SUPPLY_def)

lemma price_round_trip [simp]: "SN_GetSINARPrice (SN_SetSINARPrice price s) = price"
  by (simp add: SN_GetSINARPrice_def SN_SetSINARPrice_def)

text \<open>
  On every reachable \<open>StateDB\<close> the statistics report no validator and no stake, the list of
  validators is empty, and the stub for one validator's stake still answers a million.
\<close>

theorem reachable_statistics:
  assumes "sd_reachable s"
  shows "\<exists>st. SD_GetStateStats s = Returns (st, s) \<and> st_total_validators st = 0 \<and> st_active_validators st = 0 \<and>
    st_total_stake st = 0 \<and> st_total_accounts st = length (sd_accounts s) \<and>
    SD_GetAllValidators s = Returns ([], s) \<and> SD_GetValidatorStake v s = Returns (1000000, s)"
proof -
  have free: "sd_mu s = unlocked" and nv: "sd_validators s = []"
    using sd_reachable_no_validators [OF assms] by (auto simp: no_validators_def)
  show ?thesis
    unfolding SD_GetStateStats_def SD_GetAllValidators_def SD_GetValidatorStake_def Let_def
    by (subst (1 2 3) sd_read [OF free]) (simp_all add: nv)
qed

end
