(* ===== verification/Go_Strconv.thy ===== *)
theory Go_Strconv
  imports Go_Format Go_Float64_Sums
begin

text \<open>
  The conversions between numbers and decimal text that \<open>api_server.go\<close> uses:
  \<open>strconv.ParseUint(s, 10, 64)\<close>, \<open>big.Int.SetString(s, 10)\<close> and \<open>big.Int.String\<close>, the conversion
  \<open>big.NewInt(int64(u))\<close>, and the verb \<open>%.2f\<close>. Each parser is the inverse of the printer on the
  numbers it accepts.
\<close>

section \<open>Parsing\<close>

definition digit_value :: "char \<Rightarrow> nat option" where
  "digit_value c = (let k = of_char c :: nat in if 48 \<le> k \<and> k \<le> 57 then Some (k - 48) else None)"

fun parse_digits :: "nat \<Rightarrow> string \<Rightarrow> nat option" where
  "parse_digits n [] = Some n"
| "parse_digits n (c # cs) =
     (case digit_value c of None \<Rightarrow> None | Some d \<Rightarrow> parse_digits (10 * n + d) cs)"

definition parse_nat :: "string \<Rightarrow> nat option" where
  "parse_nat s = (if s = [] then None else parse_digits 0 s)"

definition ParseUint :: "string \<Rightarrow> u64 option" where
  "ParseUint s = (case parse_nat s of
     None \<Rightarrow> None | Some n \<Rightarrow> if n < 2 ^ 64 then Some (of_nat n) else None)"

definition SetString :: "string \<Rightarrow> int option" where
  "SetString s =
     (case s of
        c # cs \<Rightarrow> if c = CHR ''-'' then map_option (\<lambda>n. - int n) (parse_nat cs)
                  else if c = CHR ''+'' then map_option int (parse_nat cs)
                  else map_option int (parse_nat s)
      | [] \<Rightarrow> None)"

section \<open>Printing\<close>

definition int_String :: "int \<Rightarrow> string" where
  "int_String i = (if i < 0 then CHR ''-'' # dec (nat (- i)) else dec (nat i))"

text \<open>\<open>big.NewInt(int64(u))\<close>: the word is read as a signed one.\<close>

definition NewInt_int64 :: "u64 \<Rightarrow> int" where
  "NewInt_int64 u = sint u"

text \<open>
  A product of large values, rounded once to 53 bits, and \<open>%.2f\<close>: the exact decimal rounded to two places, ties
  to even.
\<close>

definition f64_ratio_any :: "nat \<Rightarrow> nat \<Rightarrow> f64" where
  "f64_ratio_any a b =
     (if a < 2 ^ 53 * b then f64_ratio a b
      else case find (\<lambda>j. a < 2 ^ (53 + j) * b) [1..<64] of
             Some j \<Rightarrow> F64 (rne a (b * 2 ^ j) * 2 ^ j) 0
           | None \<Rightarrow> F64_Inf)"

fun f64_mul_any :: "f64 \<Rightarrow> f64 \<Rightarrow> f64" where
  "f64_mul_any (F64 a i) (F64 b j) = f64_ratio_any (a * b) (2 ^ (i + j))"
| "f64_mul_any x y = f64_mul x y"

fun f64_fixed2 :: "f64 \<Rightarrow> string" where
  "f64_fixed2 (F64 m k) =
     (let n = rne (m * 100) (2 ^ k) in dec (n div 100) @ ''.'' @ dec (n mod 100 div 10) @ dec (n mod 10))"
| "f64_fixed2 F64_Inf = ''+Inf''"
| "f64_fixed2 F64_NaN = ''NaN''"

section \<open>Round trips\<close>

lemma digit_value_hex_digit: "n < 10 \<Longrightarrow> digit_value (hex_digit n) = Some n"
  by (simp add: digit_value_def hex_digit_def)

lemma parse_digits_append:
  "parse_digits n (xs @ ys) = Option.bind (parse_digits n xs) (\<lambda>m. parse_digits m ys)"
  by (induction xs arbitrary: n) (auto split: option.split)

lemma parse_digits_dec: "parse_digits 0 (dec n) = Some n"
proof (induction n rule: dec.induct)
  case (1 n)
  show ?case
  proof (cases "n < 10")
    case True
    then show ?thesis by (simp add: dec.simps [of n] digit_value_hex_digit)
  next
    case False
    then have "parse_digits 0 (dec (n div 10)) = Some (n div 10)" using "1.IH" by simp
    then show ?thesis using False
      by (simp add: dec.simps [of n] parse_digits_append digit_value_hex_digit)
  qed
qed

lemma parse_nat_dec: "parse_nat (dec n) = Some n"
  by (simp add: parse_nat_def dec_nonempty parse_digits_dec)

lemma ParseUint_dec: "ParseUint (dec (unat u)) = Some u"
  using unsigned_less [of u, where ?'a = nat] by (simp add: ParseUint_def parse_nat_dec)

lemma ParseUint_overflow: "2 ^ 64 \<le> n \<Longrightarrow> ParseUint (dec n) = None"
  by (simp add: ParseUint_def parse_nat_dec)

lemma dec_first: "\<exists>d cs. d < 10 \<and> dec n = hex_digit d # cs"
proof (induction n rule: dec.induct)
  case (1 n)
  show ?case
  proof (cases "n < 10")
    case True
    then show ?thesis by (auto simp: dec.simps [of n])
  next
    case False
    then show ?thesis using "1.IH" by (auto simp: dec.simps [of n])
  qed
qed

lemma digit_not_sign: "d < 10 \<Longrightarrow> hex_digit d \<noteq> CHR ''-'' \<and> hex_digit d \<noteq> CHR ''+''"
proof -
  assume "d < 10"
  then have "of_char (hex_digit d) = 48 + d" by (simp add: hex_digit_def)
  then have "of_char (hex_digit d) \<noteq> (of_char (CHR ''-'') :: nat)" "of_char (hex_digit d) \<noteq> (of_char (CHR ''+'') :: nat)"
    by simp_all
  then show ?thesis by metis
qed

lemma SetString_String: "SetString (int_String i) = Some i"
proof (cases "i < 0")
  case True
  then show ?thesis by (simp add: SetString_def int_String_def parse_nat_dec)
next
  case False
  obtain d cs where d: "d < 10" "dec (nat i) = hex_digit d # cs" using dec_first by blast
  then have "SetString (dec (nat i)) = map_option int (parse_nat (dec (nat i)))"
    using digit_not_sign by (simp add: SetString_def)
  then show ?thesis using False by (simp add: int_String_def parse_nat_dec)
qed

text \<open>From \<open>2 ^ 63\<close> on, the amount that reaches the token is negative.\<close>

lemma NewInt_int64_cases:
  "NewInt_int64 u = (if unat u < 2 ^ 63 then int (unat u) else int (unat u) - 2 ^ 64)"
proof -
  obtain n where n: "n = unat u" by simp
  have lt: "n < 2 ^ 64" unfolding n using unsigned_less [of u, where ?'a = nat] by simp
  have "sint u = take_bit (Suc 63) (int n + 2 ^ 63) - 2 ^ 63"
    by (simp only: n sint_uint uint_nat signed_take_bit_eq_take_bit_shift) simp
  also have "\<dots> = (int n + 2 ^ 63) mod 2 ^ 64 - 2 ^ 63" by (simp add: take_bit_eq_mod)
  also have "\<dots> = (if n < 2 ^ 63 then int n else int n - 2 ^ 64)"
  proof (cases "n < 2 ^ 63")
    case True
    then have "(int n + 2 ^ 63) mod 2 ^ 64 = int n + 2 ^ 63" by (intro mod_pos_pos_trivial) simp_all
    then show ?thesis using True by simp
  next
    case False
    then have "(int n + 2 ^ 63 - 2 ^ 64) mod 2 ^ 64 = int n + 2 ^ 63 - 2 ^ 64"
      using lt by (intro mod_pos_pos_trivial) simp_all
    moreover have "(int n + 2 ^ 63 - 2 ^ 64) mod 2 ^ 64 = (int n + 2 ^ 63) mod 2 ^ 64" by (rule minus_mod_self2)
    ultimately have "(int n + 2 ^ 63) mod 2 ^ 64 = int n + 2 ^ 63 - 2 ^ 64" by (simp only:)
    then show ?thesis using False by simp
  qed
  finally show ?thesis by (simp add: NewInt_int64_def n)
qed

end
