(* ===== verification/Api_Server.thy ===== *)
theory Api_Server
  imports Consensus_Engine Network_Manager State_Queries Token_Spec Go_Strconv
begin

text \<open>
  \<open>api_server.go\<close>: the HTTP interface. The middleware (CORS and the rate limiter), the handlers that change
  the chain's state, the queries and the placeholders, over the engine, the network manager and the
  \<open>StateDB\<close> that the server points to.

  The router, the JSON coder and the socket are libraries: a handler gets its decoded request (None: the body does
  not decode) and returns a response; of the encoder, \<open>json_encodable\<close> says which answers it refuses. \<open>h2a\<close> is \<open>common.HexToAddress\<close>, \<open>a2h\<close> \<open>Address.Hex\<close>; \<open>key\<close> is the
  key the generator yields, \<open>p2a\<close> \<open>crypto.PubkeyToAddress\<close>, \<open>v\<close> the address of a new validator
  object, \<open>now\<close> the clock.
\<close>

section \<open>State and responses\<close>

record 'st api_server =
  api_consensusEngine :: "'st consensus_engine"
  api_networkManager :: network_manager
  api_stateDB :: state_db
  api_port :: string
  api_version :: string
  api_mu :: rwmutex \<comment> \<open>of the rate limiter\<close>
  api_requests :: "(string, instant list) gomap"

definition NewAPIServer ::
  "'st consensus_engine \<Rightarrow> network_manager \<Rightarrow> state_db \<Rightarrow> string \<Rightarrow> 'st api_server" where
  "NewAPIServer consensus network state port =
     \<lparr>api_consensusEngine = consensus, api_networkManager = network, api_stateDB = state, api_port = port,
      api_version = ''1.0.0'', api_mu = unlocked, api_requests = []\<rparr>"

record validator_info =
  vi_Address :: string
  vi_Stake :: string
  vi_IsActive :: bool
  vi_Commission :: u64
  vi_Rewards :: string
  vi_Score :: f64

record staking_info =
  si_TotalStake :: string
  si_ActiveValidators :: nat
  si_MinStake :: string
  si_YourStake :: string
  si_APY :: string

record network_info =
  ni_NetworkName :: string
  ni_Consensus :: string
  ni_LatestBlock :: u64
  ni_BlockTime :: string
  ni_TotalValidators :: nat
  ni_TotalStake :: string
  ni_GasPrice :: string
  ni_ChainID :: string

record transaction_info =
  ti_Hash :: string
  ti_From :: string
  ti_To :: string
  ti_Value :: string
  ti_GasUsed :: u64
  ti_GasPrice :: string
  ti_Status :: string
  ti_BlockNum :: u64
  ti_Timestamp :: u64

record block_info =
  bi_Number :: u64
  bi_Hash :: string
  bi_ParentHash :: string
  bi_Timestamp :: u64
  bi_GasUsed :: u64
  bi_GasLimit :: u64
  bi_Transactions :: "string list"
  bi_Validator :: string

datatype field = Text string | Flag bool | Time instant | Price big_float

datatype api_data =
  No_data
| Fields "(string \<times> field) list"
| Network_data network_info
| Validator_data "validator_info list"
| Staking_data staking_info
| Block_data block_info
| Blocks_data "block_info list"
| Transaction_data transaction_info
| Transactions_data "transaction_info list"
| Peers_data "peer_info list"
| Net_stats_data network_report
| Token_data sinar_token
| Distribution_data distribution_info

text \<open>\<open>APIResponse\<close>, and what the client gets: the status and the body, which is None when nothing was written.\<close>

record api_message =
  am_success :: bool
  am_data :: api_data
  am_error :: string
  am_version :: string

record api_response =
  ar_status :: nat
  ar_body :: "api_message option"

text \<open>
  \<open>json.NewEncoder(w).Encode(response)\<close> writes the whole value or, when a part of it has a type that JSON cannot
  show, nothing; both callers drop its error. The one such part is the field \<open>Events\<close> of \<open>PeerInfo\<close>, a map whose
  keys are byte arrays without a text form: \<open>encoding/json\<close> refuses the type, even for an empty map. So a list
  of peers can be encoded only when it is empty.
\<close>

fun json_encodable :: "api_data \<Rightarrow> bool" where
  "json_encodable (Peers_data peers) = (peers = [])"
| "json_encodable d = True"

definition json_Encode :: "api_message \<Rightarrow> api_message option" where
  "json_Encode m = (if json_encodable (am_data m) then Some m else None)"

definition API_sendResponse :: "api_data \<Rightarrow> string \<Rightarrow> 'st api_server \<Rightarrow> api_response" where
  "API_sendResponse d err api = \<lparr>ar_status = 200, ar_body = json_Encode
     \<lparr>am_success = (err = ''''), am_data = d, am_error = err, am_version = api_version api\<rparr>\<rparr>"

definition API_sendErrorResponse :: "string \<Rightarrow> nat \<Rightarrow> 'st api_server \<Rightarrow> api_response" where
  "API_sendErrorResponse message statusCode api = \<lparr>ar_status = statusCode, ar_body = json_Encode
     \<lparr>am_success = False, am_data = No_data, am_error = message, am_version = api_version api\<rparr>\<rparr>"

text \<open>A handler's answer without a change, and with one.\<close>

abbreviation answer :: "api_data \<Rightarrow> 'st api_server \<Rightarrow> (api_response \<times> 'st api_server) outcome" where
  "answer d api \<equiv> Returns (API_sendResponse d '''' api, api)"

abbreviation refuse :: "string \<Rightarrow> nat \<Rightarrow> 'st api_server \<Rightarrow> (api_response \<times> 'st api_server) outcome" where
  "refuse message statusCode api \<equiv> Returns (API_sendErrorResponse message statusCode api, api)"

section \<open>Middleware\<close>

type_synonym 'st handler = "'st api_server \<Rightarrow> (api_response \<times> 'st api_server) outcome"

definition API_corsMiddleware :: "string \<Rightarrow> 'st handler \<Rightarrow> 'st handler" where
  "API_corsMiddleware verb nxt api =
     (if verb = ''OPTIONS''
      then Returns (\<lparr>ar_status = 200, ar_body = None\<rparr>, api)
      else nxt api)"

definition go_minute :: int where
  "go_minute = 60 * go_second"

definition set_api_mu :: "rwmutex \<Rightarrow> 'st api_server \<Rightarrow> 'st api_server" where
  "set_api_mu m api = api\<lparr>api_mu := m\<rparr>"

text \<open>
  The part under the limiter's mutex: whether the request may pass. The answer to a refused request is sent
  before the mutex is released.
\<close>

definition API_rateLimit :: "string \<Rightarrow> instant \<Rightarrow> 'st api_server \<Rightarrow> (bool \<times> 'st api_server) outcome" where
  "API_rateLimit clientIP now = with_Lock api_mu set_api_mu (\<lambda>api.
     let requests = go_get_or [] (api_requests api) clientIP;
         validRequests = filter (\<lambda>reqTime. time_since now reqTime < go_minute) requests
     in if length validRequests \<ge> 100 then Returns (False, api)
        else Returns (True, api\<lparr>api_requests := go_put clientIP (validRequests @ [now]) (api_requests api)\<rparr>))"

definition API_rateLimitMiddleware :: "string \<Rightarrow> instant \<Rightarrow> 'st handler \<Rightarrow> 'st handler" where
  "API_rateLimitMiddleware remoteAddr now nxt api =
     and_then (API_rateLimit remoteAddr now api) (\<lambda>(pass, api1).
     if pass then nxt api1 else refuse ''Rate limit exceeded'' 429 api1)"

text \<open>A request: CORS first, then the limiter, then the handler.\<close>

definition API_serve :: "string \<Rightarrow> string \<Rightarrow> instant \<Rightarrow> 'st handler \<Rightarrow> 'st handler" where
  "API_serve verb remoteAddr now h = API_corsMiddleware verb (API_rateLimitMiddleware remoteAddr now h)"

section \<open>Calls of the components\<close>

definition on_engine ::
  "('st consensus_engine \<Rightarrow> ('r \<times> 'st consensus_engine) outcome) \<Rightarrow> 'st api_server \<Rightarrow> ('r \<times> 'st api_server) outcome" where
  "on_engine f api = and_then (f (api_consensusEngine api)) (\<lambda>(r, ce). Returns (r, api\<lparr>api_consensusEngine := ce\<rparr>))"

definition on_state ::
  "(state_db \<Rightarrow> ('r \<times> state_db) outcome) \<Rightarrow> 'st api_server \<Rightarrow> ('r \<times> 'st api_server) outcome" where
  "on_state f api = and_then (f (api_stateDB api)) (\<lambda>(r, s). Returns (r, api\<lparr>api_stateDB := s\<rparr>))"

definition on_network ::
  "(network_manager \<Rightarrow> ('r \<times> network_manager) outcome) \<Rightarrow> 'st api_server \<Rightarrow> ('r \<times> 'st api_server) outcome" where
  "on_network f api = and_then (f (api_networkManager api)) (\<lambda>(r, n). Returns (r, api\<lparr>api_networkManager := n\<rparr>))"

definition validator_at :: "'st api_server \<Rightarrow> vref \<Rightarrow> validator" where
  "validator_at api v = vs_heap (ce_validatorSet (api_consensusEngine api)) v"

definition new_object :: "vref \<Rightarrow> validator \<Rightarrow> 'st api_server \<Rightarrow> 'st api_server" where
  "new_object v x api =
     (let ce = api_consensusEngine api in
      api\<lparr>api_consensusEngine := ce\<lparr>ce_validatorSet :=
        (ce_validatorSet ce)\<lparr>vs_heap := (vs_heap (ce_validatorSet ce))(v := x)\<rparr>\<rparr>\<rparr>)"

section \<open>Queries\<close>

definition API_getBlockchainInfo :: "'st handler" where
  "API_getBlockchainInfo api =
     and_then (on_engine CE_GetLatestBlock api) (\<lambda>(latestBlock, api1).
     and_then (on_engine CE_GetValidators api1) (\<lambda>(validators, api2).
     and_then (on_state SD_GetTotalStake api2) (\<lambda>(stake, api3).
     answer (Network_data \<lparr>ni_NetworkName = ''Sinar Chain'', ni_Consensus = ''Lachesis (aBFT)'',
       ni_LatestBlock = (case latestBlock of None \<Rightarrow> 0 | Some b \<Rightarrow> bh_Number (bk_Header b)),
       ni_BlockTime = ''2 seconds'', ni_TotalValidators = length validators, ni_TotalStake = int_String stake,
       ni_GasPrice = ''1'', ni_ChainID = ''250''\<rparr>) api3)))"

definition validator_info_of :: "validator \<Rightarrow> validator_info" where
  "validator_info_of x = \<lparr>vi_Address = vd_Address x, vi_Stake = dec (unat (vd_Stake x)), vi_IsActive = vd_IsActive x,
     vi_Commission = 1000, vi_Rewards = ''0'', vi_Score = f64_of_nat 1\<rparr>"

definition API_getValidators :: "'st handler" where
  "API_getValidators api =
     and_then (on_engine CE_GetValidators api) (\<lambda>(validators, api1).
     answer (Validator_data (map (\<lambda>(a, v). validator_info_of (validator_at api1 v)) validators)) api1)"

definition API_getStakingInfo :: "'st handler" where
  "API_getStakingInfo api =
     and_then (on_engine CE_GetValidators api) (\<lambda>(validators, api1).
     let activeValidators = count_if (\<lambda>(a, v). vd_IsActive (validator_at api1 v)) validators in
     and_then (on_state SD_GetTotalStake api1) (\<lambda>(stake, api2).
     answer (Staking_data \<lparr>si_TotalStake = int_String stake, si_ActiveValidators = activeValidators,
       si_MinStake = ''1000000'', si_YourStake = '''', si_APY = ''8.5''\<rparr>) api2))"

definition API_getMobileValidatorStatus :: "string \<Rightarrow> 'st handler" where
  "API_getMobileValidatorStatus deviceID api =
     (if deviceID = '''' then refuse ''Device ID is required'' 400 api
      else and_then (on_engine CE_GetValidators api) (\<lambda>(validators, api1).
        case find (\<lambda>(a, v). vd_ID (validator_at api1 v) = deviceID) validators of
          Some (a, v) \<Rightarrow> (let x = validator_at api1 v in
            answer (Fields [(''device_id'', Text deviceID), (''validator_address'', Text (vd_Address x)),
              (''stake'', Text (dec (unat (vd_Stake x)))), (''is_active'', Flag (vd_IsActive x)),
              (''last_seen'', Time (vd_LastSeen x)), (''status'', Text ''active'')]) api1)
        | None \<Rightarrow> answer (Fields [(''device_id'', Text deviceID), (''status'', Text ''not_found'')]) api1))"

text \<open>With a peer in the list the answer has an empty body (\<open>json_encodable\<close>).\<close>

definition API_getPeers :: "'st handler" where
  "API_getPeers api = and_then (on_network NM_GetPeers api) (\<lambda>(peers, api1). answer (Peers_data peers) api1)"

definition API_getNetworkStats :: "'st handler" where
  "API_getNetworkStats api =
     and_then (on_network NM_GetNetworkStats api) (\<lambda>(stats, api1). answer (Net_stats_data stats) api1)"

section \<open>Registering validators\<close>

record register_request =
  rr_Address :: string
  rr_Stake :: string
  rr_Commission :: u64

definition API_registerValidator ::
  "(string \<Rightarrow> address) \<Rightarrow> private_key option \<Rightarrow> vref \<Rightarrow> instant \<Rightarrow> register_request option \<Rightarrow> 'st handler" where
  "API_registerValidator h2a key v now body api =
     (case body of None \<Rightarrow> refuse ''Invalid request body'' 400 api
      | Some request \<Rightarrow>
        (case ParseUint (rr_Stake request) of None \<Rightarrow> refuse ''Invalid stake amount'' 400 api
         | Some stake \<Rightarrow>
           (case key of None \<Rightarrow> Panics
            | Some privKey \<Rightarrow>
              and_then (on_engine (CE_AddValidator h2a v)
                (new_object v (NewValidator (rr_Address request) privKey stake now) api)) (\<lambda>(err, api1).
              case err of Some e \<Rightarrow> refuse (''Failed to register validator: '' @ e) 500 api1
              | None \<Rightarrow> answer (Fields [(''validator_address'', Text (rr_Address request)),
                  (''stake'', Text (rr_Stake request)), (''status'', Text ''registered'')]) api1))))"

text \<open>\<open>%x\<close> of \<open>D.Bytes()\<close>: two digits for each byte, and no leading zero byte.\<close>

fun byte_count :: "nat \<Rightarrow> nat" where
  "byte_count n = (if n = 0 then 0 else Suc (byte_count (n div 256)))"

declare byte_count.simps [simp del]

definition key_hex :: "int \<Rightarrow> string" where
  "key_hex D = hex_fixed (2 * byte_count (nat \<bar>D\<bar>)) (nat \<bar>D\<bar>)"

record device_info =
  dv_Platform :: string
  dv_Version :: string
  dv_Model :: string

record setup_request =
  su_DeviceID :: string
  su_Stake :: string
  su_DeviceInfo :: device_info

definition API_setupMobileValidator ::
  "(string \<Rightarrow> address) \<Rightarrow> (address \<Rightarrow> string) \<Rightarrow> (public_key \<Rightarrow> address) \<Rightarrow> private_key option \<Rightarrow> vref \<Rightarrow> instant \<Rightarrow>
     setup_request option \<Rightarrow> 'st handler" where
  "API_setupMobileValidator h2a a2h p2a key v now body api =
     (case body of None \<Rightarrow> refuse ''Invalid request body'' 400 api
      | Some request \<Rightarrow>
        (case key of None \<Rightarrow> Panics
         | Some privKey \<Rightarrow>
           let addr = p2a (sk_Public privKey) in
           (case ParseUint (su_Stake request) of None \<Rightarrow> refuse ''Invalid stake amount'' 400 api
            | Some stake \<Rightarrow>
              and_then (on_engine (CE_AddValidator h2a v)
                (new_object v (NewValidator (su_DeviceID request) privKey stake now) api)) (\<lambda>(err, api1).
              case err of Some e \<Rightarrow> refuse (''Failed to setup mobile validator: '' @ e) 500 api1
              | None \<Rightarrow> answer (Fields [(''validator_address'', Text (a2h addr)),
                  (''private_key'', Text (key_hex (sk_D privKey))), (''stake'', Text (su_Stake request)),
                  (''device_id'', Text (su_DeviceID request)), (''status'', Text ''active'')]) api1))))"

section \<open>Staking\<close>

record delegate_request =
  dr_Delegator :: string
  dr_Validator :: string
  dr_Amount :: string

definition API_delegate :: "(string \<Rightarrow> address) \<Rightarrow> delegate_request option \<Rightarrow> 'st handler" where
  "API_delegate h2a body api =
     (case body of None \<Rightarrow> refuse ''Invalid request body'' 400 api
      | Some request \<Rightarrow>
        (case ParseUint (dr_Amount request) of None \<Rightarrow> refuse ''Invalid amount'' 400 api
         | Some amount \<Rightarrow>
           let delegatorAddr = h2a (dr_Delegator request);
               validatorAddr = h2a (dr_Validator request)
           in and_then (on_state (SD_Delegate delegatorAddr validatorAddr (NewInt_int64 amount)) api) (\<lambda>(err, api1).
              case err of Some e \<Rightarrow> refuse (''Delegation failed: '' @ e) 500 api1
              | None \<Rightarrow> answer (Fields [(''delegator'', Text (dr_Delegator request)),
                  (''validator'', Text (dr_Validator request)), (''amount'', Text (dr_Amount request)),
                  (''status'', Text ''delegated'')]) api1)))"

text \<open>The constant \<open>0.085\<close> as a float64.\<close>

definition apy_rate :: f64 where
  "apy_rate = F64 6124895493223875 56"

record quick_request =
  qr_Amount :: string
  qr_UserID :: string

definition API_quickStaking :: "instant \<Rightarrow> quick_request option \<Rightarrow> 'st handler" where
  "API_quickStaking now body api =
     (case body of None \<Rightarrow> refuse ''Invalid request body'' 400 api
      | Some request \<Rightarrow>
        (case ParseUint (qr_Amount request) of None \<Rightarrow> refuse ''Invalid amount'' 400 api
         | Some amount \<Rightarrow> answer (Fields [(''user_id'', Text (qr_UserID request)), (''amount'', Text (qr_Amount request)),
             (''stake_id'', Text (''stake_'' @ qr_UserID request @ ''_'' @ int_String (now div go_second))),
             (''status'', Text ''staked''), (''apy'', Text ''8.5''),
             (''estimated_rewards'', Text (f64_fixed2 (f64_mul_any (f64_of_u64 amount) apy_rate)))]) api))"

section \<open>The native token\<close>

definition API_getSINARInfo :: "'st handler" where
  "API_getSINARInfo api = answer (Token_data (SN_GetSINARInfo (api_stateDB api))) api"

definition API_getSINARBalance :: "(string \<Rightarrow> address) \<Rightarrow> string \<Rightarrow> 'st handler" where
  "API_getSINARBalance h2a addr api =
     and_then (on_state (SN_GetSINARBalance (h2a addr)) api) (\<lambda>(balance, api1).
     answer (Fields [(''address'', Text addr), (''balance'', Text (int_String balance)), (''symbol'', Text ''SINAR'')]) api1)"

record transfer_request =
  tr_From :: string
  tr_To :: string
  tr_Amount :: string

definition API_transferSINAR :: "(string \<Rightarrow> address) \<Rightarrow> transfer_request option \<Rightarrow> 'st handler" where
  "API_transferSINAR h2a body api =
     (case body of None \<Rightarrow> refuse ''Invalid request body'' 400 api
      | Some request \<Rightarrow>
        let frm = h2a (tr_From request); to = h2a (tr_To request) in
        (case SetString (tr_Amount request) of None \<Rightarrow> refuse ''Invalid amount'' 400 api
         | Some amount \<Rightarrow>
           and_then (on_state (SN_TransferSINAR frm to amount) api) (\<lambda>(err, api1).
           case err of Some e \<Rightarrow> refuse e 400 api1
           | None \<Rightarrow> answer (Fields [(''success'', Flag True), (''from'', Text (tr_From request)),
               (''to'', Text (tr_To request)), (''amount'', Text (int_String amount))]) api1)))"

definition API_getSINARPrice :: "'st handler" where
  "API_getSINARPrice api =
     answer (Fields [(''price_usd'', Price (SN_GetSINARPrice (api_stateDB api))), (''symbol'', Text ''SINAR'')]) api"

definition API_getSINARSupply :: "'st handler" where
  "API_getSINARSupply api =
     (let info = SN_GetSINARInfo (api_stateDB api) in
      answer (Fields [(''total_supply'', Text (int_String (tk_TotalSupply info))),
        (''current_supply'', Text (int_String (tk_CurrentSupply info))), (''symbol'', Text ''SINAR'')]) api)"

definition API_getSINARDistribution :: "'st handler" where
  "API_getSINARDistribution api = answer (Distribution_data SN_GetDistributionInfo) api"

definition API_initializeSINAR :: "'st handler" where
  "API_initializeSINAR api =
     and_then (on_state SN_InitializeSINARDistribution api) (\<lambda>(err, api1).
     case err of Some e \<Rightarrow> refuse e 500 api1
     | None \<Rightarrow> answer (Fields [(''success'', Flag True),
         (''message'', Text ''SINAR distribution initialized successfully'')]) api1)"

section \<open>Placeholders\<close>

definition API_getBlocks :: "'st handler" where
  "API_getBlocks = answer (Blocks_data [])"

definition API_getBlock :: "'st handler" where
  "API_getBlock = answer (Block_data \<lparr>bi_Number = 0, bi_Hash = '''', bi_ParentHash = '''', bi_Timestamp = 0,
     bi_GasUsed = 0, bi_GasLimit = 0, bi_Transactions = [], bi_Validator = ''''\<rparr>)"

definition API_getTransaction :: "'st handler" where
  "API_getTransaction = answer (Transaction_data \<lparr>ti_Hash = '''', ti_From = '''', ti_To = '''', ti_Value = '''',
     ti_GasUsed = 0, ti_GasPrice = '''', ti_Status = '''', ti_BlockNum = 0, ti_Timestamp = 0\<rparr>)"

definition API_unregisterValidator :: "'st handler" where
  "API_unregisterValidator = answer (Fields [(''status'', Text ''unregistered'')])"

definition API_updateStake :: "'st handler" where
  "API_updateStake = answer (Fields [(''status'', Text ''updated'')])"

definition API_undelegate :: "'st handler" where
  "API_undelegate = answer (Fields [(''status'', Text ''undelegated'')])"

definition API_getAccount :: "'st handler" where
  "API_getAccount = answer (Fields [(''address'', Text ''0x...'')])"

definition API_getBalance :: "'st handler" where
  "API_getBalance = answer (Fields [(''balance'', Text ''0'')])"

definition API_getTransactions :: "'st handler" where
  "API_getTransactions = answer (Transactions_data [])"

definition API_getContract :: "'st handler" where
  "API_getContract = answer (Fields [(''address'', Text ''0x...'')])"

definition API_callContract :: "'st handler" where
  "API_callContract = answer (Fields [(''result'', Text ''0x...'')])"

definition API_deployContract :: "'st handler" where
  "API_deployContract = answer (Fields [(''address'', Text ''0x...'')])"

section \<open>The socket\<close>

text \<open>
  What the client sends (None: no string under \<open>type\<close>) and what it receives. The loop ends with the first failed
  read, here the end of the list. The cache that \<open>Hash\<close> fills in the block is not written back.
\<close>

datatype ws_message =
  Welcome string string
| New_block block_info
| New_transaction string
| Network_stats network_report

definition block_info_of :: "block_crypto \<Rightarrow> (hash32 \<Rightarrow> string) \<Rightarrow> block \<Rightarrow> block_info" where
  "block_info_of x h2h b = \<lparr>bi_Number = bh_Number (bk_Header b), bi_Hash = h2h (fst (Block_Hash x b)),
     bi_ParentHash = h2h (bh_ParentHash (bk_Header b)), bi_Timestamp = of_int (bh_CreatedAt (bk_Header b) div go_second),
     bi_GasUsed = bh_GasUsed (bk_Header b), bi_GasLimit = bh_GasLimit (bk_Header b), bi_Transactions = [],
     bi_Validator = bh_Creator (bk_Header b)\<rparr>"

definition API_handleWebSocketMessage ::
  "block_crypto \<Rightarrow> (hash32 \<Rightarrow> string) \<Rightarrow> string option \<Rightarrow> 'st api_server \<Rightarrow> (ws_message list \<times> 'st api_server) outcome" where
  "API_handleWebSocketMessage x h2h msgType api =
     (if msgType = Some ''subscribe_blocks'' then
        and_then (on_engine CE_GetLatestBlock api) (\<lambda>(latestBlock, api1).
        Returns (case latestBlock of None \<Rightarrow> [] | Some b \<Rightarrow> [New_block (block_info_of x h2h b)], api1))
      else if msgType = Some ''subscribe_transactions'' then
        Returns ([New_transaction ''Transaction data will be sent here''], api)
      else if msgType = Some ''get_network_stats'' then
        and_then (on_network NM_GetNetworkStats api) (\<lambda>(networkStats, api1).
        Returns ([Network_stats networkStats], api1))
      else Returns ([], api))"

fun ws_loop ::
  "block_crypto \<Rightarrow> (hash32 \<Rightarrow> string) \<Rightarrow> string option list \<Rightarrow> 'st api_server \<Rightarrow>
     (ws_message list \<times> 'st api_server) outcome" where
  "ws_loop x h2h [] api = Returns ([], api)"
| "ws_loop x h2h (m # ms) api =
     and_then (API_handleWebSocketMessage x h2h m api) (\<lambda>(sent, api1).
     and_then (ws_loop x h2h ms api1) (\<lambda>(more, api2). Returns (sent @ more, api2)))"

definition API_handleWebSocket ::
  "block_crypto \<Rightarrow> (hash32 \<Rightarrow> string) \<Rightarrow> bool \<Rightarrow> string option list \<Rightarrow> 'st api_server \<Rightarrow>
     (ws_message list \<times> 'st api_server) outcome" where
  "API_handleWebSocket x h2h upgraded msgs api =
     (if \<not> upgraded then Returns ([], api)
      else and_then (ws_loop x h2h msgs api) (\<lambda>(sent, api1).
        Returns (Welcome ''Connected to Sinar Chain WebSocket'' (api_version api) # sent, api1)))"

end
