(* ===== verification/Api_Spec.thy ===== *)
theory Api_Spec
  imports Api_Server
begin

text \<open>
  What the HTTP interface promises, and what it does: the rate limiter as a sliding window over the
  accepted requests, the registration of validators, and transfers that nobody authenticates.
\<close>

section \<open>The limiter as a sliding window\<close>

interpretation api_mutex: mutex_field api_mu set_api_mu
  by unfold_locales (simp_all add: set_api_mu_def)

text \<open>
  The specification keeps every accepted request, and admits a client with fewer than 100 accepted requests
  less than a minute old. It has no state per client and forgets nothing.
\<close>

type_synonym request = "string \<times> instant"

definition in_last_minute :: "instant \<Rightarrow> instant \<Rightarrow> bool" where
  "in_last_minute now t \<longleftrightarrow> now - t < go_minute"

definition recent :: "request list \<Rightarrow> string \<Rightarrow> instant \<Rightarrow> nat" where
  "recent accepted c now = count_if (\<lambda>(c', t). c' = c \<and> in_last_minute now t) accepted"

fun window_run :: "request list \<Rightarrow> request list \<Rightarrow> bool list \<times> request list" where
  "window_run accepted [] = ([], accepted)"
| "window_run accepted ((c, now) # rs) =
     (let ok = recent accepted c now < 100;
          (oks, final) = window_run (if ok then accepted @ [(c, now)] else accepted) rs
      in (ok # oks, final))"

lemma window_run_Cons:
  "window_run accepted ((c, now) # rs) =
     (let acc = if recent accepted c now < 100 then accepted @ [(c, now)] else accepted
      in ((recent accepted c now < 100) # fst (window_run acc rs), snd (window_run acc rs)))"
  by (simp add: Let_def split: prod.split)

text \<open>The server's limiter over the same requests.\<close>

fun limiter_run :: "request list \<Rightarrow> 'st api_server \<Rightarrow> (bool list \<times> 'st api_server) outcome" where
  "limiter_run [] api = Returns ([], api)"
| "limiter_run ((c, now) # rs) api =
     and_then (API_rateLimit c now api) (\<lambda>(ok, api1).
     and_then (limiter_run rs api1) (\<lambda>(oks, api2). Returns (ok # oks, api2)))"

lemma rateLimit_free:
  assumes "api_mu api = unlocked"
  shows "API_rateLimit c now api =
    (let valid = filter (\<lambda>t. time_since now t < go_minute) (go_get_or [] (api_requests api) c)
     in if length valid \<ge> 100 then Returns (False, api)
        else Returns (True, api\<lparr>api_requests := go_put c (valid @ [now]) (api_requests api)\<rparr>))"
  using assms by (simp add: API_rateLimit_def with_Lock_def rw_Lock_def rw_Unlock_def set_api_mu_def unlocked_def Let_def)

lemma time_since_minute: "time_since now t < go_minute \<longleftrightarrow> in_last_minute now t"
  by (auto simp: time_since_def in_last_minute_def go_minute_def go_second_def)

text \<open>What the clock has passed stays outside the window.\<close>

lemma window_narrows: "now \<le> later \<Longrightarrow> in_last_minute later t \<Longrightarrow> in_last_minute now t"
  by (simp add: in_last_minute_def)

definition times_of :: "request list \<Rightarrow> string \<Rightarrow> instant list" where
  "times_of accepted c = map snd (filter (\<lambda>r. fst r = c) accepted)"

lemma recent_times: "recent accepted c now = length (filter (in_last_minute now) (times_of accepted c))"
  by (induction accepted) (auto simp: recent_def times_of_def)

lemma times_of_snoc: "times_of (accepted @ [(c, t)]) d = times_of accepted d @ (if d = c then [t] else [])"
  by (simp add: times_of_def)

text \<open>The server's lists agree with the history from the time \<open>now\<close> on.\<close>

definition limiter_abs :: "instant \<Rightarrow> 'st api_server \<Rightarrow> request list \<Rightarrow> bool" where
  "limiter_abs now api accepted \<longleftrightarrow> api_mu api = unlocked \<and> (\<forall>c. \<forall>t \<ge> now.
     filter (in_last_minute t) (go_get_or [] (api_requests api) c) = filter (in_last_minute t) (times_of accepted c))"

lemma limiter_abs_later: "limiter_abs now api accepted \<Longrightarrow> now \<le> later \<Longrightarrow> limiter_abs later api accepted"
  by (simp add: limiter_abs_def)

lemma filter_window: "now \<le> later \<Longrightarrow>
  filter (in_last_minute later) (filter (in_last_minute now) ts) = filter (in_last_minute later) ts"
  by (induction ts) (auto dest: window_narrows)

lemma limiter_step:
  assumes "limiter_abs now api accepted"
  shows "\<exists>api1. API_rateLimit c now api = Returns (recent accepted c now < 100, api1) \<and>
    limiter_abs now api1 (if recent accepted c now < 100 then accepted @ [(c, now)] else accepted)"
proof -
  let ?valid = "filter (in_last_minute now) (go_get_or [] (api_requests api) c)"
  have free: "api_mu api = unlocked" and agree: "\<And>d t. now \<le> t \<Longrightarrow>
      filter (in_last_minute t) (go_get_or [] (api_requests api) d) = filter (in_last_minute t) (times_of accepted d)"
    using assms by (auto simp: limiter_abs_def)
  have n: "length ?valid = recent accepted c now" by (simp add: agree recent_times)
  have "limiter_abs now (api\<lparr>api_requests := go_put c (?valid @ [now]) (api_requests api)\<rparr>) (accepted @ [(c, now)])"
    using free by (simp add: limiter_abs_def times_of_snoc go_get_or_def filter_window agree [unfolded go_get_or_def]
        del: filter_filter)
  then show ?thesis using assms n by (simp add: rateLimit_free [OF free] time_since_minute Let_def)
qed

fun clock_runs :: "instant \<Rightarrow> request list \<Rightarrow> bool" where
  "clock_runs now [] = True"
| "clock_runs now ((c, t) # rs) = (now \<le> t \<and> clock_runs t rs)"

lemma limiter_simulates:
  "limiter_abs now api accepted \<Longrightarrow> clock_runs now rs \<Longrightarrow>
     \<exists>api1. limiter_run rs api = Returns (fst (window_run accepted rs), api1)"
proof (induction rs arbitrary: now api accepted)
  case Nil
  then show ?case by simp
next
  case (Cons r rs)
  obtain c t where r: "r = (c, t)" by (cases r)
  let ?acc = "if recent accepted c t < 100 then accepted @ [(c, t)] else accepted"
  have "limiter_abs t api accepted" using Cons.prems by (auto simp: r intro: limiter_abs_later)
  then obtain api1 where 1: "API_rateLimit c t api = Returns (recent accepted c t < 100, api1)"
    and 2: "limiter_abs t api1 ?acc" using limiter_step by blast
  obtain api2 where "limiter_run rs api1 = Returns (fst (window_run ?acc rs), api2)"
    using Cons.IH [OF 2] Cons.prems(2) by (auto simp: r)
  then show ?case by (simp add: r 1 Let_def split: prod.split)
qed

text \<open>The accepted requests, and how many of a client's fall into the minute before \<open>now\<close>.\<close>

definition accepted_of :: "request list \<Rightarrow> bool list \<Rightarrow> request list" where
  "accepted_of rs oks = map fst (filter snd (zip rs oks))"

definition in_window :: "request list \<Rightarrow> string \<Rightarrow> instant \<Rightarrow> nat" where
  "in_window accepted c now = count_if (\<lambda>(c', t). c' = c \<and> t \<le> now \<and> in_last_minute now t) accepted"

lemma window_run_history: "snd (window_run accepted rs) = accepted @ accepted_of rs (fst (window_run accepted rs))"
  by (induction accepted rs rule: window_run.induct) (auto simp: Let_def accepted_of_def split: prod.splits)

lemma count_if_append: "count_if p (xs @ ys) = count_if p xs + count_if p ys"
  by (induction xs) auto

lemma in_window_le: "now \<le> later \<Longrightarrow> in_window accepted c later \<le> recent accepted c now"
  unfolding in_window_def recent_def by (rule count_if_le) (auto dest: window_narrows)

lemma in_window_snoc:
  assumes "\<And>later. in_window accepted c later \<le> 100" and "recent accepted c now < 100"
  shows "in_window (accepted @ [(c, now)]) c later \<le> 100"
proof (cases "now \<le> later")
  case True
  then show ?thesis using in_window_le [OF True, of accepted c] assms(2) by (simp add: in_window_def count_if_append)
next
  case False
  then show ?thesis using assms(1) by (simp add: in_window_def count_if_append)
qed

lemma window_run_bound:
  "(\<And>c later. in_window accepted c later \<le> 100) \<Longrightarrow> in_window (snd (window_run accepted rs)) d at \<le> 100"
proof (induction accepted rs rule: window_run.induct)
  case (1 accepted)
  then show ?case by simp
next
  case (2 accepted c now rs)
  let ?acc = "if recent accepted c now < 100 then accepted @ [(c, now)] else accepted"
  have "in_window ?acc e later \<le> 100" for e later
    using "2.prems" in_window_snoc [of accepted c now later]
    by (cases "e = c") (auto simp: in_window_def count_if_append)
  then have "in_window (snd (window_run ?acc rs)) d at \<le> 100" by (rule "2.IH" [OF refl])
  then show ?case by (simp add: window_run_Cons Let_def del: window_run.simps(2))
qed

lemma new_limiter: "limiter_abs start (NewAPIServer consensus network state port) []"
  by (simp add: limiter_abs_def NewAPIServer_def go_get_or_def times_of_def)

section \<open>Properties of the limiter\<close>

text \<open>
  C8. The limiter refines a sliding window. Take a fresh server and any sequence of requests whose clock
  readings do not go back. The middleware returns on each of them, and admits a request exactly when fewer than 100
  admitted requests of the same remote address are less than a minute old, counted over the whole history,
  although the server forgets every time it prunes.
\<close>

theorem rate_limit_refines:
  assumes "clock_runs start rs"
  shows "\<exists>api. limiter_run rs (NewAPIServer consensus network state port) = Returns (fst (window_run [] rs), api)"
  by (rule limiter_simulates [OF new_limiter assms])

theorem rate_limit_refines_witness:
  "\<exists>api. limiter_run (replicate 3 (''10.0.0.1:4000'', 5) @ [(''10.0.0.1:4001'', 6)])
     (NewAPIServer some_engine new_manager NewStateDB ''8080'') =
     Returns ([True, True, True, True], api)"
proof -
  have "fst (window_run [] (replicate 3 (''10.0.0.1:4000'', 5) @ [(''10.0.0.1:4001'', 6)])) = [True, True, True, True]"
    by (simp add: numeral_3_eq_3 recent_def)
  then show ?thesis
    using rate_limit_refines [of 0 "replicate 3 (''10.0.0.1:4000'', 5) @ [(''10.0.0.1:4001'', 6)]"]
    by (simp add: numeral_3_eq_3)
qed

text \<open>
  C19. At most 100 a minute. Over any sequence of requests with a clock that does not go back, the requests of one
  remote address that the server lets through never number more than 100 in the minute before any instant.
\<close>

theorem rate_limit_window:
  assumes "clock_runs start rs"
    and "limiter_run rs (NewAPIServer consensus network state port) = Returns (oks, api)"
  shows "in_window (accepted_of rs oks) c now \<le> 100"
proof -
  have "oks = fst (window_run [] rs)"
    using limiter_simulates [OF new_limiter assms(1), of consensus network state port] assms(2) by auto
  moreover have "in_window (snd (window_run [] rs)) c now \<le> 100"
    by (rule window_run_bound) (simp add: in_window_def)
  ultimately show ?thesis by (simp add: window_run_history)
qed

text \<open>A client that sends 101 requests at once: the last one is refused.\<close>

definition burst :: "nat \<Rightarrow> request list" where
  "burst n = replicate n (''10.0.0.1:4000'', 5)"

lemma window_fill: "k + n \<le> 100 \<Longrightarrow> window_run (burst k) (burst n) = (replicate n True, burst (k + n))"
proof (induction n arbitrary: k)
  case 0
  then show ?case by (simp add: burst_def)
next
  case (Suc n)
  have r: "recent (burst k) ''10.0.0.1:4000'' 5 = k"
    by (induction k) (simp_all add: burst_def recent_def in_last_minute_def go_minute_def go_second_def)
  have "burst k @ [(''10.0.0.1:4000'', 5)] = burst (Suc k)"
    by (simp add: burst_def replicate_append_same)
  moreover have "burst (Suc n) = (''10.0.0.1:4000'', 5) # burst n" by (simp add: burst_def)
  ultimately show ?case using Suc.IH [of "Suc k"] Suc.prems by (simp add: r)
qed

lemma window_run_append:
  "fst (window_run accepted (xs @ ys)) =
     fst (window_run accepted xs) @ fst (window_run (snd (window_run accepted xs)) ys)"
  by (induction accepted xs rule: window_run.induct) (simp_all add: window_run_Cons Let_def del: window_run.simps(2))

lemma window_full: "fst (window_run [] (burst 100 @ burst 1)) = replicate 100 True @ [False]"
proof -
  have "recent (burst k) ''10.0.0.1:4000'' 5 = k" for k
    by (induction k) (simp_all add: burst_def recent_def in_last_minute_def go_minute_def go_second_def)
  then have "fst (window_run (burst 100) (burst 1)) = [False]" by (simp add: burst_def [of 1] burst_def [of "Suc 0"])
  moreover have "window_run [] (burst 100) = (replicate 100 True, burst 100)"
    using window_fill [of 0 100] by (simp add: burst_def [of 0])
  ultimately show ?thesis by (simp only: window_run_append fst_conv snd_conv)
qed

lemma burst_clock: "clock_runs 5 (burst n)"
  by (induction n) (simp_all add: burst_def)

theorem rate_limit_window_witness:
  "\<exists>api. limiter_run (burst 100 @ burst 1) (NewAPIServer some_engine new_manager NewStateDB ''8080'') =
     Returns (replicate 100 True @ [False], api) \<and>
   in_window (accepted_of (burst 100 @ burst 1) (replicate 100 True @ [False])) ''10.0.0.1:4000'' 5 \<le> 100"
proof -
  have c: "clock_runs 5 (burst 100 @ burst 1)"
    using burst_clock [of "100 + 1"] by (simp only: burst_def replicate_add)
  obtain api where "limiter_run (burst 100 @ burst 1) (NewAPIServer some_engine new_manager NewStateDB ''8080'') =
      Returns (replicate 100 True @ [False], api)"
    using limiter_simulates [OF new_limiter c] unfolding window_full by blast
  then show ?thesis using rate_limit_window [OF c] by blast
qed

section \<open>Registrations\<close>

text \<open>The engine's part of a successful registration, with its mutex free.\<close>

definition enrolled :: "address \<Rightarrow> vref \<Rightarrow> validator \<Rightarrow> 'st api_server \<Rightarrow> 'st api_server" where
  "enrolled a v x api =
     (let api1 = new_object v x api; ce = api_consensusEngine api1 in
      api1\<lparr>api_consensusEngine := ce\<lparr>ce_validators := go_put a v (ce_validators ce),
        ce_validatorSet := snd (VS_AddValidator v (ce_validatorSet ce))\<rparr>\<rparr>)"

lemma AddValidator_set_heap [simp]: "vs_heap (snd (VS_AddValidator v vs)) = vs_heap vs"
  by (simp add: VS_AddValidator_def Let_def)

lemma CE_AddValidator_free:
  assumes "ce_mu ce = unlocked" and "vs_mu (ce_validatorSet ce) = unlocked"
  shows "CE_AddValidator h2a v ce =
    Returns (None, ce\<lparr>ce_validators := go_put (h2a (vd_Address (vs_heap (ce_validatorSet ce) v))) v (ce_validators ce),
       ce_validatorSet := snd (VS_AddValidator v (ce_validatorSet ce))\<rparr>)"
  using assms by (simp add: addValidator_free VS_AddValidator_free case_prod_unfold)

text \<open>The engine's and the validator set's mutexes.\<close>

abbreviation registry_free :: "'st api_server \<Rightarrow> bool" where
  "registry_free api \<equiv> ce_mu (api_consensusEngine api) = unlocked \<and>
     vs_mu (ce_validatorSet (api_consensusEngine api)) = unlocked"

lemma CE_GetValidators_free:
  assumes "ce_mu ce = unlocked"
  shows "CE_GetValidators ce = Returns (fold (\<lambda>(a, v). go_put a v) (ce_validators ce) [], ce)"
  unfolding CE_GetValidators_def
  using assms by (simp add: with_RLock_def rw_RLock_def rw_RUnlock_def set_ce_mu_def unlocked_def)

lemma enrol_call:
  assumes "registry_free api"
  shows "on_engine (CE_AddValidator h2a v) (new_object v (NewValidator vid key stake now) api) =
    Returns (None, enrolled (h2a '''') v (NewValidator vid key stake now) api)"
  using assms by (simp add: on_engine_def new_object_def enrolled_def CE_AddValidator_free NewValidator_def Let_def)

text \<open>What a run of registrations does: each request with its key, object and time.\<close>

record registration =
  rg_request :: register_request
  rg_key :: private_key
  rg_object :: vref
  rg_now :: instant

definition registered :: "registration \<Rightarrow> validator" where
  "registered g = NewValidator (rr_Address (rg_request g)) (rg_key g) (the (ParseUint (rr_Stake (rg_request g)))) (rg_now g)"

fun register_all :: "(string \<Rightarrow> address) \<Rightarrow> registration list \<Rightarrow> 'st api_server \<Rightarrow> (api_response list \<times> 'st api_server) outcome" where
  "register_all h2a [] api = Returns ([], api)"
| "register_all h2a (g # gs) api =
     and_then (API_registerValidator h2a (Some (rg_key g)) (rg_object g) (rg_now g) (Some (rg_request g)) api) (\<lambda>(r, api1).
     and_then (register_all h2a gs api1) (\<lambda>(rs, api2). Returns (r # rs, api2)))"

definition registered_answer :: "registration \<Rightarrow> api_response" where
  "registered_answer g = \<lparr>ar_status = 200, ar_body = Some \<lparr>am_success = True,
     am_data = Fields [(''validator_address'', Text (rr_Address (rg_request g))),
       (''stake'', Text (rr_Stake (rg_request g))), (''status'', Text ''registered'')],
     am_error = '''', am_version = ''1.0.0''\<rparr>\<rparr>"

lemma enrolled_fields [simp]:
  "ce_mu (api_consensusEngine (enrolled a v x api)) = ce_mu (api_consensusEngine api)"
  "vs_mu (ce_validatorSet (api_consensusEngine (enrolled a v x api))) = vs_mu (ce_validatorSet (api_consensusEngine api))"
  "api_version (enrolled a v x api) = api_version api"
  "ce_validators (api_consensusEngine (enrolled a v x api)) = go_put a v (ce_validators (api_consensusEngine api))"
  "validator_at (enrolled a v x api) v = x"
  "api_stateDB (enrolled a v x api) = api_stateDB api"
  by (simp_all add: enrolled_def new_object_def validator_at_def Let_def)

lemma register_call:
  assumes "registry_free api" "api_version api = ''1.0.0''"
    and "ParseUint (rr_Stake (rg_request g)) = Some stake"
  shows "API_registerValidator h2a (Some (rg_key g)) (rg_object g) (rg_now g) (Some (rg_request g)) api =
    Returns (registered_answer g, enrolled (h2a '''') (rg_object g) (registered g) api)"
  using assms(2,3) by (simp add: API_registerValidator_def enrol_call [OF assms(1)] registered_def registered_answer_def
      API_sendResponse_def json_Encode_def)

lemma register_all_last:
  assumes "registry_free api" "api_version api = ''1.0.0''"
    and "ce_validators (api_consensusEngine api) = [] \<or> (\<exists>v. ce_validators (api_consensusEngine api) = [(h2a '''', v)])"
    and "\<And>h. h \<in> set (gs @ [g]) \<Longrightarrow> ParseUint (rr_Stake (rg_request h)) \<noteq> None"
  shows "\<exists>api1. register_all h2a (gs @ [g]) api = Returns (map registered_answer (gs @ [g]), api1) \<and>
    ce_mu (api_consensusEngine api1) = unlocked \<and> api_version api1 = ''1.0.0'' \<and>
    ce_validators (api_consensusEngine api1) = [(h2a '''', rg_object g)] \<and>
    validator_at api1 (rg_object g) = registered g"
  using assms
proof (induction gs arbitrary: api)
  case Nil
  then obtain stake where "ParseUint (rr_Stake (rg_request g)) = Some stake" by auto
  from register_call [OF Nil.prems(1,2) this] Nil.prems show ?case by auto
next
  case (Cons h gs)
  then obtain stake where "ParseUint (rr_Stake (rg_request h)) = Some stake" by fastforce
  from register_call [OF Cons.prems(1,2) this, of h2a]
  have c: "API_registerValidator h2a (Some (rg_key h)) (rg_object h) (rg_now h) (Some (rg_request h)) api =
    Returns (registered_answer h, enrolled (h2a '''') (rg_object h) (registered h) api)" .
  have "\<exists>v. go_put (h2a '''') (rg_object h) (ce_validators (api_consensusEngine api)) = [(h2a '''', v)]"
    using Cons.prems(3) by auto
  with Cons.IH [of "enrolled (h2a '''') (rg_object h) (registered h) api"] Cons.prems
  show ?case by (auto simp: c)
qed

text \<open>Copying a map yields it again, and storing under a key replaces what was there.\<close>

lemma copied_map: "wf_gomap m \<Longrightarrow> fold (\<lambda>(a, v). go_put a v) m [] = m"
proof -
  have "wf_gomap (acc @ m) \<Longrightarrow> fold (\<lambda>(a, v). go_put a v) m acc = acc @ m" for acc
    by (induction m arbitrary: acc) (auto simp: wf_gomap_def go_put_fresh map_of_eq_None_iff)
  from this [of "[]"] show "wf_gomap m \<Longrightarrow> fold (\<lambda>(a, v). go_put a v) m [] = m" by simp
qed

lemma mset_go_put:
  "wf_gomap m \<Longrightarrow> mset (go_put k v m) = add_mset (k, v) (mset (filter (\<lambda>(a, w). a \<noteq> k) m))"
proof (induction m)
  case (Cons p m)
  then have "filter (\<lambda>(a, w). a \<noteq> k) m = m" if "fst p = k"
    using that by (intro filter_True) (auto simp: wf_gomap_def rev_image_eqI)
  then show ?case using Cons by (cases p) (auto simp: wf_gomap_def)
qed simp

lemma getValidators_free:
  assumes "ce_mu (api_consensusEngine api) = unlocked" "ce_validators (api_consensusEngine api) = [(a, v)]"
  shows "API_getValidators api = answer (Validator_data [validator_info_of (validator_at api v)]) api"
    "API_getMobileValidatorStatus device api =
      (if device = '''' then refuse ''Device ID is required'' 400 api
       else let x = validator_at api v in
         if vd_ID x = device
         then answer (Fields [(''device_id'', Text device), (''validator_address'', Text (vd_Address x)),
              (''stake'', Text (dec (unat (vd_Stake x)))), (''is_active'', Flag (vd_IsActive x)),
              (''last_seen'', Time (vd_LastSeen x)), (''status'', Text ''active'')]) api
         else answer (Fields [(''device_id'', Text device), (''status'', Text ''not_found'')]) api)"
  using assms by (simp_all add: API_getValidators_def API_getMobileValidatorStatus_def on_engine_def
      CE_GetValidators_free Let_def)

section \<open>Properties of the registrations\<close>

text \<open>
  C30. Validators registered through the interface replace each other. Take a new engine and any sequence of
  registrations with readable stakes: each one is answered with success under the address it gave. The list of
  validators afterwards holds one entry, the last, with an empty address (no object gets one, so every object is
  filed under the empty address), and any other device that asks for its status is told it was not found.
\<close>

theorem api_validators_collapse:
  assumes "\<And>h. h \<in> set (gs @ [g]) \<Longrightarrow> ParseUint (rr_Stake (rg_request h)) \<noteq> None"
    and "device \<noteq> ''''" "device \<noteq> rr_Address (rg_request g)"
  shows "\<exists>api1. register_all h2a (gs @ [g])
      (NewAPIServer (NewConsensusEngine now heap vheap config :: 'st consensus_engine) network state port) =
      Returns (map registered_answer (gs @ [g]), api1) \<and>
    (\<exists>info. API_getValidators api1 = answer (Validator_data [info]) api1 \<and> vi_Address info = '''') \<and>
    API_getMobileValidatorStatus device api1 =
      answer (Fields [(''device_id'', Text device), (''status'', Text ''not_found'')]) api1"
proof -
  let ?api = "NewAPIServer (NewConsensusEngine now heap vheap config :: 'st consensus_engine) network state port"
  obtain api1 where r: "register_all h2a (gs @ [g]) ?api = Returns (map registered_answer (gs @ [g]), api1)"
    "ce_mu (api_consensusEngine api1) = unlocked"
    "ce_validators (api_consensusEngine api1) = [(h2a '''', rg_object g)]"
    "validator_at api1 (rg_object g) = registered g"
    using register_all_last [of ?api h2a gs g, OF _ _ _ assms(1)]
    by (auto simp: NewAPIServer_def NewConsensusEngine_def NewValidatorSet_def)
  have "API_getMobileValidatorStatus device api1 =
      answer (Fields [(''device_id'', Text device), (''status'', Text ''not_found'')]) api1"
    using assms(2,3) by (simp add: getValidators_free(2) [OF r(2,3)] r(4) Let_def registered_def NewValidator_def)
  moreover have "vi_Address (validator_info_of (registered g)) = ''''"
    by (simp add: validator_info_of_def registered_def NewValidator_def)
  ultimately show ?thesis using r(1,4) getValidators_free(1) [OF r(2,3)] by metis
qed

text \<open>
  C31. The stake of a registration comes back as it was written. Whatever validators the engine holds already
  (its address table has distinct keys; its and the validator set's mutexes are free), registering the
  decimal text of any 64-bit stake succeeds. In the list of validators the entry of the registered object shows
  the same text: the list holds this entry and, for every address but the empty one, the entry that was there
  before; what stood under the empty address is gone. The objects of the other validators are unchanged. The text
  of a larger number is refused with status 400, and nothing changes.
\<close>

theorem registered_stake_round_trip:
  fixes stake :: u64
  assumes "ce_mu (api_consensusEngine api) = unlocked" "vs_mu (ce_validatorSet (api_consensusEngine api)) = unlocked"
    and "wf_gomap (ce_validators (api_consensusEngine api))" and "api_version api = ''1.0.0''"
  defines "before \<equiv> ce_validators (api_consensusEngine api)"
  shows "\<exists>api1 info infos. API_registerValidator h2a (Some key) v now
       (Some \<lparr>rr_Address = a, rr_Stake = dec (unat stake), rr_Commission = commission\<rparr>) api =
       Returns (\<lparr>ar_status = 200, ar_body = Some \<lparr>am_success = True,
         am_data = Fields [(''validator_address'', Text a), (''stake'', Text (dec (unat stake))),
           (''status'', Text ''registered'')],
         am_error = '''', am_version = ''1.0.0''\<rparr>\<rparr>, api1) \<and>
     API_getValidators api1 = answer (Validator_data infos) api1 \<and> vi_Stake info = dec (unat stake) \<and>
     mset infos = add_mset info (mset (map (\<lambda>(k, w). validator_info_of (validator_at api1 w))
       (filter (\<lambda>(k, w). k \<noteq> h2a '''') before))) \<and>
     (\<forall>w. w \<noteq> v \<longrightarrow> validator_at api1 w = validator_at api w) \<and>
     API_registerValidator h2a (Some key) v now
       (Some \<lparr>rr_Address = a, rr_Stake = dec (2 ^ 64 + excess), rr_Commission = commission\<rparr>) api =
       refuse ''Invalid stake amount'' 400 api"
proof -
  define g where "g = \<lparr>rg_request = \<lparr>rr_Address = a, rr_Stake = dec (unat stake), rr_Commission = commission\<rparr>,
    rg_key = key, rg_object = v, rg_now = now\<rparr>"
  let ?api1 = "enrolled (h2a '''') v (registered g) api"
  let ?after = "go_put (h2a '''') v before"
  have "API_registerValidator h2a (Some key) v now (Some (rg_request g)) api = Returns (registered_answer g, ?api1)"
    using register_call [of api g stake h2a] assms(1,2,4) by (simp add: g_def ParseUint_dec)
  moreover have "API_getValidators ?api1 =
      answer (Validator_data (map (\<lambda>(k, w). validator_info_of (validator_at ?api1 w)) ?after)) ?api1"
    using assms(1,3) by (simp add: API_getValidators_def on_engine_def CE_GetValidators_free copied_map before_def)
  moreover have "mset (map (\<lambda>(k, w). validator_info_of (validator_at ?api1 w)) ?after) =
      add_mset (validator_info_of (registered g)) (mset (map (\<lambda>(k, w). validator_info_of (validator_at ?api1 w))
        (filter (\<lambda>(k, w). k \<noteq> h2a '''') before)))"
    using assms(3) by (simp add: mset_go_put before_def)
  moreover have "validator_at ?api1 w = validator_at api w" if "w \<noteq> v" for w
    using that by (simp add: enrolled_def new_object_def validator_at_def Let_def)
  moreover have "vi_Stake (validator_info_of (registered g)) = dec (unat stake)"
    by (simp add: validator_info_of_def registered_def g_def ParseUint_dec NewValidator_def)
  moreover have "API_registerValidator h2a (Some key) v now
       (Some \<lparr>rr_Address = a, rr_Stake = dec (2 ^ 64 + excess), rr_Commission = commission\<rparr>) api =
       refuse ''Invalid stake amount'' 400 api"
    using ParseUint_overflow [of "2 ^ 64 + excess"] by (simp add: API_registerValidator_def)
  ultimately show ?thesis
    by (intro exI [of _ ?api1] exI [of _ "validator_info_of (registered g)"]
        exI [of _ "map (\<lambda>(k, w). validator_info_of (validator_at ?api1 w)) ?after"])
       (simp add: g_def registered_answer_def)
qed

section \<open>Witnesses\<close>

definition some_api :: "(address \<Rightarrow> int) api_server" where
  "some_api = NewAPIServer (NewConsensusEngine 0 (\<lambda>_. zero_event) (\<lambda>_. chain_validator) some_config) new_manager
     NewStateDB ''8080''"

lemma some_api_fields [simp]:
  "ce_mu (api_consensusEngine some_api) = unlocked" "ce_validators (api_consensusEngine some_api) = []"
  "vs_mu (ce_validatorSet (api_consensusEngine some_api)) = unlocked"
  "api_version some_api = ''1.0.0''" "api_stateDB some_api = NewStateDB"
  by (simp_all add: some_api_def NewAPIServer_def NewConsensusEngine_def NewValidatorSet_def)

definition some_key :: private_key where
  "some_key = \<lparr>sk_D = 1, sk_Public = \<lparr>pk_X = 2, pk_Y = 3\<rparr>\<rparr>"

definition one_registration :: "string \<Rightarrow> vref \<Rightarrow> registration" where
  "one_registration a v = \<lparr>rg_request = \<lparr>rr_Address = a, rr_Stake = dec 7, rr_Commission = 0\<rparr>, rg_key = some_key,
     rg_object = v, rg_now = 5\<rparr>"

theorem api_validators_collapse_witness:
  "\<exists>api1. register_all (\<lambda>_. 0) [one_registration ''a'' 1, one_registration ''b'' 2] some_api =
      Returns (map registered_answer [one_registration ''a'' 1, one_registration ''b'' 2], api1) \<and>
    (\<exists>info. API_getValidators api1 = answer (Validator_data [info]) api1 \<and> vi_Address info = '''') \<and>
    API_getMobileValidatorStatus ''a'' api1 =
      answer (Fields [(''device_id'', Text ''a''), (''status'', Text ''not_found'')]) api1"
proof -
  have p: "ParseUint (dec 7) = Some 7" using ParseUint_dec [of 7] by simp
  show ?thesis unfolding some_api_def
    using api_validators_collapse [where gs = "[one_registration ''a'' 1]" and g = "one_registration ''b'' 2" and device = "''a''"
        and h2a = "\<lambda>_. 0", of 0 "\<lambda>_. zero_event" "\<lambda>_. chain_validator" some_config new_manager NewStateDB "''8080''"]
    by (fastforce simp: one_registration_def p simp del: register_all.simps)
qed

text \<open>A registration on a server whose engine holds a validator under the empty address already.\<close>

definition enrolled_api :: "(address \<Rightarrow> int) api_server" where
  "enrolled_api = enrolled 0 3 (NewValidator ''first'' some_key 99 0) some_api"

theorem registered_stake_round_trip_witness:
  "\<exists>api1 info. API_registerValidator (\<lambda>_. 0) (Some some_key) 1 5
       (Some \<lparr>rr_Address = ''a'', rr_Stake = dec (unat (7 :: u64)), rr_Commission = 0\<rparr>) enrolled_api =
       Returns (\<lparr>ar_status = 200, ar_body = Some \<lparr>am_success = True, am_data = Fields [(''validator_address'', Text ''a''),
         (''stake'', Text (dec (unat (7 :: u64)))), (''status'', Text ''registered'')], am_error = '''',
         am_version = ''1.0.0''\<rparr>\<rparr>, api1) \<and>
     API_getValidators api1 = answer (Validator_data [info]) api1 \<and> vi_Stake info = dec (unat (7 :: u64))"
proof -
  have held: "ce_validators (api_consensusEngine enrolled_api) = [(0, 3)]" by (simp add: enrolled_api_def)
  have "ce_mu (api_consensusEngine enrolled_api) = unlocked"
    "vs_mu (ce_validatorSet (api_consensusEngine enrolled_api)) = unlocked"
    "wf_gomap (ce_validators (api_consensusEngine enrolled_api))" "api_version enrolled_api = ''1.0.0''"
    unfolding held by (simp_all add: enrolled_api_def wf_gomap_def)
  from registered_stake_round_trip [OF this, of "\<lambda>_. 0" some_key 1 5 "''a''" 7 0 0]
  show ?thesis unfolding held by auto
qed

section \<open>Transfers\<close>

text \<open>
  C18. Anyone can take from any account. A transfer request is not authenticated and its amount may be negative. If
  the caller's balance is at least \<open>-n\<close>, a request from the caller's address to another with the text of
  \<open>-n\<close> succeeds, credits the caller with \<open>n\<close> and takes \<open>n\<close> from the other account, whatever that
  account holds; the sum of all balances does not change.
\<close>

theorem api_transfer_takes:
  assumes "sd_mu (api_stateDB api) = unlocked" "accounts_ok (api_stateDB api)"
    and "h2a thief \<noteq> h2a victim" "0 \<le> n" "- n \<le> balance_of (h2a thief) (api_stateDB api)"
  shows "\<exists>s. API_transferSINAR h2a
      (Some \<lparr>tr_From = thief, tr_To = victim, tr_Amount = int_String (- n)\<rparr>) api =
      answer (Fields [(''success'', Flag True), (''from'', Text thief), (''to'', Text victim),
        (''amount'', Text (int_String (- n)))]) (api\<lparr>api_stateDB := s\<rparr>) \<and>
    balance_of (h2a thief) s = balance_of (h2a thief) (api_stateDB api) + n \<and>
    balance_of (h2a victim) s = balance_of (h2a victim) (api_stateDB api) - n \<and>
    SN_calculateTotalSINARSupply s = SN_calculateTotalSINARSupply (api_stateDB api)"
proof -
  let ?s = "api_stateDB api"
  let ?s1 = "put_balance (h2a thief) (balance_of (h2a thief) ?s + n) ?s"
  let ?s2 = "put_balance (h2a victim) (balance_of (h2a victim) ?s1 - n) ?s1"
  have "SN_TransferSINAR (h2a thief) (h2a victim) (- n) ?s = Returns (None, ?s2)"
    using assms(5) by (simp add: Transfer_free [OF assms(1)] Let_def)
  moreover have "SN_calculateTotalSINARSupply ?s2 = SN_calculateTotalSINARSupply ?s"
    using assms(3) sinar.transfer_supply [OF assms(2), of "h2a victim" "h2a thief" "- n"] by simp
  ultimately show ?thesis using assms(3)
    by (intro exI [of _ ?s2]) (simp add: API_transferSINAR_def on_state_def SetString_String)
qed

theorem api_transfer_takes_witness:
  "\<exists>s. API_transferSINAR (\<lambda>t. if t = ''me'' then 7 else 8)
      (Some \<lparr>tr_From = ''me'', tr_To = ''you'', tr_Amount = int_String (- 50)\<rparr>) some_api =
      answer (Fields [(''success'', Flag True), (''from'', Text ''me''), (''to'', Text ''you''),
        (''amount'', Text (int_String (- 50)))]) (some_api\<lparr>api_stateDB := s\<rparr>) \<and>
    balance_of 7 s = 50 \<and> balance_of 8 s = - 50"
proof -
  have z: "balance_of a NewStateDB = 0" for a
    by (simp add: balance_of_def account_of_def NewStateDB_def new_account_def)
  have "sd_mu NewStateDB = unlocked" "accounts_ok NewStateDB"
    by (simp_all add: NewStateDB_def accounts_ok_def wf_gomap_def)
  then show ?thesis
    using api_transfer_takes [of some_api "\<lambda>t. if t = ''me'' then 7 else 8" "''me''" "''you''" 50] by (auto simp: z)
qed

end
