(* ===== verification/Api_Routes.thy ===== *)
theory Api_Routes
  imports Api_Spec
begin

text \<open>
  \<open>setupRoutes\<close>: the routes of the interface, each with its method and path, and the handler behind it. A
  constructor carries what the router and the decoder yield for its handler: the variables of the path, the
  query, or the body.
\<close>

datatype api_route =
  Blockchain_info
| Blockchain_blocks
| Blockchain_block string
| Blockchain_transaction string
| Validators
| Validators_register "register_request option"
| Validators_unregister
| Validators_stake
| Staking_info
| Staking_delegate "delegate_request option"
| Staking_undelegate
| Account string
| Account_balance string
| Account_transactions string
| Network_peers
| Network_stats
| Evm_contract string
| Evm_call string
| Evm_deploy
| Sinar_info
| Sinar_balance string
| Sinar_transfer "transfer_request option"
| Sinar_price
| Sinar_supply
| Sinar_distribution
| Sinar_initialize
| Mobile_setup "setup_request option"
| Mobile_status string
| Mobile_quick "quick_request option"

fun route_pattern :: "api_route \<Rightarrow> string \<times> string" where
  "route_pattern Blockchain_info = (''GET'', ''/api/v1/blockchain/info'')"
| "route_pattern Blockchain_blocks = (''GET'', ''/api/v1/blockchain/blocks'')"
| "route_pattern (Blockchain_block n) = (''GET'', ''/api/v1/blockchain/blocks/'' @ n)"
| "route_pattern (Blockchain_transaction h) = (''GET'', ''/api/v1/blockchain/transactions/'' @ h)"
| "route_pattern Validators = (''GET'', ''/api/v1/validators'')"
| "route_pattern (Validators_register b) = (''POST'', ''/api/v1/validators/register'')"
| "route_pattern Validators_unregister = (''POST'', ''/api/v1/validators/unregister'')"
| "route_pattern Validators_stake = (''POST'', ''/api/v1/validators/stake'')"
| "route_pattern Staking_info = (''GET'', ''/api/v1/staking/info'')"
| "route_pattern (Staking_delegate b) = (''POST'', ''/api/v1/staking/delegate'')"
| "route_pattern Staking_undelegate = (''POST'', ''/api/v1/staking/undelegate'')"
| "route_pattern (Account a) = (''GET'', ''/api/v1/accounts/'' @ a)"
| "route_pattern (Account_balance a) = (''GET'', ''/api/v1/accounts/'' @ a @ ''/balance'')"
| "route_pattern (Account_transactions a) = (''GET'', ''/api/v1/accounts/'' @ a @ ''/transactions'')"
| "route_pattern Network_peers = (''GET'', ''/api/v1/network/peers'')"
| "route_pattern Network_stats = (''GET'', ''/api/v1/network/stats'')"
| "route_pattern (Evm_contract a) = (''GET'', ''/api/v1/evm/contracts/'' @ a)"
| "route_pattern (Evm_call a) = (''POST'', ''/api/v1/evm/contracts/'' @ a @ ''/call'')"
| "route_pattern Evm_deploy = (''POST'', ''/api/v1/evm/contracts/deploy'')"
| "route_pattern Sinar_info = (''GET'', ''/api/v1/sinar/info'')"
| "route_pattern (Sinar_balance a) = (''GET'', ''/api/v1/sinar/balance/'' @ a)"
| "route_pattern (Sinar_transfer b) = (''POST'', ''/api/v1/sinar/transfer'')"
| "route_pattern Sinar_price = (''GET'', ''/api/v1/sinar/price'')"
| "route_pattern Sinar_supply = (''GET'', ''/api/v1/sinar/supply'')"
| "route_pattern Sinar_distribution = (''GET'', ''/api/v1/sinar/distribution'')"
| "route_pattern Sinar_initialize = (''POST'', ''/api/v1/sinar/initialize'')"
| "route_pattern (Mobile_setup b) = (''POST'', ''/api/v1/mobile/validator/setup'')"
| "route_pattern (Mobile_status d) = (''GET'', ''/api/v1/mobile/validator/status'')"
| "route_pattern (Mobile_quick b) = (''POST'', ''/api/v1/mobile/staking/quick'')"

text \<open>What one request meets outside the program: the address coder, the key generator, the heap, the clock.\<close>

record api_env =
  en_HexToAddress :: "string \<Rightarrow> address"
  en_AddressHex :: "address \<Rightarrow> string"
  en_PubkeyToAddress :: "public_key \<Rightarrow> address"
  en_key :: "private_key option"
  en_object :: vref
  en_now :: instant

fun API_setupRoutes :: "api_env \<Rightarrow> api_route \<Rightarrow> 'st handler" where
  "API_setupRoutes en Blockchain_info = API_getBlockchainInfo"
| "API_setupRoutes en Blockchain_blocks = API_getBlocks"
| "API_setupRoutes en (Blockchain_block n) = API_getBlock"
| "API_setupRoutes en (Blockchain_transaction h) = API_getTransaction"
| "API_setupRoutes en Validators = API_getValidators"
| "API_setupRoutes en (Validators_register b) =
     API_registerValidator (en_HexToAddress en) (en_key en) (en_object en) (en_now en) b"
| "API_setupRoutes en Validators_unregister = API_unregisterValidator"
| "API_setupRoutes en Validators_stake = API_updateStake"
| "API_setupRoutes en Staking_info = API_getStakingInfo"
| "API_setupRoutes en (Staking_delegate b) = API_delegate (en_HexToAddress en) b"
| "API_setupRoutes en Staking_undelegate = API_undelegate"
| "API_setupRoutes en (Account a) = API_getAccount"
| "API_setupRoutes en (Account_balance a) = API_getBalance"
| "API_setupRoutes en (Account_transactions a) = API_getTransactions"
| "API_setupRoutes en Network_peers = API_getPeers"
| "API_setupRoutes en Network_stats = API_getNetworkStats"
| "API_setupRoutes en (Evm_contract a) = API_getContract"
| "API_setupRoutes en (Evm_call a) = API_callContract"
| "API_setupRoutes en Evm_deploy = API_deployContract"
| "API_setupRoutes en Sinar_info = API_getSINARInfo"
| "API_setupRoutes en (Sinar_balance a) = API_getSINARBalance (en_HexToAddress en) a"
| "API_setupRoutes en (Sinar_transfer b) = API_transferSINAR (en_HexToAddress en) b"
| "API_setupRoutes en Sinar_price = API_getSINARPrice"
| "API_setupRoutes en Sinar_supply = API_getSINARSupply"
| "API_setupRoutes en Sinar_distribution = API_getSINARDistribution"
| "API_setupRoutes en Sinar_initialize = API_initializeSINAR"
| "API_setupRoutes en (Mobile_setup b) = API_setupMobileValidator (en_HexToAddress en) (en_AddressHex en)
     (en_PubkeyToAddress en) (en_key en) (en_object en) (en_now en) b"
| "API_setupRoutes en (Mobile_status d) = API_getMobileValidatorStatus d"
| "API_setupRoutes en (Mobile_quick b) = API_quickStaking (en_now en) b"

text \<open>A request as the router hands it on: with the route's own method, through the middleware, to the handler.\<close>

definition API_request :: "api_env \<Rightarrow> string \<Rightarrow> api_route \<Rightarrow> 'st handler" where
  "API_request en remoteAddr r = API_serve (fst (route_pattern r)) remoteAddr (en_now en) (API_setupRoutes en r)"

section \<open>What a request can change\<close>

text \<open>A request's effect: on the state, at most one call of the \<open>StateDB\<close>; on the engine, a registration.\<close>

definition state_effect :: "state_db \<Rightarrow> state_db \<Rightarrow> bool" where
  "state_effect s s' \<longleftrightarrow> s' = s \<or> (\<exists>a. SD_GetAccount a s = Returns (account_of a s, s')) \<or>
     (\<exists>a b n err. SN_TransferSINAR a b n s = Returns (err, s')) \<or>
     (\<exists>err. SN_InitializeSINARDistribution s = Returns (err, s'))"

definition engine_effect :: "(string \<Rightarrow> address) \<Rightarrow> 'st consensus_engine \<Rightarrow> 'st consensus_engine \<Rightarrow> bool" where
  "engine_effect h2a ce ce' \<longleftrightarrow> ce' = ce \<or>
     (\<exists>v x r. CE_AddValidator h2a v (ce\<lparr>ce_validatorSet :=
        (ce_validatorSet ce)\<lparr>vs_heap := (vs_heap (ce_validatorSet ce))(v := x)\<rparr>\<rparr>) = Returns (r, ce'))"

text \<open>
  Every mutex that a handler takes is free, with no writer and no reader: the limiter's, the engine's, the
  validator set's, the poset's, the network manager's and the \<open>StateDB\<close>'s (\<open>no_validators\<close> says it of the last one, and
  that nobody is a validator there).
\<close>

definition api_idle :: "'st api_server \<Rightarrow> bool" where
  "api_idle api \<longleftrightarrow> api_mu api = unlocked \<and> api_version api = ''1.0.0'' \<and> registry_free api \<and>
     p_mu (ce_poset (api_consensusEngine api)) = unlocked \<and>
     no_validators (api_stateDB api) \<and> nm_mu (api_networkManager api) = unlocked"

definition request_effect :: "(string \<Rightarrow> address) \<Rightarrow> 'st api_server \<Rightarrow> 'st api_server \<Rightarrow> bool" where
  "request_effect h2a api api' \<longleftrightarrow> state_effect (api_stateDB api) (api_stateDB api') \<and>
     engine_effect h2a (api_consensusEngine api) (api_consensusEngine api') \<and>
     api_networkManager api' = api_networkManager api \<and> api_mu api' = api_mu api \<and> api_version api' = api_version api"

named_theorems api_reads "what the queries of the components return on an idle server"

lemma idle_total_stake [api_reads]: "api_idle api \<Longrightarrow> on_state SD_GetTotalStake api = Returns (0, api)"
proof -
  assume "api_idle api"
  then have "sd_mu (api_stateDB api) = unlocked" "sd_validators (api_stateDB api) = []"
    by (simp_all add: api_idle_def no_validators_def)
  then have "SD_GetTotalStake (api_stateDB api) = Returns (0, api_stateDB api)"
    unfolding SD_GetTotalStake_def by (subst sd_mutex.RLock_pure_read) (simp_all add: unlocked_def)
  then show ?thesis by (simp add: on_state_def)
qed

lemma idle_validators [api_reads]:
  "api_idle api \<Longrightarrow> on_engine CE_GetValidators api =
     Returns (fold (\<lambda>(a, v). go_put a v) (ce_validators (api_consensusEngine api)) [], api)"
  by (simp add: api_idle_def on_engine_def CE_GetValidators_free)

lemma idle_latest_block [api_reads]:
  "api_idle api \<Longrightarrow> on_engine CE_GetLatestBlock api =
     Returns (let P = ce_poset (api_consensusEngine api) in
       if p_LastBlock P = 0 then None else go_get (p_Blocks P) (p_LastBlock P), api)"
  by (simp add: api_idle_def on_engine_def CE_GetLatestBlock_def GetLatestBlock_free unlocked_def Let_def)

lemma idle_peers [api_reads]: "api_idle api \<Longrightarrow> \<exists>peers. on_network NM_GetPeers api = Returns (peers, api)"
  by (simp add: api_idle_def on_network_def NM_GetPeers_def nm_read)

lemma idle_network_stats [api_reads]:
  "api_idle api \<Longrightarrow> \<exists>stats. on_network NM_GetNetworkStats api = Returns (stats, api)"
  by (simp add: api_idle_def on_network_def NM_GetNetworkStats_def nm_read Let_def)

lemma idle_delegate [api_reads]:
  "api_idle api \<Longrightarrow> on_state (SD_Delegate d v n) api = Returns (Some ''validator not found or inactive'', api)"
  by (simp add: api_idle_def no_validators_def on_state_def Delegate_no_validator)

lemma state_effect_same [simp]: "state_effect s s"
  by (simp add: state_effect_def)

lemma request_effect_same [simp]: "request_effect h2a api api"
  by (simp add: request_effect_def engine_effect_def)

lemma enrol_effect:
  assumes "registry_free api"
  shows "request_effect h2a api (enrolled (h2a '''') v (NewValidator vid key stake now) api)"
proof -
  have "engine_effect h2a (api_consensusEngine api)
      (api_consensusEngine (enrolled (h2a '''') v (NewValidator vid key stake now) api))"
    unfolding engine_effect_def using assms
    by (intro disjI2 exI [of _ v] exI [of _ "NewValidator vid key stake now"] exI [of _ None])
       (simp add: CE_AddValidator_free enrolled_def new_object_def NewValidator_def Let_def)
  then show ?thesis by (simp add: request_effect_def) (simp add: enrolled_def new_object_def Let_def)
qed

lemmas read_only_handlers =
  API_getBlockchainInfo_def API_getBlocks_def API_getBlock_def API_getTransaction_def API_getValidators_def
  API_unregisterValidator_def API_updateStake_def API_getStakingInfo_def API_delegate_def API_undelegate_def
  API_getAccount_def API_getBalance_def API_getTransactions_def API_getContract_def API_callContract_def
  API_deployContract_def API_getSINARInfo_def API_getSINARPrice_def API_getSINARSupply_def
  API_getSINARDistribution_def API_getMobileValidatorStatus_def API_quickStaking_def

text \<open>All but five handlers leave the server as it is (a delegation because it is refused).\<close>

fun changes_state :: "api_route \<Rightarrow> bool" where
  "changes_state (Validators_register b) = True"
| "changes_state (Sinar_balance a) = True"
| "changes_state (Sinar_transfer b) = True"
| "changes_state Sinar_initialize = True"
| "changes_state (Mobile_setup b) = True"
| "changes_state r = False"

lemma handler_reads:
  assumes idle: "api_idle api" and "\<not> changes_state r"
  shows "\<exists>resp. API_setupRoutes en r api = Returns (resp, api)"
proof (cases r)
  case Network_peers
  then show ?thesis using idle_peers [OF idle] by (auto simp: API_getPeers_def)
next
  case Network_stats
  then show ?thesis using idle_network_stats [OF idle] by (auto simp: API_getNetworkStats_def)
qed (use assms(2) in \<open>simp_all add: read_only_handlers api_reads [OF idle] Let_def split: option.split prod.split\<close>)

lemma handler_effect:
  assumes idle: "api_idle api" and key: "en_key en = Some key"
  shows "\<exists>resp api'. API_setupRoutes en r api = Returns (resp, api') \<and> request_effect (en_HexToAddress en) api api'"
proof (cases "changes_state r")
  case False
  then show ?thesis using handler_reads [OF idle False, of en] by auto
next
  case True
  have free: "sd_mu (api_stateDB api) = unlocked" and mu: "registry_free api"
    using idle by (simp_all add: api_idle_def no_validators_def)
  show ?thesis using True
  proof (cases r rule: changes_state.cases)
    case (2 a)
    have "SD_GetAccount (en_HexToAddress en a) (api_stateDB api) =
        Returns (account_of (en_HexToAddress en a) (api_stateDB api), with_account (en_HexToAddress en a) (api_stateDB api))"
      by (rule GetAccount_free [OF free])
    then show ?thesis
      by (auto simp: 2 API_getSINARBalance_def on_state_def GetSINARBalance_free [OF free] request_effect_def
          state_effect_def engine_effect_def)
  next
    case (3 b)
    then show ?thesis
      by (auto simp: API_transferSINAR_def on_state_def Transfer_free [OF free] request_effect_def
          state_effect_def engine_effect_def Let_def split: option.split)
  next
    case 4
    then show ?thesis
      by (auto simp: API_initializeSINAR_def on_state_def Initialize_free [OF free] request_effect_def
          state_effect_def engine_effect_def Let_def)
  qed (auto simp: API_registerValidator_def API_setupMobileValidator_def key enrol_call [OF mu] enrol_effect [OF mu]
      Let_def split: option.split)
qed

text \<open>The middleware in front: the limiter changes its own table only.\<close>

lemma request_effect_requests:
  "request_effect h2a (api\<lparr>api_requests := t\<rparr>) api' = request_effect h2a api api'"
  by (simp add: request_effect_def)

lemma request_returns:
  assumes idle: "api_idle api" and key: "en_key en = Some key"
  shows "\<exists>resp api'. API_request en remoteAddr r api = Returns (resp, api') \<and>
    request_effect (en_HexToAddress en) api api'"
proof -
  have mu: "api_mu api = unlocked" using idle by (simp add: api_idle_def)
  have idle': "api_idle (api\<lparr>api_requests := t\<rparr>)" for t using idle by (simp add: api_idle_def)
  have verb: "fst (route_pattern r) \<noteq> ''OPTIONS''" by (cases r) simp_all
  show ?thesis
    using handler_effect [OF idle' key, where r = r] handler_effect [OF idle key, of r] verb
    by (auto simp: API_request_def API_serve_def API_corsMiddleware_def API_rateLimitMiddleware_def
        rateLimit_free [OF mu] Let_def request_effect_requests)
qed

lemma state_effect_no_validators: "state_effect s s' \<Longrightarrow> no_validators s \<Longrightarrow> no_validators s'"
  by (auto simp: state_effect_def no_validators_def GetAccount_free Transfer_free Initialize_free fold_put_mu Let_def
      split: if_splits)

lemma engine_effect_fields:
  assumes "engine_effect h2a ce ce'" and "ce_mu ce = unlocked" and "vs_mu (ce_validatorSet ce) = unlocked"
  shows "\<exists>m vs. ce' = ce\<lparr>ce_validators := m, ce_validatorSet := vs\<rparr> \<and> vs_mu vs = unlocked"
  using assms(1) unfolding engine_effect_def
proof
  assume "ce' = ce"
  then show ?thesis using assms(3) by (intro exI [of _ "ce_validators ce"] exI [of _ "ce_validatorSet ce"]) simp
next
  assume "\<exists>v x r. CE_AddValidator h2a v (ce\<lparr>ce_validatorSet := (ce_validatorSet ce)\<lparr>vs_heap :=
    (vs_heap (ce_validatorSet ce))(v := x)\<rparr>\<rparr>) = Returns (r, ce')"
  then obtain v x r where *: "CE_AddValidator h2a v (ce\<lparr>ce_validatorSet := (ce_validatorSet ce)\<lparr>vs_heap :=
    (vs_heap (ce_validatorSet ce))(v := x)\<rparr>\<rparr>) = Returns (r, ce')" by blast
  have "ce' = ce\<lparr>ce_validators := ce_validators ce', ce_validatorSet := ce_validatorSet ce'\<rparr> \<and>
      vs_mu (ce_validatorSet ce') = unlocked"
    using * assms(2,3) by (auto simp: CE_AddValidator_free)
  then show ?thesis by blast
qed

lemma request_idle:
  assumes "request_effect h2a api api'" and idle: "api_idle api"
  shows "api_idle api'"
proof -
  have mu: "ce_mu (api_consensusEngine api) = unlocked" "vs_mu (ce_validatorSet (api_consensusEngine api)) = unlocked"
    using idle by (simp_all add: api_idle_def)
  obtain m vs where "api_consensusEngine api' = (api_consensusEngine api)\<lparr>ce_validators := m, ce_validatorSet := vs\<rparr>"
    "vs_mu vs = unlocked"
    using assms(1) engine_effect_fields [OF _ mu] unfolding request_effect_def by metis
  then show ?thesis using assms state_effect_no_validators by (auto simp: api_idle_def request_effect_def)
qed

section \<open>Sequences of requests\<close>

text \<open>Each request with its environment, its remote address and its route.\<close>

fun serve_all :: "(api_env \<times> string \<times> api_route) list \<Rightarrow> 'st api_server \<Rightarrow> (api_response list \<times> 'st api_server) outcome" where
  "serve_all [] api = Returns ([], api)"
| "serve_all ((en, remoteAddr, r) # rs) api =
     and_then (API_request en remoteAddr r api) (\<lambda>(resp, api1).
     and_then (serve_all rs api1) (\<lambda>(resps, api2). Returns (resp # resps, api2)))"

lemma serve_all_idle:
  "api_idle api \<Longrightarrow> (\<And>en a r. (en, a, r) \<in> set rs \<Longrightarrow> en_key en \<noteq> None) \<Longrightarrow>
     \<exists>resps api'. serve_all rs api = Returns (resps, api') \<and> api_idle api' \<and> length resps = length rs"
proof (induction rs arbitrary: api)
  case Nil
  then show ?case by simp
next
  case (Cons q rs)
  obtain en a r where q: "q = (en, a, r)" by (cases q)
  then obtain key where "en_key en = Some key" using Cons.prems(2) [of en a r] by auto
  then obtain resp api1 where 1: "API_request en a r api = Returns (resp, api1)"
    and "request_effect (en_HexToAddress en) api api1"
    using request_returns [OF Cons.prems(1)] by metis
  then have "api_idle api1" using request_idle [OF _ Cons.prems(1)] by blast
  then obtain resps api2 where "serve_all rs api1 = Returns (resps, api2)" "api_idle api2" "length resps = length rs"
    using Cons.IH [of api1] Cons.prems(2) by (metis list.set_intros(2))
  then show ?case by (auto simp: q 1)
qed

lemma new_api_idle:
  assumes "NewNetworkManager host d = Inr network"
  shows "api_idle (NewAPIServer (NewConsensusEngine now heap vheap config) network NewStateDB port)"
  using assms by (auto simp: api_idle_def NewAPIServer_def NewConsensusEngine_def no_validators_def NewStateDB_def
      NewNetworkManager_def NewPoset_def NewValidatorSet_def dag.defs unlocked_def split: sum.splits)

text \<open>
  C14. Every request is answered. Take a newly composed server and any sequence of requests to any of its routes,
  with any bodies, as long as the key generator works. None of the calls blocks on a mutex and none panics:
  there is one response per request, and at the end every mutex that a handler takes is free again, of
  writers and of readers: the limiter's, the engine's, the validator set's, the poset's, the network manager's and the
  \<open>StateDB\<close>'s.
\<close>

theorem every_request_answered:
  assumes "NewNetworkManager host d = Inr network"
    and "\<And>en a r. (en, a, r) \<in> set rs \<Longrightarrow> en_key en \<noteq> None"
  shows "\<exists>resps api. serve_all rs (NewAPIServer (NewConsensusEngine now heap vheap config) network NewStateDB port) =
      Returns (resps, api) \<and> length resps = length rs \<and> api_idle api"
  using serve_all_idle [OF new_api_idle [OF assms(1)], of rs] assms(2) by blast

definition some_env :: api_env where
  "some_env = \<lparr>en_HexToAddress = (\<lambda>_. 0), en_AddressHex = (\<lambda>_. []), en_PubkeyToAddress = (\<lambda>_. 0), en_key = Some some_key,
     en_object = 1, en_now = 5\<rparr>"

theorem every_request_answered_witness:
  "\<exists>resps api. serve_all [(some_env, ''10.0.0.1:4000'', Sinar_initialize), (some_env, ''10.0.0.1:4000'', Staking_delegate None)]
      (NewAPIServer (NewConsensusEngine 0 (\<lambda>_. zero_event) (\<lambda>_. chain_validator) some_config :: (address \<Rightarrow> int) consensus_engine)
        new_manager NewStateDB ''8080'') = Returns (resps, api) \<and> length resps = 2 \<and> api_idle api"
proof -
  have "NewNetworkManager (Inr ''self'') None = Inr new_manager" by (simp add: new_manager_def NewNetworkManager_def)
  note answered = every_request_answered [OF this, of "[(some_env, ''10.0.0.1:4000'', Sinar_initialize), (some_env, ''10.0.0.1:4000'', Staking_delegate None)]"
    0 "\<lambda>_. zero_event" "\<lambda>_. chain_validator" some_config "''8080''"]
  have "\<exists>resps api. serve_all [(some_env, ''10.0.0.1:4000'', Sinar_initialize), (some_env, ''10.0.0.1:4000'', Staking_delegate None)]
      (NewAPIServer (NewConsensusEngine 0 (\<lambda>_. zero_event) (\<lambda>_. chain_validator) some_config :: (address \<Rightarrow> int) consensus_engine)
        new_manager NewStateDB ''8080'') = Returns (resps, api) \<and>
      length resps = length [(some_env, ''10.0.0.1:4000'', Sinar_initialize), (some_env, ''10.0.0.1:4000'', Staking_delegate None)] \<and>
      api_idle api"
    by (rule answered) (auto simp: some_env_def)
  then show ?thesis by (simp add: numeral_2_eq_2 del: serve_all.simps)
qed

section \<open>The shape of the responses\<close>

text \<open>
  What a client can rely on: a success has status 200 and no error text, a failure the reverse and no data. The
  exception is \<open>/network/peers\<close>, whose success cannot be encoded when there is a peer: it is an empty body with
  status 200.
\<close>

definition unencodable :: "peer_info list \<Rightarrow> api_route \<Rightarrow> bool" where
  "unencodable peers r \<longleftrightarrow> r = Network_peers \<and> peers \<noteq> []"

definition response_ok :: "peer_info list \<Rightarrow> api_route \<Rightarrow> api_response \<Rightarrow> bool" where
  "response_ok peers r resp \<longleftrightarrow>
     (case ar_body resp of
        None \<Rightarrow> ar_status resp = 200 \<and> unencodable peers r
      | Some m \<Rightarrow>
          if am_success m then ar_status resp = 200 \<and> am_error m = '''' \<and> \<not> unencodable peers r
          else ar_status resp \<in> (if unencodable peers r then {429} else {400, 429, 500}) \<and>
            am_data m = No_data \<and> am_error m \<noteq> '''')"

lemma response_ok_answers [simp]:
  "json_encodable d \<Longrightarrow> response_ok peers r (API_sendResponse d '''' api) \<longleftrightarrow> \<not> unencodable peers r"
  "response_ok peers Network_peers (API_sendResponse (Peers_data peers) '''' api)"
  "response_ok peers r (API_sendErrorResponse m k api) \<longleftrightarrow>
     k \<in> (if unencodable peers r then {429} else {400, 429, 500}) \<and> m \<noteq> ''''"
  by (simp_all add: response_ok_def unencodable_def API_sendResponse_def API_sendErrorResponse_def json_Encode_def)

text \<open>No handler changes the table of peers.\<close>

definition peers_of :: "'st api_server \<Rightarrow> peer_info list" where
  "peers_of api = map snd (nm_peers (api_networkManager api))"

lemma peers_of_writes [simp]:
  "peers_of (api\<lparr>api_stateDB := s\<rparr>) = peers_of api" "peers_of (api\<lparr>api_consensusEngine := ce\<rparr>) = peers_of api"
  "peers_of (api\<lparr>api_requests := t\<rparr>) = peers_of api" "peers_of (set_api_mu m api) = peers_of api"
  "peers_of (new_object v x api) = peers_of api"
  by (simp_all add: peers_of_def set_api_mu_def new_object_def Let_def)


lemma peers_reads:
  "on_network NM_GetPeers api = Returns (peers, api') \<Longrightarrow> peers = peers_of api \<and> peers_of api' = peers_of api"
  "on_network NM_GetNetworkStats api = Returns (stats, api') \<Longrightarrow> peers_of api' = peers_of api"
  by (auto simp: on_network_def NM_GetPeers_def NM_GetNetworkStats_def with_RLock_def set_nm_mu_def peers_of_def
      and_then_Returns_iff Let_def)









text \<open>The request that gets nothing: the list of peers, on an idle server whose network has one.\<close>

lemma peers_answer_lost:
  assumes "api_idle api" and "peers_of api \<noteq> []"
  shows "API_getPeers api = Returns (\<lparr>ar_status = 200, ar_body = None\<rparr>, api)"
proof -
  obtain peers where "on_network NM_GetPeers api = Returns (peers, api)" using idle_peers [OF assms(1)] by blast
  then show ?thesis using assms(2) peers_reads(1)
    by (fastforce simp: API_getPeers_def API_sendResponse_def json_Encode_def)
qed




end
