(* ===== verification/Go_Float64_Wide.thy ===== *)
theory Go_Float64_Wide
  imports Go_Float64_Sums
begin

text \<open>
  \<open>float64\<close> arithmetic over the whole range, for the variance of \<open>finality.go\<close>, whose squares pass \<open>2 ^ 53\<close>: every
  result is rounded to 53 bits, ties to even, and a result of \<open>2 ^ 1024\<close> or more is infinite. Values below the
  normal range do not arise from quotients of 64-bit numbers. A difference is only squared in the program, so its
  absolute value is kept: rounding is symmetric, so the squares agree. Each operation rounds, as on amd64; Go may fuse a
  product and a sum on other machines.
\<close>

text \<open>How far \<open>a / b\<close> has to be scaled down to have at most 53 bits.\<close>

function down_shift :: "nat \<Rightarrow> nat \<Rightarrow> nat" where
  "down_shift a b = (if b = 0 \<or> a < 2 ^ 53 * b then 0 else Suc (down_shift a (2 * b)))"
  by pat_completeness auto
termination
  by (relation "measure (\<lambda>(a, b). Suc a - b)") auto

declare down_shift.simps [simp del]

definition f64_round :: "nat \<Rightarrow> nat \<Rightarrow> f64" where
  "f64_round a b =
     (if a < 2 ^ 53 * b then f64_ratio a b
      else let k = down_shift a b; v = rne a (b * 2 ^ k) * 2 ^ k
           in if 2 ^ 1024 \<le> v then F64_Inf else F64 v 0)"

fun f64_plus :: "f64 \<Rightarrow> f64 \<Rightarrow> f64" where
  "f64_plus (F64 a i) (F64 b j) = f64_round (a * 2 ^ j + b * 2 ^ i) (2 ^ (i + j))"
| "f64_plus F64_NaN y = F64_NaN"
| "f64_plus x F64_NaN = F64_NaN"
| "f64_plus _ _ = F64_Inf"

fun f64_absdiff :: "f64 \<Rightarrow> f64 \<Rightarrow> f64" where
  "f64_absdiff (F64 a i) (F64 b j) =
     (let p = a * 2 ^ j; q = b * 2 ^ i in f64_round (if q \<le> p then p - q else q - p) (2 ^ (i + j)))"
| "f64_absdiff (F64 a i) F64_Inf = F64_Inf"
| "f64_absdiff F64_Inf (F64 b j) = F64_Inf"
| "f64_absdiff _ _ = F64_NaN"

fun f64_times :: "f64 \<Rightarrow> f64 \<Rightarrow> f64" where
  "f64_times (F64 a i) (F64 b j) = f64_round (a * b) (2 ^ (i + j))"
| "f64_times F64_Inf (F64 b j) = (if b = 0 then F64_NaN else F64_Inf)"
| "f64_times (F64 a i) F64_Inf = (if a = 0 then F64_NaN else F64_Inf)"
| "f64_times F64_Inf F64_Inf = F64_Inf"
| "f64_times _ _ = F64_NaN"

fun f64_quot :: "f64 \<Rightarrow> f64 \<Rightarrow> f64" where
  "f64_quot (F64 a i) (F64 b j) =
     (if b = 0 then (if a = 0 then F64_NaN else F64_Inf) else f64_round (a * 2 ^ j) (b * 2 ^ i))"
| "f64_quot F64_Inf (F64 b j) = F64_Inf"
| "f64_quot (F64 a i) F64_Inf = F64 0 0"
| "f64_quot _ _ = F64_NaN"

section \<open>Exact integers\<close>

lemma f64_round_exact:
  assumes "a = n * b" and "0 < b" and "n < 2 ^ 53"
  shows "f64_is (f64_round a b) n"
proof -
  have "a < 2 ^ 53 * b" using assms by simp
  then show ?thesis using f64_ratio_exact [OF assms(1,2)] by (simp add: f64_round_def)
qed

lemma f64_is_plus:
  assumes "f64_is x n" and "f64_is y m" and "n + m < 2 ^ 53"
  shows "f64_is (f64_plus x y) (n + m)"
proof -
  obtain i j where e: "x = F64 (n * 2 ^ i) i" "y = F64 (m * 2 ^ j) j" using assms by (elim f64_isE) blast
  show ?thesis unfolding e f64_plus.simps
    by (rule f64_round_exact) (use assms(3) in \<open>simp_all add: power_add algebra_simps\<close>)
qed

lemma f64_is_quot:
  assumes "f64_is x (n * m)" and "f64_is y m" and "0 < m" and "n < 2 ^ 53"
  shows "f64_is (f64_quot x y) n"
proof -
  obtain i j where e: "x = F64 (n * m * 2 ^ i) i" "y = F64 (m * 2 ^ j) j" using assms(1,2) by (elim f64_isE) blast
  have "f64_is (f64_round (n * m * 2 ^ i * 2 ^ j) (m * 2 ^ j * 2 ^ i)) n"
    using assms(3,4) by (intro f64_round_exact) simp_all
  then show ?thesis using assms(3) by (simp add: e)
qed

lemma f64_is_absdiff_same:
  assumes "f64_is x n" and "f64_is y n"
  shows "f64_is (f64_absdiff x y) 0"
proof -
  obtain i j where e: "x = F64 (n * 2 ^ i) i" "y = F64 (n * 2 ^ j) j" using assms by (elim f64_isE) blast
  have "f64_is (f64_round 0 (2 ^ (i + j))) 0" by (rule f64_round_exact) simp_all
  then show ?thesis by (simp add: e ac_simps)
qed

lemma f64_is_square_zero:
  assumes "f64_is x 0"
  shows "f64_is (f64_times x x) 0"
proof -
  obtain i where "x = F64 0 i" using assms by (elim f64_isE) simp
  moreover have "f64_is (f64_round 0 (2 ^ (i + i))) 0" by (rule f64_round_exact) simp_all
  ultimately show ?thesis by simp
qed

lemma f64_is_sum_zeros:
  assumes "\<And>t. t \<in> set ts \<Longrightarrow> f64_is (g t) 0" and "f64_is s 0"
  shows "f64_is (foldl (\<lambda>s t. f64_plus s (g t)) s ts) 0"
  using assms
proof (induction ts arbitrary: s)
  case (Cons t ts)
  have "f64_is (f64_plus s (g t)) (0 + 0)" using Cons.prems by (intro f64_is_plus) auto
  then show ?case using Cons by simp
qed simp

lemma f64_is_sum_const:
  assumes "f64_is v n" and "f64_is s k" and "k + length ts * n < 2 ^ 53"
  shows "f64_is (foldl (\<lambda>s t. f64_plus s v) s ts) (k + length ts * n)"
  using assms(2,3)
proof (induction ts arbitrary: s k)
  case (Cons t ts)
  have "f64_is (f64_plus s v) (k + n)" using Cons.prems assms(1) by (intro f64_is_plus) auto
  then show ?case using Cons.IH [of "f64_plus s v" "k + n"] Cons.prems(2) by (simp add: ac_simps)
qed simp

end
