(* ===== verification/Finality_Queries.thy ===== *)
theory Finality_Queries
  imports Finality Go_Float64_Wide
begin

text \<open>
  The statistics of \<open>finality.go\<close>: agreement on the time of an event, the counts of finalised events, and the
  figures of the cache (\<open>consensus.go\<close>), which \<open>GetFinalityStats\<close> copies.
\<close>

section \<open>Cache figures\<close>

record cache_stats =
  cst_event_cache_size :: nat
  cst_vote_cache_size :: nat
  cst_consensus_cache_size :: nat
  cst_state_cache_size :: nat
  cst_cache_hits :: u64
  cst_cache_misses :: u64
  cst_hit_rate :: f64
  cst_max_cache_size :: int

text \<open>The counters are signed in the code; the quotient below is its value while they are below \<open>2 ^ 63\<close>.\<close>

definition CM_GetCacheStats :: "cache_manager \<Rightarrow> cache_stats" where
  "CM_GetCacheStats cm =
     (let hits = cm_cacheHits cm; misses = cm_cacheMisses cm; total = hits + misses;
          hitRate = (if 0 < sint total then f64_div (f64_of_u64 hits) (f64_of_u64 total) else F64 0 0)
      in \<lparr>cst_event_cache_size = length (cm_eventCache cm), cst_vote_cache_size = length (cm_voteCache cm),
          cst_consensus_cache_size = length (cm_consensusCache cm), cst_state_cache_size = length (cm_stateCache cm),
          cst_cache_hits = hits, cst_cache_misses = misses, cst_hit_rate = hitRate,
          cst_max_cache_size = cm_maxCacheSize cm\<rparr>)"

section \<open>Time consensus\<close>

record time_consensus =
  tc_EventID :: event_id
  tc_WitnessTimes :: "u64 list"
  tc_MedianTime :: u64
  tc_ConsensusReached :: bool
  tc_TimeVariance :: f64
  tc_ConsensusCount :: nat

text \<open>The variance of the times, term by term as the loops compute it.\<close>

definition FE_time_variance :: "u64 list \<Rightarrow> f64" where
  "FE_time_variance witnessTimes =
     (if length witnessTimes > 1
      then let n = f64_of_nat (length witnessTimes);
               sum = foldl (\<lambda>s t. f64_plus s (f64_of_u64 t)) (F64 0 0) witnessTimes;
               mean = f64_quot sum n;
               sumSq = foldl (\<lambda>s t. let diff = f64_absdiff (f64_of_u64 t) mean in f64_plus s (f64_times diff diff))
                 (F64 0 0) witnessTimes
           in f64_quot sumSq n
      else F64 0 0)"

definition FE_GetTimeConsensus :: "crypto \<Rightarrow> eref \<Rightarrow> 'a dag_scheme \<Rightarrow> time_consensus" where
  "FE_GetTimeConsensus x p d =
     (let witnessTimes = map (\<lambda>q. ev_Lamport (d_heap d q))
            (filter (\<lambda>q. ev_IsFamous (d_heap d q) = Some True \<and> sees_event x d q p) (map snd (d_Events d)))
      in \<lparr>tc_EventID = hash_of x (d_heap d p), tc_WitnessTimes = witnessTimes,
          tc_MedianTime = FE_median witnessTimes, tc_ConsensusReached = (length witnessTimes > 0),
          tc_TimeVariance = FE_time_variance witnessTimes, tc_ConsensusCount = length witnessTimes\<rparr>)"

definition bump :: "'k \<Rightarrow> ('k, nat) gomap \<Rightarrow> ('k, nat) gomap" where
  "bump k m = go_put k (case go_get m k of None \<Rightarrow> 1 | Some n \<Rightarrow> n + 1) m"

record finality_stats =
  fs_total_finalized :: nat
  fs_finalized_by_round :: "(u64, nat) gomap"
  fs_finalized_by_creator :: "(string, nat) gomap"
  fs_finalized_by_time :: "(u64, nat) gomap"
  fs_avg_finalized_per_round :: f64
  fs_avg_finalized_per_creator :: f64
  fs_cache :: cache_stats
  fs_byzantine_threshold :: f64
  fs_min_atropos_count :: int
  fs_finality_delay :: u64

definition FE_GetFinalityStats :: "'a dag_scheme \<Rightarrow> finality_engine \<Rightarrow> finality_stats" where
  "FE_GetFinalityStats d fe =
     (let fin = map (d_heap d) (FE_GetFinalizedEvents d);
          by_round = fold (\<lambda>e. bump (ev_RoundReceived e)) fin [];
          by_creator = fold (\<lambda>e. bump (ev_CreatorID e)) fin [];
          by_time = fold (\<lambda>e. bump (ev_AtroposTime e)) fin []
      in \<lparr>fs_total_finalized = length fin, fs_finalized_by_round = by_round,
          fs_finalized_by_creator = by_creator, fs_finalized_by_time = by_time,
          fs_avg_finalized_per_round = (if length fin > 0
            then f64_div (f64_of_nat (length fin)) (f64_of_nat (length by_round)) else F64 0 0),
          fs_avg_finalized_per_creator = (if length fin > 0
            then f64_div (f64_of_nat (length fin)) (f64_of_nat (length by_creator)) else F64 0 0),
          fs_cache = CM_GetCacheStats (fe_cacheManager fe), fs_byzantine_threshold = fe_byzantineThreshold fe,
          fs_min_atropos_count = fe_minAtroposCount fe, fs_finality_delay = fe_finalityDelay fe\<rparr>)"

section \<open>Results\<close>

lemma variance_const:
  assumes "\<forall>u \<in> set ts. u = t" and "length ts * unat t < 2 ^ 53"
  shows "f64_is (FE_time_variance ts) 0"
proof (cases "length ts > 1")
  case True
  let ?n = "f64_of_nat (length ts)" and ?v = "f64_of_u64 t"
  have ts: "ts = replicate (length ts) t" using assms(1) by (simp add: replicate_length_same)
  have "1 * unat t \<le> length ts * unat t" using True by (intro mult_le_mono) simp_all
  then have t: "unat t < 2 ^ 53" using assms(2) by linarith
  have "foldl (\<lambda>s u. f64_plus s (f64_of_u64 u)) (F64 0 0) ts = foldl (\<lambda>s u. f64_plus s ?v) (F64 0 0) ts"
    using assms(1) by (intro foldl_cong) simp_all
  moreover have "f64_is (foldl (\<lambda>s u. f64_plus s ?v) (F64 0 0) ts) (0 + length ts * unat t)"
    by (rule f64_is_sum_const [OF f64_is_u64 [OF t]]) (use assms(2) in \<open>simp_all add: f64_is_def\<close>)
  ultimately have sum: "f64_is (foldl (\<lambda>s u. f64_plus s (f64_of_u64 u)) (F64 0 0) ts) (unat t * length ts)"
    by (simp add: mult.commute)
  define mean where "mean = f64_quot (foldl (\<lambda>s u. f64_plus s (f64_of_u64 u)) (F64 0 0) ts) ?n"
  have mean: "f64_is mean (unat t)"
    unfolding mean_def using True t by (intro f64_is_quot [OF sum f64_is_of_nat]) auto
  have "f64_is (foldl (\<lambda>s u. f64_plus s (f64_times (f64_absdiff (f64_of_u64 u) mean) (f64_absdiff (f64_of_u64 u) mean))) (F64 0 0) ts) 0"
    using assms(1) f64_is_absdiff_same [OF f64_is_u64 [OF t] mean]
    by (intro f64_is_sum_zeros) (auto intro: f64_is_square_zero, simp add: f64_is_def)
  then have "f64_is (f64_quot (foldl (\<lambda>s u. f64_plus s (f64_times (f64_absdiff (f64_of_u64 u) mean) (f64_absdiff (f64_of_u64 u) mean)))
      (F64 0 0) ts) ?n) 0"
    using True by (intro f64_is_quot [OF _ f64_is_of_nat]) auto
  then show ?thesis using True by (simp add: FE_time_variance_def Let_def mean_def)
next
  case False
  then show ?thesis by (auto simp: FE_time_variance_def f64_is_def)
qed

lemma median_const:
  assumes "\<forall>u \<in> set ts. u = t" and "ts \<noteq> []" and "t < 2 ^ 63"
  shows "go_median ts = t"
proof -
  have ts: "sort ts = replicate (length ts) t" using assms(1) by (metis replicate_length_same sort_replicate)
  have "(length ts - 1) div 2 < length ts" "length ts div 2 < length ts" using assms(2) by (cases ts; simp)+
  then show ?thesis using go_median_middle [OF assms(2)] assms(1,3) ts by (metis nth_replicate order_antisym)
qed

text \<open>
  Agreement. When the famous witnesses that see an event all give it the time \<open>t\<close>, the consensus time is \<open>t\<close>, the
  variance is zero and the consensus is reported as reached. It is reported as reached for a single witness too,
  whatever the number of witnesses.
\<close>

theorem time_consensus_agreement:
  assumes "(i, w) \<in> set (d_Events d)" and "ev_IsFamous (d_heap d w) = Some True" and "sees_event x d w p"
    and "\<And>q. q \<in> snd ` set (d_Events d) \<Longrightarrow> ev_IsFamous (d_heap d q) = Some True \<Longrightarrow> sees_event x d q p \<Longrightarrow>
      ev_Lamport (d_heap d q) = t"
    and "length (d_Events d) * unat t < 2 ^ 53"
  shows "tc_ConsensusReached (FE_GetTimeConsensus x p d) \<and> tc_MedianTime (FE_GetTimeConsensus x p d) = t \<and>
    f64_is (tc_TimeVariance (FE_GetTimeConsensus x p d)) 0"
proof -
  define ts where "ts = map (\<lambda>q. ev_Lamport (d_heap d q))
    (filter (\<lambda>q. ev_IsFamous (d_heap d q) = Some True \<and> sees_event x d q p) (map snd (d_Events d)))"
  have same: "\<forall>u \<in> set ts. u = t" using assms(4) by (auto simp: ts_def)
  have ne: "ts \<noteq> []" using assms(1,2,3) by (force simp: ts_def filter_empty_conv)
  have len: "length ts \<le> length (d_Events d)" unfolding ts_def length_map by (rule order_trans [OF length_filter_le]) simp
  have "length ts * unat t \<le> length (d_Events d) * unat t" using len by (rule mult_le_mono1)
  then have small: "length ts * unat t < 2 ^ 53" using assms(5) by linarith
  moreover have "1 * unat t \<le> length ts * unat t" using ne by (intro mult_le_mono) (cases ts; simp)+
  ultimately have "unat t < 2 ^ 53" by linarith
  then have "t < 2 ^ 63" by (simp add: word_less_nat_alt)
  then show ?thesis using median_const [OF same ne] variance_const [OF same small] ne
    by (simp add: FE_GetTimeConsensus_def Let_def FE_median_def flip: ts_def)
qed

end
