(* ===== verification/Statistics.thy ===== *)
theory Statistics
  imports Consensus_Engine State_Queries Finality_Queries
begin

text \<open>
  The statistics of the engine and of its parts: what \<open>GetConsensusStats\<close> collects. The maps that the code
  builds for display are records here; the figures of Go's runtime in \<open>GetMemoryStats\<close> are left out.
  \<open>h2h\<close> is \<open>Hash.Hex\<close>. The cache that \<open>Hash\<close> fills in a block is not written back.
\<close>

record memory_stats =
  mst_last_gc :: int
  mst_gc_threshold :: int
  mst_gc_interval :: int

definition MO_GetMemoryStats :: "memory_optimizer \<Rightarrow> memory_stats" where
  "MO_GetMemoryStats mo =
     \<lparr>mst_last_gc = mo_lastGC mo, mst_gc_threshold = mo_gcThreshold mo, mst_gc_interval = mo_gcInterval mo\<rparr>"

record parallel_stats =
  pst_event_workers :: int
  pst_consensus_workers :: int
  pst_running :: bool
  pst_event_queue_size :: nat
  pst_consensus_queue_size :: nat
  pst_results_queue_size :: nat

definition PP_GetStats :: "parallel_processor \<Rightarrow> parallel_stats" where
  "PP_GetStats pp =
     \<lparr>pst_event_workers = pp_eventWorkers pp, pst_consensus_workers = pp_consensusWorkers pp,
      pst_running = pp_running pp, pst_event_queue_size = length (ch_items (pp_eventQueue pp)),
      pst_consensus_queue_size = length (ch_items (pp_consensusQueue pp)),
      pst_results_queue_size = length (ch_items (pp_results pp))\<rparr>"

record latest_block_stats =
  lbs_hash :: string
  lbs_time :: int
  lbs_transactions :: nat
  lbs_events :: nat

record block_stats =
  bst_total_blocks :: nat
  bst_latest_block_number :: u64
  bst_latest_block :: "latest_block_stats option"

text \<open>The two calls take the read lock that is already held.\<close>

definition BC_GetBlockStats ::
  "block_crypto \<Rightarrow> (hash32 \<Rightarrow> string) \<Rightarrow> 'st blockchain \<Rightarrow> (block_stats \<times> 'st blockchain) outcome" where
  "BC_GetBlockStats x h2h = with_RLock bc_mu set_bc_mu (\<lambda>bc.
     and_then (BC_GetLatestBlockNumber bc) (\<lambda>(number, bc1).
     and_then (BC_GetLatestBlock bc1) (\<lambda>(latestBlock, bc2).
     Returns (\<lparr>bst_total_blocks = length (bc_blocks bc2), bst_latest_block_number = number,
       bst_latest_block = map_option (\<lambda>b. \<lparr>lbs_hash = h2h (fst (Block_Hash x b)), lbs_time = bh_CreatedAt (bk_Header b),
         lbs_transactions = length (bk_Transactions b), lbs_events = length (bk_Events b)\<rparr>) latestBlock\<rparr>, bc2))))"

record consensus_stats =
  css_total_events :: nat
  css_total_rounds :: nat
  css_fame_voting_stats :: vote_stats
  css_clotho_stats :: clotho_stats
  css_finality_stats :: finality_stats
  css_blockchain_stats :: block_stats
  css_state_stats :: state_stats
  css_cache_stats :: cache_stats
  css_memory_stats :: memory_stats
  css_parallel_stats :: parallel_stats

definition CE_GetConsensusStats ::
  "block_crypto \<Rightarrow> (hash32 \<Rightarrow> string) \<Rightarrow> 'st consensus_engine \<Rightarrow> (consensus_stats \<times> 'st consensus_engine) outcome" where
  "CE_GetConsensusStats x h2h ce =
     (let P = ce_poset ce; voteStats = FV_GetVoteStats (crypto.truncate x) P (ce_fameVoting ce) in
      and_then (CS_GetClothoStats (ce_clothoSelector ce)) (\<lambda>(clothoStats, cs).
      and_then (BC_GetBlockStats x h2h (ce_blockchain ce)) (\<lambda>(blockStats, bc).
      and_then (SD_GetStateStats (ce_stateDB ce)) (\<lambda>(stateStats, s).
      Returns (\<lparr>css_total_events = length (d_Events P), css_total_rounds = length (d_Rounds P),
        css_fame_voting_stats = voteStats, css_clotho_stats = clothoStats,
        css_finality_stats = FE_GetFinalityStats P (ce_finalityEngine ce), css_blockchain_stats = blockStats, css_state_stats = stateStats,
        css_cache_stats = CM_GetCacheStats (ce_cacheManager ce),
        css_memory_stats = MO_GetMemoryStats (ce_memoryOptimizer ce),
        css_parallel_stats = PP_GetStats (ce_parallelProcessor ce)\<rparr>,
        ce\<lparr>ce_clothoSelector := cs, ce_blockchain := bc, ce_stateDB := s\<rparr>)))))"

text \<open>A statistic reads: it returns when no writer holds a lock, and leaves the engine as it is.\<close>

lemma bc_read:
  assumes "\<not> rw_writer (bc_mu bc)" and "\<And>m. f (set_bc_mu m bc) = f bc"
  shows "with_RLock bc_mu set_bc_mu (\<lambda>b. Returns (f b, b)) bc = Returns (f bc, bc)"
  by (subst bc_mutex.RLock_pure_read) (simp_all add: assms)

lemma with_RLock_reads:
  assumes "mutex_field mu set_mu" and "\<not> rw_writer (mu s)"
    and "\<And>m. \<not> rw_writer m \<Longrightarrow> body (set_mu m s) = Returns (r, set_mu m s)"
  shows "with_RLock mu set_mu body s = Returns (r, s)"
  using assms(2,3) mutex_field.mu_set [OF assms(1)] mutex_field.set_mu_same [OF assms(1)]
    mutex_field.set_mu_twice [OF assms(1)]
  by (simp add: with_RLock_def rw_RLock_def rw_RUnlock_def)

lemma block_stats_reads:
  "\<not> rw_writer (bc_mu bc) \<Longrightarrow> BC_GetBlockStats x h2h bc =
     Returns (\<lparr>bst_total_blocks = length (bc_blocks bc), bst_latest_block_number = latest_number bc,
       bst_latest_block = map_option (\<lambda>b. \<lparr>lbs_hash = h2h (fst (Block_Hash x b)), lbs_time = bh_CreatedAt (bk_Header b),
         lbs_transactions = length (bk_Transactions b), lbs_events = length (bk_Events b)\<rparr>)
         (if bc_latest bc = 0 then None else go_get (bc_blocks bc) (bc_latest bc))\<rparr>, bc)"
  unfolding BC_GetBlockStats_def
  by (rule with_RLock_reads [OF bc_mutex.mutex_field_axioms], assumption)
     (simp add: BC_GetLatestBlockNumber_def BC_GetLatestBlock_def bc_read)

lemma consensus_stats_reads:
  assumes "\<not> rw_writer (cs_mu (ce_clothoSelector ce))" "\<not> rw_writer (bc_mu (ce_blockchain ce))"
    and "sd_mu (ce_stateDB ce) = unlocked"
  shows "\<exists>st. CE_GetConsensusStats x h2h ce = Returns (st, ce) \<and> css_total_events st = length (d_Events (ce_poset ce))"
proof -
  have "\<exists>st. CS_GetClothoStats (ce_clothoSelector ce) = Returns (st, ce_clothoSelector ce)"
    unfolding CS_GetClothoStats_def using assms(1) by (simp add: cs_mutex.RLock_pure_read)
  moreover have "\<exists>st. SD_GetStateStats (ce_stateDB ce) = Returns (st, ce_stateDB ce)"
    unfolding SD_GetStateStats_def Let_def using assms(3) by (simp add: sd_mutex.RLock_pure_read unlocked_def)
  ultimately show ?thesis by (auto simp: CE_GetConsensusStats_def Let_def block_stats_reads [OF assms(2)])
qed

end
