(* ===== verification/Node.thy ===== *)
theory Node
  imports Api_Routes Statistics
begin

text \<open>
  \<open>main.go\<close>: the node. How it composes its components, what it starts and stops, its statistics, the events of its
  performance tests, and the steps its goroutines take.

  The node and its API server point to the same engine, network manager and \<open>StateDB\<close>: each of these objects is
  kept once, in the server. \<open>SetNetwork\<close> gives the engine the same manager, so an accepted event is gossiped by
  it. The node's own blockchain, and the ones the engine holds, are different objects. Printing is left out.
\<close>

section \<open>State\<close>

record network_config =
  nc_Port :: string
  nc_ChainID :: u64
  nc_BlockTime :: int \<comment> \<open>nanoseconds\<close>
  nc_MaxValidators :: int
  nc_MinStake :: u64
  nc_GasLimit :: u64
  nc_BaseFee :: "int option"
  nc_EnableMobile :: bool
  nc_EnableWebSocket :: bool
  nc_LogLevel :: string

record node_metrics =
  mt_consensus :: "consensus_stats option"
  mt_network :: "network_report option"
  mt_uptime :: "int option"

record 'st sinar_network =
  scn_mu :: rwmutex
  scn_apiServer :: "'st api_server"
  scn_blockchain :: "'st blockchain"
  scn_config :: network_config
  scn_validators :: "(string, vref) gomap"
  scn_myValidator :: vref
  scn_cancelled :: bool
  scn_startTime :: instant
  scn_metrics :: node_metrics

definition scn_consensus :: "'st sinar_network \<Rightarrow> 'st consensus_engine" where
  "scn_consensus n = api_consensusEngine (scn_apiServer n)"

definition scn_network :: "'st sinar_network \<Rightarrow> network_manager" where
  "scn_network n = api_networkManager (scn_apiServer n)"

definition scn_stateDB :: "'st sinar_network \<Rightarrow> state_db" where
  "scn_stateDB n = api_stateDB (scn_apiServer n)"

definition set_consensus :: "'st consensus_engine \<Rightarrow> 'st sinar_network \<Rightarrow> 'st sinar_network" where
  "set_consensus ce n = n\<lparr>scn_apiServer := (scn_apiServer n)\<lparr>api_consensusEngine := ce\<rparr>\<rparr>"

definition set_network :: "network_manager \<Rightarrow> 'st sinar_network \<Rightarrow> 'st sinar_network" where
  "set_network m n = n\<lparr>scn_apiServer := (scn_apiServer n)\<lparr>api_networkManager := m\<rparr>\<rparr>"

section \<open>Construction\<close>

datatype node_error = Key_generation string | Network_manager_failed string

text \<open>The defaults of \<open>main\<close>.\<close>

definition main_config :: network_config where
  "main_config = \<lparr>nc_Port = ''8082'', nc_ChainID = 1001, nc_BlockTime = go_second, nc_MaxValidators = 100,
     nc_MinStake = 1000000, nc_GasLimit = 8000000, nc_BaseFee = Some 1000000000, nc_EnableMobile = True,
     nc_EnableWebSocket = True, nc_LogLevel = ''info''\<rparr>"

text \<open>
  \<open>key\<close> is what the key generator returned, \<open>host\<close> what \<open>libp2p.New\<close> did, \<open>v\<close> the address of the
  node's validator object, \<open>heap\<close> and \<open>vheap\<close> the events and validators to come.
\<close>

definition NewSinarChainNetwork ::
  "string + private_key \<Rightarrow> string + peer_id \<Rightarrow> vref \<Rightarrow> instant \<Rightarrow> (eref \<Rightarrow> event) \<Rightarrow> (vref \<Rightarrow> validator) \<Rightarrow>
     network_config \<Rightarrow> node_error + 'st sinar_network" where
  "NewSinarChainNetwork key host v now heap vheap config =
     (case key of Inl err \<Rightarrow> Inl (Key_generation err)
      | Inr privateKey \<Rightarrow>
        let validator = NewValidator ''NodeA'' privateKey (nc_MinStake config) now;
            consensusConfig = \<lparr>cc_BlockTime = nc_BlockTime config, cc_GasLimit = nc_GasLimit config,
              cc_BaseFee = nc_BaseFee config\<rparr>;
            consensus = NewConsensusEngine now heap (vheap(v := validator)) consensusConfig
        in (case NewNetworkManager host None of Inl err \<Rightarrow> Inl (Network_manager_failed err)
            | Inr network \<Rightarrow>
              let apiServer = NewAPIServer consensus network NewStateDB (nc_Port config)
              in Inr \<lparr>scn_mu = unlocked, scn_apiServer = apiServer, scn_blockchain = NewBlockchain, scn_config = config,
                   scn_validators = [(''NodeA'', v)], scn_myValidator = v, scn_cancelled = False, scn_startTime = now,
                   scn_metrics = \<lparr>mt_consensus = None, mt_network = None, mt_uptime = None\<rparr>\<rparr>))"

section \<open>Start, stop and statistics\<close>

datatype node_task = Api_server_task | Monitor_task | Performance_tests

definition SCN_Start :: "'st sinar_network \<Rightarrow> string option \<times> (node_task list \<times> nm_task list) \<times> 'st sinar_network" where
  "SCN_Start n =
     (let n1 = set_consensus (CE_Start (scn_consensus n)) n in
      case NM_Start (scn_network n1) of
        (Some err, ts) \<Rightarrow> (Some err, ([], ts), n1)
      | (None, ts) \<Rightarrow> (None,
          ([Api_server_task, Monitor_task] @ (if nc_LogLevel (scn_config n1) = ''debug'' then [Performance_tests] else []), ts),
          n1))"

definition SCN_Stop :: "'st sinar_network \<Rightarrow> (unit \<times> 'st sinar_network) outcome" where
  "SCN_Stop n =
     (let n1 = n\<lparr>scn_cancelled := True\<rparr> in
      and_then (CE_Stop (scn_consensus n1)) (\<lambda>(_, ce).
      let n2 = set_consensus ce n1 in Returns ((), set_network (NM_Stop (scn_network n2)) n2)))"

definition set_scn_mu :: "rwmutex \<Rightarrow> 'st sinar_network \<Rightarrow> 'st sinar_network" where
  "set_scn_mu m n = n\<lparr>scn_mu := m\<rparr>"

interpretation scn_mutex: mutex_field scn_mu set_scn_mu
  by unfold_locales (simp_all add: set_scn_mu_def)

definition SCN_updateStats ::
  "block_crypto \<Rightarrow> (hash32 \<Rightarrow> string) \<Rightarrow> instant \<Rightarrow> 'st sinar_network \<Rightarrow> (unit \<times> 'st sinar_network) outcome" where
  "SCN_updateStats x h2h now = with_Lock scn_mu set_scn_mu (\<lambda>n.
     and_then (CE_GetConsensusStats x h2h (scn_consensus n)) (\<lambda>(consensusStats, ce).
     let n1 = set_consensus ce n in
     and_then (NM_GetNetworkStats (scn_network n1)) (\<lambda>(networkStats, nm).
     let n2 = set_network nm n1 in
     Returns ((), n2\<lparr>scn_metrics := \<lparr>mt_consensus = Some consensusStats, mt_network = Some networkStats,
       mt_uptime = Some (time_since now (scn_startTime n2))\<rparr>\<rparr>))))"

record node_stats =
  nst_metrics :: node_metrics
  nst_config :: network_config
  nst_validators :: nat
  nst_uptime :: int

definition SCN_GetStats :: "instant \<Rightarrow> 'st sinar_network \<Rightarrow> (node_stats \<times> 'st sinar_network) outcome" where
  "SCN_GetStats now = with_RLock scn_mu set_scn_mu (\<lambda>n.
     Returns (\<lparr>nst_metrics = scn_metrics n, nst_config = scn_config n, nst_validators = length (scn_validators n),
       nst_uptime = time_since now (scn_startTime n)\<rparr>, n))"

section \<open>The performance tests\<close>

text \<open>The event of \<open>testConsensusSpeed\<close>, allocated at \<open>p\<close>, and the listing of \<open>testNetworkLatency\<close>.\<close>

definition SCN_testConsensusSpeed :: "crypto \<Rightarrow> eref \<Rightarrow> 'st sinar_network \<Rightarrow> (string option \<times> 'st sinar_network) outcome" where
  "SCN_testConsensusSpeed x p n =
     and_then (NewEvent x ''NodeA'' [] 0 1 [] 0) (\<lambda>e.
     let ce = scn_consensus n; ce1 = ce\<lparr>ce_poset := upd_event p (\<lambda>_. e) (ce_poset ce)\<rparr> in
     and_then (CE_AddEvent p ce1) (\<lambda>(err, ce2). Returns (err, set_consensus ce2 n)))"

definition SCN_testNetworkLatency :: "'st sinar_network \<Rightarrow> ((peer_id \<times> int) list \<times> 'st sinar_network) outcome" where
  "SCN_testNetworkLatency n =
     and_then (NM_GetPeers (scn_network n)) (\<lambda>(peers, nm).
     Returns (map (\<lambda>pr. (pi_ID pr, pi_Latency pr)) peers, set_network nm n))"

section \<open>The engine's event loop in the node\<close>

text \<open>One turn of \<open>processEvents\<close>, with the gossip of an accepted event; a full queue is ignored.\<close>

definition SCN_processEvents ::
  "crypto \<Rightarrow> orders_of \<Rightarrow> instant \<Rightarrow> 'st sinar_network \<Rightarrow> (bool \<times> 'st sinar_network) outcome" where
  "SCN_processEvents x ko now n =
     and_then (CE_processEvents x ko (scn_consensus n)) (\<lambda>((more, gossip), ce).
     let n1 = set_consensus ce n in
     case gossip of
       None \<Rightarrow> Returns (more, n1)
     | Some q \<Rightarrow> and_then (NM_GossipEvent now q (ev_Round (d_heap (ce_poset ce) q)) (scn_network n1)) (\<lambda>(_, nm).
         Returns (more, set_network nm n1)))"

section \<open>Reachable states\<close>

text \<open>
  One step of the node's goroutines: starting and stopping, a tick of the monitor, a turn of the event loop,
  a block of \<open>createBlocks\<close>, a tick of the consensus loop (which is in one of two places), a performance test,
  a step of the network manager, a request, and a session on the socket.
\<close>

inductive node_step ::
  "block_crypto \<Rightarrow> (hash32 \<Rightarrow> string) \<Rightarrow> (string \<Rightarrow> address) \<Rightarrow>
     loop_place \<times> 'st sinar_network \<Rightarrow> loop_place \<times> 'st sinar_network \<Rightarrow> bool" for x h2h h2a where
  node_start: "SCN_Start n = (err, tasks, n') \<Longrightarrow> node_step x h2h h2a (pl, n) (pl, n')"
| node_stop: "SCN_Stop n = Returns (u, n') \<Longrightarrow> node_step x h2h h2a (pl, n) (pl, n')"
| node_stats: "SCN_updateStats x h2h now n = Returns (u, n') \<Longrightarrow> node_step x h2h h2a (pl, n) (pl, n')"
| node_events: "SCN_processEvents (crypto.truncate x) ko now n = Returns (goes_on, n') \<Longrightarrow>
    node_step x h2h h2a (pl, n) (pl, n')"
| node_block: "CE_createBlock x now k (scn_consensus n) = Returns (u, ce) \<Longrightarrow>
    node_step x h2h h2a (pl, n) (pl, set_consensus ce n)"
| node_tick: "CE_consensusTick x t pl (scn_consensus n) = Returns (pl', ce) \<Longrightarrow>
    node_step x h2h h2a (pl, n) (pl', set_consensus ce n)"
| node_stopped: "CE_consensusDone pl (scn_consensus n) = Returns pl' \<Longrightarrow> node_step x h2h h2a (pl, n) (pl', n)"
| node_test: "SCN_testConsensusSpeed (crypto.truncate x) p n = Returns (err, n') \<Longrightarrow>
    node_step x h2h h2a (pl, n) (pl, n')"
| node_network: "nm_step (scn_network n) nm \<Longrightarrow> node_step x h2h h2a (pl, n) (pl, set_network nm n)"
| node_request: "API_request en remoteAddr r (scn_apiServer n) = Returns (resp, api) \<Longrightarrow> en_HexToAddress en = h2a \<Longrightarrow>
    en_key en \<noteq> None \<Longrightarrow> node_step x h2h h2a (pl, n) (pl, n\<lparr>scn_apiServer := api\<rparr>)"
| node_socket: "API_handleWebSocket x h2h upgraded msgs (scn_apiServer n) = Returns (sent, api) \<Longrightarrow>
    node_step x h2h h2a (pl, n) (pl, n\<lparr>scn_apiServer := api\<rparr>)"

inductive_cases node_stepE: "node_step x h2h h2a s s'"

inductive node_reachable ::
  "block_crypto \<Rightarrow> (hash32 \<Rightarrow> string) \<Rightarrow> (string \<Rightarrow> address) \<Rightarrow> loop_place \<times> 'st sinar_network \<Rightarrow> bool" for x h2h h2a where
  node_new: "NewSinarChainNetwork key host v now heap vheap config = Inr n \<Longrightarrow> \<forall>p. ev_Atropos (heap p) = 0 \<Longrightarrow>
    node_reachable x h2h h2a (In_runConsensus, n)"
| node_next: "node_reachable x h2h h2a s \<Longrightarrow> node_step x h2h h2a s s' \<Longrightarrow> node_reachable x h2h h2a s'"

section \<open>The invariant\<close>

definition node_inv :: "'st sinar_network \<Rightarrow> bool" where
  "node_inv n \<longleftrightarrow> engine_free (scn_consensus n) \<and> api_idle (scn_apiServer n) \<and> nm_reachable (scn_network n) \<and>
     nm_dag (scn_network n) = None \<and> supply_consistent (scn_stateDB n) \<and> scn_blockchain n = NewBlockchain"

lemma set_component_fields [simp]:
  "scn_consensus (set_consensus ce n) = ce" "scn_network (set_consensus ce n) = scn_network n"
  "scn_stateDB (set_consensus ce n) = scn_stateDB n" "scn_blockchain (set_consensus ce n) = scn_blockchain n"
  "scn_consensus (set_network m n) = scn_consensus n" "scn_network (set_network m n) = m"
  "scn_stateDB (set_network m n) = scn_stateDB n" "scn_blockchain (set_network m n) = scn_blockchain n"
  "scn_apiServer (set_consensus ce n) = (scn_apiServer n)\<lparr>api_consensusEngine := ce\<rparr>"
  "scn_apiServer (set_network m n) = (scn_apiServer n)\<lparr>api_networkManager := m\<rparr>"
  by (simp_all add: scn_consensus_def scn_network_def scn_stateDB_def set_consensus_def set_network_def)

lemma engine_free_idle:
  "engine_free ce \<Longrightarrow> ce_mu ce = unlocked \<and> vs_mu (ce_validatorSet ce) = unlocked \<and> p_mu (ce_poset ce) = unlocked"
  by (simp add: engine_free_def engine_ok_def quiet_def)

lemma inv_consensus: "node_inv n \<Longrightarrow> engine_free ce \<Longrightarrow> node_inv (set_consensus ce n)"
  using engine_free_idle [of ce] by (simp add: node_inv_def api_idle_def)

lemma nm_step_dag:
  assumes "nm_inv s" and "nm_step s s'"
  shows "nm_dag s' = nm_dag s"
proof -
  note mu = nm_inv_mu [OF assms(1)]
  show ?thesis using assms(2)
  proof (cases rule: nm_stepE [consumes 1, case_names connected disconnected scores bandwidth cleanup gossip pump sent stop])
    case (gossip now p round err)
    then show ?thesis by (auto simp: Gossip_open [OF assms(1)] Let_def split: if_splits)
  next
    case (pump c sends)
    show ?thesis
    proof (cases c)
      case Case_done
      then show ?thesis using pump by (auto simp: NM_processMessageQueue_def Let_def split: if_splits)
    next
      case Case_normal
      then obtain m ms where items: "ch_items (mq_normalPriority (nm_messageQueue s)) = m # ms"
        using pump Process_normal_empty [OF assms(1)] by (cases "ch_items (mq_normalPriority (nm_messageQueue s))") auto
      then show ?thesis using pump Case_normal Process_normal [OF assms(1) items] by auto
    qed (use pump Process_other [OF assms(1)] in auto)
  next
    case (sent delivered now pid msg)
    then show ?thesis
      by (auto simp: NM_sendEventToPeer_def count_message_free [OF mu] split: if_splits option.splits)
  qed (auto simp: Connected_free [OF mu] Disconnected_free [OF mu] Scores_free [OF mu] Bandwidth_free [OF mu]
      Cleanup_plain [OF assms(1)] with_peers_def NM_Stop_def split: if_splits)
qed

lemma inv_network:
  assumes "node_inv n" and "nm_step (scn_network n) m"
  shows "node_inv (set_network m n)"
proof -
  have r: "nm_reachable (scn_network n)" using assms(1) by (simp add: node_inv_def)
  have "nm_reachable m" by (rule nm_next [OF r assms(2)])
  moreover have "nm_dag m = None" using nm_step_dag [OF nm_reachable_inv [OF r] assms(2)] assms(1) by (simp add: node_inv_def)
  moreover have "nm_mu m = unlocked" by (rule nm_inv_mu [OF nm_reachable_inv [OF \<open>nm_reachable m\<close>]])
  ultimately show ?thesis using assms(1) by (simp add: node_inv_def api_idle_def)
qed

text \<open>What the requests do to the three components.\<close>

lemma supply_with_account: "supply_consistent s \<Longrightarrow> supply_consistent (with_account a s)"
  by (simp add: supply_consistent_def)

lemma supply_put_balance: "supply_consistent s \<Longrightarrow> supply_consistent (put_balance a v s)"
  by (simp add: supply_consistent_def)

lemma supply_fold_put: "supply_consistent s \<Longrightarrow> supply_consistent (fold (\<lambda>(w, v). put_balance w v) ps s)"
  by (induction ps arbitrary: s) (auto simp: supply_put_balance)

lemma state_effect_supply:
  assumes "state_effect s s'" and "supply_consistent s"
  shows "supply_consistent s'"
proof -
  have free: "sd_mu s = unlocked" using assms(2) by (simp add: supply_consistent_def)
  have "supply_consistent (set_CurrentSupply (SN_calculateTotalSINARSupply t) t)" if "supply_consistent t" for t
    using that by (simp add: supply_consistent_def)
  then have initial: "supply_consistent (let s6 = fold (\<lambda>(w, v). put_balance w v) all_shares s in
      set_CurrentSupply (SN_calculateTotalSINARSupply s6) s6)"
    unfolding Let_def using supply_fold_put [OF assms(2)] by blast
  show ?thesis using assms(1) unfolding state_effect_def
  proof (elim disjE exE)
    fix a b n err
    assume "SN_TransferSINAR a b n s = Returns (err, s')"
    then show ?thesis using assms(2)
      by (auto simp: Transfer_free [OF free] supply_with_account supply_put_balance Let_def split: if_splits)
  next
    fix err
    assume "SN_InitializeSINARDistribution s = Returns (err, s')"
    then show ?thesis using initial by (simp add: Initialize_free [OF free] Let_def)
  qed (use assms(2) in \<open>auto simp: GetAccount_free [OF free] supply_with_account\<close>)
qed

lemma engine_effect_ok:
  assumes "engine_effect h2a ce ce'" and "engine_free ce"
  shows "engine_free ce'"
proof -
  obtain m vs where "ce' = ce\<lparr>ce_validators := m, ce_validatorSet := vs\<rparr>" "vs_mu vs = unlocked"
    using engine_effect_fields [OF assms(1)] engine_free_idle [OF assms(2)] by blast
  then show ?thesis using assms(2) by (simp add: engine_free_def engine_ok_def)
qed

lemma inv_request:
  assumes "node_inv n" and "API_request en remoteAddr r (scn_apiServer n) = Returns (resp, api)" and "en_key en \<noteq> None"
  shows "node_inv (n\<lparr>scn_apiServer := api\<rparr>)"
proof -
  have idle: "api_idle (scn_apiServer n)" using assms(1) by (simp add: node_inv_def)
  obtain key where "en_key en = Some key" using assms(3) by auto
  from request_returns [OF idle this, of remoteAddr r] assms(2)
  have e: "request_effect (en_HexToAddress en) (scn_apiServer n) api" by auto
  then show ?thesis
    using assms(1) request_idle [OF e idle] state_effect_supply engine_effect_ok
    by (auto simp: node_inv_def scn_consensus_def scn_network_def scn_stateDB_def request_effect_def)
qed

text \<open>A session on the socket only reads.\<close>

lemma ws_message_reads: "api_idle api \<Longrightarrow> \<exists>sent. API_handleWebSocketMessage x h2h m api = Returns (sent, api)"
  using idle_network_stats [of api] by (auto simp: API_handleWebSocketMessage_def idle_latest_block)

lemma ws_loop_reads: "api_idle api \<Longrightarrow> \<exists>sent. ws_loop x h2h ms api = Returns (sent, api)"
proof (induction ms)
  case Nil
  then show ?case by simp
next
  case (Cons m ms)
  then show ?case using ws_message_reads [OF Cons.prems, of x h2h m] by auto
qed

lemma socket_reads: "api_idle api \<Longrightarrow> \<exists>sent. API_handleWebSocket x h2h upgraded ms api = Returns (sent, api)"
  using ws_loop_reads [of api x h2h ms] by (auto simp: API_handleWebSocket_def)

lemma stats_reads:
  assumes "CE_GetConsensusStats x h2h ce = Returns (st, ce')" and "engine_free ce"
  shows "engine_free ce'"
proof -
  have "CS_GetClothoStats (ce_clothoSelector ce) = Returns (clothoStats, cs) \<Longrightarrow> cs = ce_clothoSelector ce" for clothoStats cs
    using assms(2) by (simp add: CS_GetClothoStats_def engine_free_def engine_ok_def clothos_quiet_def cs_mutex.RLock_pure_read unlocked_def)
  moreover have "\<not> rw_writer (bc_mu (ce_blockchain ce))"
    using assms(2) by (simp add: engine_free_def engine_ok_def NewBlockchain_def unlocked_def)
  ultimately show ?thesis using assms
    by (auto simp: CE_GetConsensusStats_def Let_def and_then_Returns_iff block_stats_reads engine_free_def engine_ok_def)
qed

section \<open>Every step keeps the invariant\<close>

lemma engine_step_ok: "ce_step x h2a a2h (pl, ce) (pl', ce') \<Longrightarrow> engine_free ce \<Longrightarrow> engine_free ce'"
  using ce_step_free [of x h2a a2h "(pl, ce)" "(pl', ce')"] by simp

lemma inv_engine: "node_inv n \<Longrightarrow> engine_free (scn_consensus n)"
  by (simp add: node_inv_def)

lemma new_event_ok:
  assumes "NewEvent x c ps ep lam txs h = Returns e" and "engine_free ce"
  shows "engine_free (ce\<lparr>ce_poset := upd_event p (\<lambda>_. e) (ce_poset ce)\<rparr>)"
proof -
  have "ev_Atropos e = 0" using assms(1) by (auto simp: NewEvent_def Let_def and_then_Returns_iff zero_event_def)
  then show ?thesis using assms(2) by (simp add: engine_free_def engine_ok_def quiet_def upd_event_def)
qed

lemma inv_config [simp]:
  "node_inv (n\<lparr>scn_cancelled := c\<rparr>) = node_inv n" "node_inv (n\<lparr>scn_metrics := m\<rparr>) = node_inv n"
  "node_inv (set_scn_mu l n) = node_inv n"
  by (simp_all add: node_inv_def scn_consensus_def scn_network_def scn_stateDB_def set_scn_mu_def)

lemma inv_network_stats:
  assumes "node_inv n" and "NM_GetNetworkStats (scn_network n) = Returns (st, nm)"
  shows "node_inv (set_network nm n)"
proof -
  have "nm_mu (scn_network n) = unlocked" using assms(1) by (simp add: node_inv_def api_idle_def scn_network_def)
  then have "nm = scn_network n" using assms(2) by (simp add: NM_GetNetworkStats_def nm_read)
  then show ?thesis using assms(1) by (simp add: node_inv_def scn_network_def)
qed

lemma node_step_inv:
  assumes "node_step x h2h h2a s s'" and inv: "node_inv (snd s)"
  shows "node_inv (snd s')"
  using assms
proof (induction rule: node_step.induct)
  case (node_start n err tasks n' pl)
  have "engine_free (CE_Start (scn_consensus n))"
    by (rule engine_step_ok [OF ce_step.start [of _ _ _ pl] inv_engine]) (use node_start in simp)
  then show ?case using node_start inv_consensus by (auto simp: SCN_Start_def NM_Start_def Let_def)
next
  case (node_stop n u n' pl)
  then have inv': "node_inv (n\<lparr>scn_cancelled := True\<rparr>)" by simp
  from node_stop obtain w ce where ce: "CE_Stop (scn_consensus (n\<lparr>scn_cancelled := True\<rparr>)) = Returns (w, ce)"
    and n': "n' = set_network (NM_Stop (scn_network (set_consensus ce (n\<lparr>scn_cancelled := True\<rparr>))))
      (set_consensus ce (n\<lparr>scn_cancelled := True\<rparr>))"
    by (auto simp: SCN_Stop_def Let_def and_then_Returns_iff)
  have "engine_free ce" by (rule engine_step_ok [OF ce_step.stop [OF ce, of _ _ _ pl] inv_engine [OF inv']])
  then have "node_inv (set_consensus ce (n\<lparr>scn_cancelled := True\<rparr>))" by (rule inv_consensus [OF inv'])
  then show ?case unfolding n' snd_conv by (rule inv_network [OF _ nm_stop])
next
  case (node_stats now n u n' pl)
  let ?n = "\<lambda>m. set_scn_mu m n"
  from node_stats obtain m st ce st' nm met m' where
    ce: "CE_GetConsensusStats x h2h (scn_consensus (?n m)) = Returns (st, ce)"
    and nm: "NM_GetNetworkStats (scn_network (set_consensus ce (?n m))) = Returns (st', nm)"
    and n': "n' = set_scn_mu m' ((set_network nm (set_consensus ce (?n m)))\<lparr>scn_metrics := met\<rparr>)"
    unfolding SCN_updateStats_def with_Lock_def Let_def and_then_Returns_iff by (auto simp: and_then_Returns_iff)
  have inv': "node_inv (?n m)" using node_stats by simp
  have "node_inv (set_consensus ce (?n m))" by (rule inv_consensus [OF inv' stats_reads [OF ce inv_engine [OF inv']]])
  then have "node_inv (set_network nm (set_consensus ce (?n m)))" by (rule inv_network_stats [OF _ nm])
  then show ?case by (simp add: n')
next
  case (node_events ko now n goes_on n' pl)
  from node_events obtain b gossip ce where
    ce: "CE_processEvents (crypto.truncate x) ko (scn_consensus n) = Returns ((b, gossip), ce)"
    and rest: "(case gossip of None \<Rightarrow> Returns (b, set_consensus ce n)
     | Some q \<Rightarrow> and_then (NM_GossipEvent now q (ev_Round (d_heap (ce_poset ce) q)) (scn_network (set_consensus ce n)))
         (\<lambda>(_, nm). Returns (b, set_network nm (set_consensus ce n)))) = Returns (goes_on, n')"
    by (auto simp: SCN_processEvents_def Let_def and_then_Returns_iff)
  have "engine_free ce"
    by (rule engine_step_ok [OF ce_step.event [OF ce, of _ _ pl] inv_engine]) (use node_events in simp)
  then have inv': "node_inv (set_consensus ce n)" using node_events inv_consensus by simp
  show ?case
  proof (cases gossip)
    case None
    then show ?thesis using rest inv' by simp
  next
    case (Some q)
    then obtain e nm where "NM_GossipEvent now q (ev_Round (d_heap (ce_poset ce) q)) (scn_network (set_consensus ce n)) =
        Returns (e, nm)" "n' = set_network nm (set_consensus ce n)"
      using rest by (auto simp: and_then_Returns_iff)
    then show ?thesis using inv_network [OF inv' nm_gossip] by simp
  qed
next
  case (node_block now k n u ce pl)
  have "engine_free ce"
    by (rule engine_step_ok [OF ce_step.block [OF node_block.hyps, of _ _ pl] inv_engine]) (use node_block in simp)
  then show ?case using node_block inv_consensus by simp
next
  case (node_tick t pl n pl' ce)
  have "engine_free ce"
    by (rule engine_step_ok [OF ce_step.tick [OF node_tick.hyps] inv_engine]) (use node_tick in simp)
  then show ?case using node_tick inv_consensus by simp
next
  case (node_stopped pl n pl')
  then show ?case by simp
next
  case (node_test p n err n' pl)
  then obtain e ce2 where e: "NewEvent (crypto.truncate x) ''NodeA'' [] 0 1 [] 0 = Returns e"
    and add: "CE_AddEvent p ((scn_consensus n)\<lparr>ce_poset := upd_event p (\<lambda>_. e) (ce_poset (scn_consensus n))\<rparr>) = Returns (err, ce2)"
    and n': "n' = set_consensus ce2 n"
    by (auto simp: SCN_testConsensusSpeed_def Let_def and_then_Returns_iff)
  have "engine_free ce2"
    by (rule engine_step_ok [OF ce_step.add [OF add, of _ _ _ pl] new_event_ok [OF e inv_engine]]) (use node_test in simp)
  then show ?case using node_test inv_consensus by (simp add: n')
next
  case (node_network n nm pl)
  then show ?case using inv_network by simp
next
  case (node_request en remoteAddr r n resp api pl)
  then show ?case using inv_request by simp
next
  case (node_socket upgraded msgs n sent api pl)
  then have "api = scn_apiServer n" using socket_reads [of "scn_apiServer n" x h2h upgraded msgs] by (auto simp: node_inv_def)
  then show ?case using node_socket by simp
qed

lemma node_reachable_inv: "node_reachable x h2h h2a s \<Longrightarrow> node_inv (snd s)"
proof (induction rule: node_reachable.induct)
  case (node_new key host v now heap vheap config n)
  then obtain privateKey nm where nm: "NewNetworkManager host None = Inr nm"
    and n: "n = \<lparr>scn_mu = unlocked, scn_apiServer = NewAPIServer (NewConsensusEngine now heap
        (vheap(v := NewValidator ''NodeA'' privateKey (nc_MinStake config) now))
        \<lparr>cc_BlockTime = nc_BlockTime config, cc_GasLimit = nc_GasLimit config, cc_BaseFee = nc_BaseFee config\<rparr>)
        nm NewStateDB (nc_Port config), scn_blockchain = NewBlockchain, scn_config = config,
        scn_validators = [(''NodeA'', v)], scn_myValidator = v, scn_cancelled = False, scn_startTime = now,
        scn_metrics = \<lparr>mt_consensus = None, mt_network = None, mt_uptime = None\<rparr>\<rparr>"
    by (auto simp: NewSinarChainNetwork_def Let_def split: sum.splits)
  have "api_idle (scn_apiServer n)" unfolding n by (simp add: new_api_idle [OF nm])
  moreover have "engine_free (scn_consensus n)"
    unfolding n scn_consensus_def by (simp add: NewAPIServer_def new_engine_free [OF node_new(2)])
  moreover have "scn_network n = nm" "scn_stateDB n = NewStateDB" "scn_blockchain n = NewBlockchain"
    by (simp_all add: n scn_network_def scn_stateDB_def NewAPIServer_def)
  moreover have "nm_reachable nm" "nm_dag nm = None"
    using nm by (rule nm_reachable.nm_new) (use nm in \<open>auto simp: NewNetworkManager_def split: sum.splits\<close>)
  moreover have "supply_consistent NewStateDB"
    by (simp add: supply_consistent_def NewStateDB_def accounts_ok_def wf_gomap_def SN_calculateTotalSINARSupply_def)
  ultimately show ?case by (simp add: node_inv_def)
next
  case (node_next s s')
  then show ?case by (blast intro: node_step_inv)
qed

lemma int_String_zero: "int_String 0 = ''0''"
  by code_simp

section \<open>Properties\<close>

text \<open>
  C1. The node never makes progress. In every state that any interleaving of the node's goroutines, network
  callbacks, requests and socket sessions can reach, the interface reports block 0 and a total stake of 0, every
  request to delegate is refused, the node's own blockchain is as it was created, and the network manager
  has no DAG (so nothing that arrives can be stored).
\<close>

theorem node_never_progresses:
  assumes "node_reachable x h2h h2a (pl, n)"
  shows "(\<exists>info. API_getBlockchainInfo (scn_apiServer n) = answer (Network_data info) (scn_apiServer n) \<and>
      ni_LatestBlock info = 0 \<and> ni_TotalStake info = ''0'') \<and>
    (\<exists>message statusCode. 400 \<le> statusCode \<and>
      API_delegate h2a body (scn_apiServer n) = refuse message statusCode (scn_apiServer n)) \<and>
    scn_blockchain n = NewBlockchain \<and> nm_dag (scn_network n) = None"
proof -
  have inv: "node_inv n" using node_reachable_inv [OF assms] by simp
  then have idle: "api_idle (scn_apiServer n)" by (simp add: node_inv_def)
  have "p_LastBlock (ce_poset (api_consensusEngine (scn_apiServer n))) = 0"
    using inv by (simp add: node_inv_def engine_free_def engine_ok_def quiet_def scn_consensus_def)
  then have "\<exists>info. API_getBlockchainInfo (scn_apiServer n) = answer (Network_data info) (scn_apiServer n) \<and>
      ni_LatestBlock info = 0 \<and> ni_TotalStake info = ''0''"
    by (intro exI conjI, simp add: API_getBlockchainInfo_def api_reads [OF idle]) (simp_all add: int_String_zero)
  moreover have "\<exists>message statusCode. 400 \<le> statusCode \<and>
      API_delegate h2a body (scn_apiServer n) = refuse message statusCode (scn_apiServer n)"
  proof -
    have "API_delegate h2a body (scn_apiServer n) \<in> {refuse ''Invalid request body'' 400 (scn_apiServer n),
        refuse ''Invalid amount'' 400 (scn_apiServer n),
        refuse (''Delegation failed: '' @ ''validator not found or inactive'') 500 (scn_apiServer n)}"
      by (auto simp: API_delegate_def idle_delegate [OF idle] Let_def split: option.split)
    moreover have "(400 :: nat) \<le> 400" "(400 :: nat) \<le> 500" by simp_all
    ultimately show ?thesis by blast
  qed
  ultimately show ?thesis using inv by (simp add: node_inv_def)
qed

text \<open>
  C21. The supply the node reports is what it owes. In every reachable state the request for the supply answers
  with the sum of all balances, whatever transfers and distributions have been requested before.
\<close>

theorem node_supply_reported:
  assumes "node_reachable x h2h h2a (pl, n)"
  shows "API_getSINARSupply (scn_apiServer n) = answer (Fields
    [(''total_supply'', Text (int_String (tk_TotalSupply (sd_sinarToken (scn_stateDB n))))),
     (''current_supply'', Text (int_String (sum_list (map (ac_Balance \<circ> snd) (sd_accounts (scn_stateDB n)))))),
     (''symbol'', Text ''SINAR'')]) (scn_apiServer n)"
proof -
  have "supply_consistent (scn_stateDB n)" using node_reachable_inv [OF assms] by (simp add: node_inv_def)
  then show ?thesis
    by (simp add: API_getSINARSupply_def SN_GetSINARInfo_def supply_consistent_def scn_stateDB_def
        SN_calculateTotalSINARSupply_def Let_def)
qed

section \<open>Witnesses\<close>

text \<open>The node of \<open>main\<close>, on a host that libp2p grants.\<close>

definition main_node :: "(address \<Rightarrow> int) sinar_network" where
  "main_node = projr (NewSinarChainNetwork (Inr some_key) (Inr ''self'') 1 0 (\<lambda>_. zero_event) (\<lambda>_. chain_validator) main_config)"

lemma main_node_new:
  "NewSinarChainNetwork (Inr some_key) (Inr ''self'') 1 0 (\<lambda>_. zero_event) (\<lambda>_. chain_validator) main_config = Inr main_node"
  by (simp add: main_node_def NewSinarChainNetwork_def NewNetworkManager_def Let_def)

lemma main_node_reachable: "node_reachable x h2h h2a (In_runConsensus, main_node)"
  by (rule node_new [OF main_node_new]) (simp add: zero_event_def)

lemma main_node_started: "node_reachable x h2h h2a (In_runConsensus, snd (snd (SCN_Start main_node)))"
  by (rule node_next [OF main_node_reachable
      node_start [where err = "fst (SCN_Start main_node)" and tasks = "fst (snd (SCN_Start main_node))"]]) simp

theorem node_never_progresses_witness:
  "\<exists>info. API_getBlockchainInfo (scn_apiServer (snd (snd (SCN_Start main_node)))) =
     answer (Network_data info) (scn_apiServer (snd (snd (SCN_Start main_node)))) \<and>
     ni_LatestBlock info = 0 \<and> ni_TotalStake info = ''0''"
  using node_never_progresses [OF main_node_started [of sample_block_crypto "\<lambda>_. []" "\<lambda>_. 0"]] by blast

lemma main_node_distributed:
  "\<exists>resp api. API_request some_env ''10.0.0.1:4000'' Sinar_initialize (scn_apiServer main_node) = Returns (resp, api) \<and>
     node_reachable x h2h (\<lambda>_. 0) (In_runConsensus, main_node\<lparr>scn_apiServer := api\<rparr>)"
proof -
  have "node_inv main_node" using node_reachable_inv [OF main_node_reachable] by simp
  then have idle: "api_idle (scn_apiServer main_node)" by (simp add: node_inv_def)
  have key: "en_key some_env = Some some_key" "en_HexToAddress some_env = (\<lambda>_. 0)" by (simp_all add: some_env_def)
  obtain resp api where r: "API_request some_env ''10.0.0.1:4000'' Sinar_initialize (scn_apiServer main_node) = Returns (resp, api)"
    using request_returns [OF idle key(1)] by metis
  have "node_step x h2h (\<lambda>_. 0) (In_runConsensus, main_node) (In_runConsensus, main_node\<lparr>scn_apiServer := api\<rparr>)"
    by (rule node_request [OF r key(2)]) (simp add: key)
  then show ?thesis using r node_next [OF main_node_reachable] by blast
qed

theorem node_supply_reported_witness:
  "\<exists>api. API_getSINARSupply api = answer (Fields
    [(''total_supply'', Text (int_String (tk_TotalSupply (sd_sinarToken (api_stateDB api))))),
     (''current_supply'', Text (int_String (sum_list (map (ac_Balance \<circ> snd) (sd_accounts (api_stateDB api)))))),
     (''symbol'', Text ''SINAR'')]) (api :: (address \<Rightarrow> int) api_server) \<and>
     (\<exists>resp. API_request some_env ''10.0.0.1:4000'' Sinar_initialize (scn_apiServer main_node) = Returns (resp, api))"
proof -
  obtain resp api where r: "API_request some_env ''10.0.0.1:4000'' Sinar_initialize (scn_apiServer main_node) = Returns (resp, api)"
    and n: "node_reachable sample_block_crypto (\<lambda>_. []) (\<lambda>_. 0) (In_runConsensus, main_node\<lparr>scn_apiServer := api\<rparr>)"
    using main_node_distributed [of sample_block_crypto "\<lambda>_. []"] by blast
  show ?thesis using r node_supply_reported [OF n] by (intro exI [of _ api]) (simp add: scn_stateDB_def)
qed

end
