(* ===== verification/Node_Program.thy ===== *)
theory Node_Program
  imports Node
begin

text \<open>
  The rest of \<open>main.go\<close>: the monitor, the performance tests as they are started, and \<open>main\<close> itself: configuration,
  start, the wait for a signal, stop. Log lines are results. A loop of the code whose \<open>select\<close> waits for a tick or the end
  of the context gets the choice the runtime makes as an argument.
\<close>

section \<open>The monitor\<close>

record node_log =
  nl_uptime :: int
  nl_validators :: nat
  nl_network_active :: bool
  nl_consensus_active :: bool

definition SCN_logStats :: "instant \<Rightarrow> 'st sinar_network \<Rightarrow> (node_log \<times> 'st sinar_network) outcome" where
  "SCN_logStats now = with_RLock scn_mu set_scn_mu (\<lambda>n.
     Returns (\<lparr>nl_uptime = time_since now (scn_startTime n), nl_validators = length (scn_validators n),
       nl_network_active = True, nl_consensus_active = True\<rparr>, n))"

datatype wakeup = Tick | Context_done

text \<open>One turn of \<open>monitorNetwork\<close>; None when the loop ends. A context that is not done cannot be chosen.\<close>

definition SCN_monitorNetwork ::
  "block_crypto \<Rightarrow> (hash32 \<Rightarrow> string) \<Rightarrow> instant \<Rightarrow> wakeup \<Rightarrow> 'st sinar_network \<Rightarrow>
     (node_log option \<times> 'st sinar_network) outcome" where
  "SCN_monitorNetwork x h2h now wake n =
     (case wake of
        Context_done \<Rightarrow> if scn_cancelled n then Returns (None, n) else Blocks
      | Tick \<Rightarrow> and_then (SCN_updateStats x h2h now n) (\<lambda>(_, n1).
          and_then (SCN_logStats now n1) (\<lambda>(line, n2). Returns (Some line, n2))))"

section \<open>The performance tests\<close>

datatype test_task = Transaction_throughput | Consensus_speed | Network_latency

definition SCN_runPerformanceTests :: "test_task list" where
  "SCN_runPerformanceTests = [Transaction_throughput, Consensus_speed, Network_latency]"

text \<open>\<open>testTransactionThroughput\<close> logs the numbers of its turns, up to the one that finds the context done; it sends nothing.\<close>

fun throughput_loop :: "nat \<Rightarrow> nat \<Rightarrow> wakeup list \<Rightarrow> nat list" where
  "throughput_loop 0 i wakes = []"
| "throughput_loop (Suc k) i [] = []"
| "throughput_loop (Suc k) i (w # wakes) = (case w of Context_done \<Rightarrow> [] | Tick \<Rightarrow> i # throughput_loop k (Suc i) wakes)"

definition SCN_testTransactionThroughput :: "wakeup list \<Rightarrow> nat list" where
  "SCN_testTransactionThroughput = throughput_loop 100 0"

lemma throughput_loop_upt:
  "throughput_loop k i wakes = [i..<i + min k (length (takeWhile (\<lambda>w. w = Tick) wakes))]"
proof (induction k i wakes rule: throughput_loop.induct)
  case (3 k i w wakes)
  then show ?case by (cases w) (simp_all add: upt_conv_Cons del: upt_Suc)
qed simp_all

section \<open>main\<close>

datatype 'st program =
  Fatal_create node_error
| Fatal_start string
| Waiting "node_task list" "nm_task list" "'st sinar_network"

text \<open>\<open>main\<close> up to its wait for a signal, and what it does with the signal.\<close>

definition main_start ::
  "string + private_key \<Rightarrow> string + peer_id \<Rightarrow> vref \<Rightarrow> instant \<Rightarrow> (eref \<Rightarrow> event) \<Rightarrow> (vref \<Rightarrow> validator) \<Rightarrow> 'st program" where
  "main_start key host v now heap vheap =
     (case NewSinarChainNetwork key host v now heap vheap main_config of
        Inl err \<Rightarrow> Fatal_create err
      | Inr n \<Rightarrow> (case SCN_Start n of
          (Some err, tasks, n1) \<Rightarrow> Fatal_start err
        | (None, (tasks, nmtasks), n1) \<Rightarrow> Waiting tasks nmtasks n1))"

definition main_signal :: "'st sinar_network \<Rightarrow> (unit \<times> 'st sinar_network) outcome" where
  "main_signal n = SCN_Stop n"

section \<open>Results\<close>

lemma log_reads: "\<not> rw_writer (scn_mu n) \<Longrightarrow> \<exists>line. SCN_logStats now n = Returns (line, n)"
  unfolding SCN_logStats_def by (subst scn_mutex.RLock_pure_read) (simp_all add: set_scn_mu_def)

text \<open>A tick of the monitor that returns is a step of the system: it adds nothing to \<open>updateStats\<close>.\<close>

lemma monitor_tick:
  assumes "SCN_updateStats x h2h now n = Returns (u, n1)" and "\<not> rw_writer (scn_mu n1)"
  shows "\<exists>line. SCN_monitorNetwork x h2h now Tick n = Returns (Some line, n1) \<and> node_step x h2h h2a (pl, n) (pl, n1)"
  using log_reads [OF assms(2), of now] node_stats [OF assms(1)] by (auto simp: SCN_monitorNetwork_def assms(1))

lemma cancelled_consensus: "scn_consensus (n\<lparr>scn_cancelled := c\<rparr>) = scn_consensus n"
  by (simp add: scn_consensus_def)

text \<open>
  The life of the program. \<open>main\<close> fails only when the key generator or libp2p fails; otherwise it starts the server, the
  monitor and the five network loops, and no performance test. At the first signal \<open>Stop\<close> returns, with the contexts
  done and the queues closed. The server is not stopped, so it can still be asked; but an event handed to the engine
  from then on panics, and so would a second \<open>Stop\<close>.
\<close>

theorem main_life:
  "case (main_start key host v now heap vheap :: 'st program) of
     Fatal_create err \<Rightarrow> (\<exists>e. key = Inl e \<or> host = Inl e)
   | Fatal_start err \<Rightarrow> False
   | Waiting tasks nmtasks n \<Rightarrow>
       tasks = [Api_server_task, Monitor_task] \<and> length nmtasks = 5 \<and> scn_cancelled n = False \<and>
       (\<exists>n'. main_signal n = Returns ((), n') \<and> scn_cancelled n' \<and> nm_cancelled (scn_network n') \<and>
          ce_cancelled (scn_consensus n') \<and> (\<forall>p. CE_AddEvent p (scn_consensus n') = Panics) \<and> SCN_Stop n' = Panics)"
proof (cases key)
  case (Inl e)
  then show ?thesis by (auto simp: main_start_def NewSinarChainNetwork_def)
next
  case key: (Inr k)
  show ?thesis
  proof (cases host)
    case (Inl e)
    then show ?thesis by (auto simp: main_start_def NewSinarChainNetwork_def key NewNetworkManager_def)
  next
    case (Inr self)
    obtain n :: "'st sinar_network" and nm where n: "NewSinarChainNetwork key host v now heap vheap main_config = Inr n"
      and nm: "NewNetworkManager host None = Inr nm"
      and ce: "scn_consensus n = NewConsensusEngine now (heap) (vheap(v := NewValidator ''NodeA'' k (nc_MinStake main_config) now))
        \<lparr>cc_BlockTime = nc_BlockTime main_config, cc_GasLimit = nc_GasLimit main_config, cc_BaseFee = nc_BaseFee main_config\<rparr>"
      and f: "scn_cancelled n = False" "scn_config n = main_config"
      by (simp add: NewSinarChainNetwork_def key Inr NewNetworkManager_def scn_consensus_def NewAPIServer_def Let_def)
    define n1 where "n1 = set_consensus (CE_Start (scn_consensus n)) n"
    have start: "SCN_Start n = (None, ([Api_server_task, Monitor_task],
        [Peer_discovery, Message_queue_loop, Score_loop, Bandwidth_loop, Connection_loop]), n1)"
      using f by (simp add: SCN_Start_def NM_Start_def Let_def n1_def set_consensus_def main_config_def)
    have closes: "\<exists>ce. CE_Stop (scn_consensus n1) = Returns ((), ce) \<and> ce_cancelled ce \<and>
        (\<forall>p. CE_AddEvent p ce = Panics) \<and> CE_Stop ce = Panics"
      by (simp add: n1_def ce NewConsensusEngine_def CE_Start_def PP_Start_def NewParallelProcessor_def CE_Stop_def PP_Stop_def
          CE_AddEvent_def PP_AddEvent_def close_chan_def try_send_def)
    then obtain ce' where ce': "CE_Stop (scn_consensus n1) = Returns ((), ce')" "ce_cancelled ce'"
      "\<And>p. CE_AddEvent p ce' = Panics" "CE_Stop ce' = Panics" by blast
    have "SCN_Stop n1 = Returns ((), set_network (NM_Stop (scn_network (set_consensus ce' (n1\<lparr>scn_cancelled := True\<rparr>))))
        (set_consensus ce' (n1\<lparr>scn_cancelled := True\<rparr>)))" (is "_ = Returns ((), ?n2)")
      by (simp add: SCN_Stop_def Let_def cancelled_consensus ce'(1))
    moreover have "scn_consensus ?n2 = ce'" "scn_cancelled ?n2" "nm_cancelled (scn_network ?n2)"
      by (simp_all add: NM_Stop_def) (simp add: set_network_def set_consensus_def)
    moreover have "SCN_Stop ?n2 = Panics"
      using calculation(2) ce'(4) by (simp add: SCN_Stop_def Let_def cancelled_consensus)
    moreover have "scn_cancelled n1 = False" using f by (simp add: n1_def set_consensus_def)
    ultimately show ?thesis using ce' by (auto simp: main_start_def n start main_signal_def)
  qed
qed

end
