(* ===== verification/Node_Workers.thy ===== *)
theory Node_Workers
  imports Node_Program Engine_Workers
begin

text \<open>
  The whole program: the node's goroutines (\<open>node_step\<close>) together with the workers of the engine's parallel
  processor (\<open>work_step\<close>). A step of the node that writes to the processor's queues is, for the workers, a sequence of
  calls; a step of a worker changes the processor and, through \<open>Hash\<close>, the cached hash of an event.
\<close>

section \<open>The system\<close>

type_synonym 'st program_state = "loop_place \<times> 'st sinar_network \<times> worker_system"

inductive program_step ::
  "block_crypto \<Rightarrow> (hash32 \<Rightarrow> string) \<Rightarrow> (string \<Rightarrow> address) \<Rightarrow> 'st program_state \<Rightarrow> 'st program_state \<Rightarrow> bool"
  for x h2h h2a where
  program_start: "SCN_Start n = (err, tasks, n') \<Longrightarrow>
    program_step x h2h h2a (pl, n, s) (pl, n', WS_Start (workers_of (scn_consensus n) s))"
| program_node: "node_step x h2h h2a (pl, n) (pl', n') \<Longrightarrow>
    pp_running (ce_parallelProcessor (scn_consensus n')) \<longrightarrow> pp_running (ce_parallelProcessor (scn_consensus n)) \<Longrightarrow>
    program_step x h2h h2a (pl, n, s) (pl', n', workers_of (scn_consensus n') s)"
| program_worker: "work_step (crypto.truncate x) s s' \<Longrightarrow>
    program_step x h2h h2a (pl, n, s) (pl, set_consensus (with_workers s' (scn_consensus n)) n, s')"
| program_hash: "ce = (scn_consensus n)\<lparr>ce_poset := snd (hash_ref (crypto.truncate x) p (ce_poset (scn_consensus n)))\<rparr> \<Longrightarrow>
    program_step x h2h h2a (pl, n, s) (pl, set_consensus ce n, s)"

definition program_inv :: "crypto \<Rightarrow> 'st program_state \<Rightarrow> bool" where
  "program_inv y t \<longleftrightarrow> (case t of (pl, n, s) \<Rightarrow>
     node_inv n \<and> ws_pp s = ce_parallelProcessor (scn_consensus n) \<and> ws_reachable y 4 2 s)"

section \<open>The node as a caller of the processor\<close>

lemma free_engine_calls:
  assumes "ce_step x h2a a2h t t'" and "engine_free (snd t)"
    and "pp_running (ce_parallelProcessor (snd t')) \<longrightarrow> pp_running (ce_parallelProcessor (snd t))"
  shows "call_step\<^sup>*\<^sup>* (workers_of (snd t) s) (workers_of (snd t') s)"
  using engine_calls [OF assms(1) _ assms(3)] assms(2) by (simp add: engine_free_def)

lemma with_workers_free: "engine_free (with_workers s ce) = engine_free ce"
  by (simp add: engine_free_def with_workers_ok) (simp add: with_workers_def)

lemma same_processor:
  "ce_parallelProcessor ce' = ce_parallelProcessor ce \<Longrightarrow> call_step\<^sup>*\<^sup>* (workers_of ce s) (workers_of ce' s)"
  by (simp add: workers_of_def)

lemma stats_processor:
  "CE_GetConsensusStats x h2h ce = Returns (st, ce') \<Longrightarrow> ce_parallelProcessor ce' = ce_parallelProcessor ce"
  by (auto simp: CE_GetConsensusStats_def Let_def and_then_Returns_iff)

lemma scn_mu_consensus [simp]: "scn_consensus (set_scn_mu m n) = scn_consensus n"
  by (simp add: scn_consensus_def set_scn_mu_def)

lemma request_processor:
  assumes "node_inv n" and "API_request en remoteAddr r (scn_apiServer n) = Returns (resp, api)" and "en_key en \<noteq> None"
  shows "ce_parallelProcessor (api_consensusEngine api) = ce_parallelProcessor (scn_consensus n)"
proof -
  have idle: "api_idle (scn_apiServer n)" using assms(1) by (simp add: node_inv_def)
  obtain key where "en_key en = Some key" using assms(3) by auto
  from request_returns [OF idle this, of remoteAddr r] assms(2)
  have "engine_effect (en_HexToAddress en) (scn_consensus n) (api_consensusEngine api)"
    by (auto simp: request_effect_def scn_consensus_def)
  then show ?thesis using engine_effect_fields [of _ "scn_consensus n"] engine_free_idle [of "scn_consensus n"] inv_engine [OF assms(1)]
    by fastforce
qed

lemma node_calls:
  assumes "node_step x h2h h2a t t'" and "node_inv (snd t)"
    and "pp_running (ce_parallelProcessor (scn_consensus (snd t'))) \<longrightarrow> pp_running (ce_parallelProcessor (scn_consensus (snd t)))"
  shows "call_step\<^sup>*\<^sup>* (workers_of (scn_consensus (snd t)) s) (workers_of (scn_consensus (snd t')) s)"
  using assms
proof (induction rule: node_step.induct)
  case (node_start n err tasks n' pl)
  then have "scn_consensus n' = CE_Start (scn_consensus n)"
    by (auto simp: SCN_Start_def NM_Start_def Let_def)
  then show ?case using node_start free_engine_calls [OF ce_step.start [of x _ _ pl "scn_consensus n"], of s] inv_engine [of n] by simp
next
  case (node_stop n u n' pl)
  then obtain w ce where ce: "CE_Stop (scn_consensus n) = Returns (w, ce)" "scn_consensus n' = ce"
    by (auto simp: SCN_Stop_def Let_def and_then_Returns_iff cancelled_consensus)
  then show ?case using node_stop free_engine_calls [OF ce_step.stop [OF ce(1), of x _ _ pl], of s] inv_engine [of n] by simp
next
  case (node_stats now n u n' pl)
  then obtain m st ce st' nm met m' where ce: "CE_GetConsensusStats x h2h (scn_consensus (set_scn_mu m n)) = Returns (st, ce)"
    and n': "n' = set_scn_mu m' ((set_network nm (set_consensus ce (set_scn_mu m n)))\<lparr>scn_metrics := met\<rparr>)"
    unfolding SCN_updateStats_def with_Lock_def Let_def and_then_Returns_iff by (auto simp: and_then_Returns_iff)
  have "scn_consensus n' = ce" by (simp add: n') (simp add: scn_consensus_def set_network_def set_consensus_def)
  then show ?case using stats_processor [OF ce] same_processor [of ce "scn_consensus n"] by simp
next
  case (node_events ko now n goes_on n' pl)
  then obtain b gossip ce where ce: "CE_processEvents (crypto.truncate x) ko (scn_consensus n) = Returns ((b, gossip), ce)"
    and "scn_consensus n' = ce"
    by (auto simp: SCN_processEvents_def Let_def and_then_Returns_iff split: option.splits)
  then show ?case using node_events free_engine_calls [OF ce_step.event [OF ce, of _ _ pl], of s] inv_engine [of n] by simp
next
  case (node_block now k n u ce pl)
  then show ?case using free_engine_calls [OF ce_step.block [OF node_block(1), of _ _ pl], of s] inv_engine [of n] by simp
next
  case (node_tick t pl n pl' ce)
  then show ?case using free_engine_calls [OF ce_step.tick [OF node_tick(1)], of s] inv_engine [of n] by simp
next
  case (node_stopped pl n pl')
  then show ?case by simp
next
  case (node_test p n err n' pl)
  let ?ce = "\<lambda>e. (scn_consensus n)\<lparr>ce_poset := upd_event p (\<lambda>_. e) (ce_poset (scn_consensus n))\<rparr>"
  from node_test obtain e ce2 where e: "NewEvent (crypto.truncate x) ''NodeA'' [] 0 1 [] 0 = Returns e"
    and add: "CE_AddEvent p (?ce e) = Returns (err, ce2)" and n': "scn_consensus n' = ce2"
    by (auto simp: SCN_testConsensusSpeed_def Let_def and_then_Returns_iff)
  have "workers_of (?ce e) s = workers_of (scn_consensus n) s" by (simp add: workers_of_def)
  then show ?case using node_test n' new_event_ok [OF e inv_engine [of n], of p] free_engine_calls [OF ce_step.add [OF add, of x _ _ pl], of s] by simp
next
  case (node_network n nm pl)
  then show ?case by simp
next
  case (node_request en remoteAddr r n resp api pl)
  then show ?case using request_processor [of n en remoteAddr r resp api] same_processor [of "api_consensusEngine api" "scn_consensus n"]
    by (simp add: scn_consensus_def)
next
  case (node_socket upgraded msgs n sent api pl)
  then have "api = scn_apiServer n" using socket_reads [of "scn_apiServer n" x h2h upgraded msgs] by (auto simp: node_inv_def)
  then show ?case by simp
qed

section \<open>Every step keeps the invariant\<close>

lemma program_step_inv:
  "program_step x h2h h2a t t' \<Longrightarrow> program_inv (crypto.truncate x) t \<Longrightarrow> program_inv (crypto.truncate x) t'"
proof (induction rule: program_step.induct)
  case (program_start n err tasks n' pl s)
  then have *: "workers_of (scn_consensus n) s = s" "node_inv n" by (simp_all add: program_inv_def workers_of_same)
  have "scn_consensus n' = CE_Start (scn_consensus n)"
    using program_start(1) by (auto simp: SCN_Start_def NM_Start_def Let_def)
  also have "\<dots> = with_workers (WS_Start s) (scn_consensus n)"
    using CE_Start_workers [of "scn_consensus n" s] by (simp add: CE_Start_workers_def Let_def *(1))
  finally have "ws_pp (WS_Start s) = ce_parallelProcessor (scn_consensus n')" by (simp add: with_workers_def)
  moreover have "node_inv n'" using node_step_inv [OF node_step.node_start [OF program_start(1)]] *(2) by simp
  moreover have "ws_reachable (crypto.truncate x) 4 2 (WS_Start s)"
    using program_start(2) ws_call [OF _ started] by (auto simp: program_inv_def)
  ultimately show ?case by (simp add: program_inv_def *(1))
next
  case (program_node pl n pl' n' s)
  then have *: "workers_of (scn_consensus n) s = s" "node_inv n" "ws_reachable (crypto.truncate x) 4 2 s"
    by (simp_all add: program_inv_def workers_of_same)
  have "node_inv n'" using node_step_inv [OF program_node(1)] *(2) by simp
  moreover have "call_step\<^sup>*\<^sup>* s (workers_of (scn_consensus n') s)"
    using node_calls [OF program_node(1), of s] program_node(2) * by simp
  ultimately show ?case using reachable_calls *(3) by (auto simp: program_inv_def) (simp add: workers_of_def)
next
  case (program_worker s s' pl n)
  then show ?case using inv_consensus [of n "with_workers s' (scn_consensus n)"]
    by (auto simp: program_inv_def with_workers_free inv_engine intro: ws_work) (simp add: with_workers_def)
next
  case (program_hash ce p n pl s)
  then have "engine_free ce" by (simp add: program_inv_def engine_free_def engine_ok_def quiet_hash_ref node_inv_def)
  then show ?case using program_hash inv_consensus [of n ce] by (simp add: program_inv_def)
qed

lemma program_run_inv:
  "(program_step x h2h h2a)\<^sup>*\<^sup>* t t' \<Longrightarrow> program_inv (crypto.truncate x) t \<Longrightarrow> program_inv (crypto.truncate x) t'"
  by (induction rule: rtranclp_induct) (auto intro: program_step_inv)

lemma program_new_inv:
  assumes "NewSinarChainNetwork key host v now heap vheap config = Inr n" and "\<forall>p. ev_Atropos (heap p) = 0"
  shows "program_inv y (pl, n, NewWorkerSystem 4 2)"
proof -
  have "node_inv n" using node_reachable_inv [OF node_new [OF assms]] by simp
  moreover have "ce_parallelProcessor (scn_consensus n) = NewParallelProcessor 4 2"
    using assms(1) by (auto simp: NewSinarChainNetwork_def NewAPIServer_def NewConsensusEngine_def scn_consensus_def Let_def
        split: sum.splits)
  ultimately show ?thesis by (simp add: program_inv_def ws_new) (simp add: NewWorkerSystem_def)
qed

text \<open>
  C2. The whole program finalises nothing, and its workers never wait for one another. From a new node, whatever its
  goroutines, the workers of its parallel processor, the network and the clients do, and in whatever order: no event is final,
  no witness famous, no Clotho selected, no block queued or stored; and until the node is stopped, as long as a queue of the processor holds work some worker
  can go on and leaves less of it.
\<close>

theorem program_finalises_nothing:
  assumes "NewSinarChainNetwork key host v now heap vheap config = Inr n0" and "\<forall>p. ev_Atropos (heap p) = 0"
    and "(program_step x h2h h2a)\<^sup>*\<^sup>* (In_runConsensus, n0, NewWorkerSystem 4 2) (pl, n, s)"
  shows "(\<forall>p. ev_Atropos (d_heap (ce_poset (scn_consensus n)) p) = 0) \<and>
    fv_famousWitnesses (ce_fameVoting (scn_consensus n)) = [] \<and>
    (\<forall>r c. go_get (cs_clothos (ce_clothoSelector (scn_consensus n))) r = Some c \<longrightarrow> c = []) \<and>
    ch_items (ce_blockQueue (scn_consensus n)) = [] \<and> bc_blocks (scn_blockchain n) = [] \<and>
    bc_blocks (ce_blockchain (scn_consensus n)) = [] \<and>
    (ws_open s \<and> pending_work s \<noteq> 0 \<longrightarrow>
       (\<exists>t. program_step x h2h h2a (pl, n, s) t \<and> Suc (pending_work (snd (snd t))) = pending_work s))"
proof -
  have inv: "program_inv (crypto.truncate x) (pl, n, s)" by (rule program_run_inv [OF assms(3) program_new_inv [OF assms(1,2)]])
  then have ok: "engine_free (scn_consensus n)" "scn_blockchain n = NewBlockchain" and r: "ws_inv 4 2 s"
    by (auto simp: program_inv_def node_inv_def dest: ws_reachable_inv)
  have "\<exists>t. program_step x h2h h2a (pl, n, s) t \<and> Suc (pending_work (snd (snd t))) = pending_work s"
    if op: "ws_open s" and left: "pending_work s \<noteq> 0"
  proof -
    obtain s' where s': "work_step (crypto.truncate x) s s'" using work_left_moves [OF op r _ _ left] by auto
    then show ?thesis using work_step_effect [OF s' op r] program_worker [OF s'] by fastforce
  qed
  then show ?thesis using ok by (auto simp: engine_free_def engine_ok_def quiet_def undecided_def clothos_quiet_def NewBlockchain_def)
qed

theorem program_finalises_nothing_witness:
  "\<exists>n s. program_step sample_block_crypto (\<lambda>_. []) (\<lambda>_. 0) (In_runConsensus, main_node, NewWorkerSystem 4 2) (In_runConsensus, n, s) \<and>
     ws_open s \<and> bc_blocks (ce_blockchain (scn_consensus n)) = []"
proof -
  obtain err tasks n where n: "SCN_Start main_node = (err, tasks, n)" by (metis prod.collapse)
  let ?s = "WS_Start (workers_of (scn_consensus main_node) (NewWorkerSystem 4 2))"
  have fresh: "\<forall>p. ev_Atropos ((\<lambda>_. zero_event) (p :: eref)) = 0" by (simp add: zero_event_def)
  have step: "program_step sample_block_crypto (\<lambda>_. []) (\<lambda>_. 0) (In_runConsensus, main_node, NewWorkerSystem 4 2) (In_runConsensus, n, ?s)"
    by (rule program_start [OF n])
  have "program_inv (crypto.truncate sample_block_crypto) (In_runConsensus, main_node, NewWorkerSystem 4 2)"
    by (rule program_new_inv [OF main_node_new fresh])
  then have "workers_of (scn_consensus main_node) (NewWorkerSystem 4 2) = NewWorkerSystem 4 2"
    by (simp add: program_inv_def workers_of_same)
  then have "ws_open ?s" by (simp add: start_opens)
  moreover have "(program_step sample_block_crypto (\<lambda>_. []) (\<lambda>_. 0))\<^sup>*\<^sup>*
      (In_runConsensus, main_node, NewWorkerSystem 4 2) (In_runConsensus, n, ?s)" using step by (rule r_into_rtranclp)
  ultimately show ?thesis using step program_finalises_nothing [OF main_node_new fresh] by blast
qed

end
