(* ===== verification/Spec2Isabelle.thy ===== *)
theory Spec2Isabelle
  imports Fame_Spec Clotho_Selection Finality_Spec Search_Cost Tx_Pool Validators Token_Spec
    Blockchain EVM_Contracts Consensus_Engine Engine_Workers Network_Manager Node_Workers
begin

text \<open>
  \<^bold>\<open>Sinar Chain.\<close> A verification library for the Go sources under \<open>src/src/\<close>: an event-DAG consensus in the
  style of Lachesis, its round assignment, fame voting, Clotho and Atropos selection, a chain of blocks
  built from finalised events, the account and token state, the transaction pool, the validator set, the gossip
  network, the HTTP interface, and the node that composes them.
  The model follows the code method by method; the names of definitions are those of the source with a
  prefix for the receiver (\<open>DAG_\<close>, \<open>RA_\<close>, \<open>FV_\<close>, \<open>CS_\<close>, \<open>FE_\<close>, \<open>CM_\<close>, \<open>P_\<close>, \<open>BC_\<close>, \<open>SD_\<close>, \<open>SN_\<close>, \<open>VS_\<close>, \<open>TP_\<close>,
  \<open>EP_\<close>, \<open>MO_\<close>, \<open>PP_\<close>, \<open>CE_\<close>, \<open>NM_\<close>, \<open>API_\<close>, \<open>SCN_\<close>).

  \<^bold>\<open>How the parts interact.\<close> Events (\<open>event.go\<close>) are submitted to the \<open>ConsensusEngine\<close> (\<open>consensus.go\<close>), queued,
  cached and stored by the \<open>Poset\<close> (\<open>poset.go\<close>). The engine's \<open>DAG\<close> (\<open>dag.go\<close>) shares the event and round maps of the
  poset. On a tick the engine assigns rounds (\<open>round_assignment.go\<close>), votes on the fame of witnesses
  (\<open>fame_voting.go\<close>), selects Clothos (\<open>clotho.go\<close>) and turns them into Atropos events (\<open>finality.go\<close>). Finalised events
  are grouped into blocks by the engine or by the \<open>Blockchain\<close> (\<open>blockchain.go\<close>), which executes them with the
  \<open>EVMProcessor\<close> (\<open>evm.go\<close>) and the \<open>StateDB\<close> (\<open>state.go\<close>). Validators (\<open>validator.go\<close>) and the transaction pool
  (\<open>txpool.go\<close>) stand beside this pipeline. Accepted events are gossiped by the \<open>NetworkManager\<close> (\<open>network.go\<close>). The
  \<open>APIServer\<close> (\<open>api_server.go\<close>) queries the engine and the network manager, registers validators with the engine, and
  moves tokens in a \<open>StateDB\<close> of its own; the node (\<open>main.go\<close>) creates, connects, starts and stops all of them.

  \<^bold>\<open>Theories.\<close>
  \<^item> \<open>Sinar_Prelude\<close>: words, Go maps (association lists in iteration order), outcomes of a call
    (\<open>Returns\<close>, \<open>Blocks\<close>, \<open>Panics\<close>), Go's \<open>RWMutex\<close> and the locale \<open>mutex_field\<close>, counting loops.
  \<^item> \<open>Go_Float64\<close> and \<open>Quorum\<close>: the float64 arithmetic the thresholds use, rounding included, and the proof that
    the two-thirds tests are exact integer tests for fewer than \<open>2 ^ 50\<close> events; the locale of quorum tests.
  \<^item> \<open>Go_Format\<close>: the \<open>Sprintf\<close> verbs that build map keys. \<open>Go_Channel\<close>: buffered channels. \<open>Time_Groups\<close>: grouping by a
    key. \<open>Median\<close>: the median routine the code repeats three times. \<open>Registry\<close> and \<open>Ledger\<close>: locales for keyed
    registries and balance tables.
  \<^item> \<open>Sinar_Event\<close>: \<open>event.go\<close>. \<open>Ancestry\<close>: the depth-first search of \<open>DAG.IsAncestor\<close> and the breadth-first search of
    \<open>Poset.isAncestor\<close>, both proved to decide reachability. \<open>Dag\<close>: \<open>dag.go\<close> and \<open>round_assignment.go\<close>.
  \<^item> \<open>Fame_Voting\<close>, \<open>Clotho_Selection\<close>, \<open>Finality\<close>: the files of these names. \<open>Cache_Manager\<close>: the cache of
    \<open>consensus.go\<close>, with one locale for its four parts. \<open>Poset_Model\<close>: \<open>poset.go\<close>.
  \<^item> \<open>Blocks\<close> and \<open>Blockchain\<close>: \<open>blockchain.go\<close>. \<open>EVM_Processor\<close> and \<open>EVM_Contracts\<close>: \<open>evm.go\<close>. \<open>State_DB\<close> and \<open>Sinar_Token\<close>: \<open>state.go\<close>.
    \<open>Memory_Pool\<close>: the \<open>MemoryOptimizer\<close> of \<open>state.go\<close>. \<open>Validators\<close>: \<open>validator.go\<close>. \<open>Tx_Pool\<close>: \<open>txpool.go\<close>.
  \<^item> \<open>Parallel_Processor\<close> and \<open>Consensus_Engine\<close>: the rest of \<open>consensus.go\<close>; the goroutines are the step relation
    \<open>ce_step\<close>. \<open>Worker_System\<close>: the workers of the parallel processor, interleaved (\<open>work_step\<close>); \<open>Engine_Workers\<close>: the
    engine with its workers (\<open>es_step\<close>). \<open>Finality_Queries\<close> and \<open>Statistics\<close>: what \<open>GetConsensusStats\<close> collects from the engine's parts. \<open>State_Queries\<close>: the
    queries of \<open>state.go\<close>.
  \<^item> \<open>Network_Manager\<close>: \<open>network.go\<close>, its callbacks and loops as the step relation \<open>nm_step\<close>. \<open>Go_Float64_Sums\<close>,
    \<open>Go_Float64_Wide\<close> and \<open>Go_Strconv\<close>: sums of float64 values, float64 over its whole range, and numbers to and from text.
  \<^item> \<open>Api_Server\<close>: the middleware and the handlers of \<open>api_server.go\<close>. \<open>Api_Routes\<close>: its routes, and what a request can
    change. \<open>Node\<close>: \<open>main.go\<close>; the goroutines of the whole program are the step relation \<open>node_step\<close>.
    \<open>Node_Program\<close>: its monitor, its tests and \<open>main\<close>. \<open>Node_Workers\<close>: the node with the workers of its engine
    (\<open>program_step\<close>), the whole program.
  \<^item> The specifications, each an abstract machine that the code is proved to refine: \<open>Finality_Spec\<close> (events become final
    when supported, whatever the iteration order), \<open>Fame_Spec\<close> (a table of yes votes), \<open>Token_Spec\<close> (a ledger of balances, supply and cap), \<open>Api_Spec\<close> (a
    sliding window of requests). \<open>Search_Cost\<close>: bounds on the two ancestor searches.

  \<^bold>\<open>Conventions.\<close> Pointers to events and validators are references into a heap of the state; other structs are values,
  as they are reached through one map only. Every map iteration is in list order and every theorem holds for every
  order. Mutexes are modelled wherever a method may run into a lock of its own; methods that hold a
  mutex for their whole body and call nothing that locks are one step. Clocks, eviction orders, the rounds a
  loop visits and the objects a pool returns are arguments. RLP, Keccak, ECDSA, SHA-256, the address
  parser and go-ethereum's virtual machine are parameters (records \<open>crypto\<close>, \<open>block_crypto\<close>, \<open>root_crypto\<close>,
  \<open>geth\<close>); what a theorem needs of them is a named hypothesis that states their documentation.

  \<^bold>\<open>Bounds and fuel.\<close> The fuel of the depth-first search is one more than the number of stored events
  (\<open>dfs_enough_fuel\<close>: it always suffices, so \<open>dfs_ancestor\<close> is total); the breadth-first search has a termination
  proof, and \<open>ancestor_searches_terminate\<close> bounds its iterations by the parent links. The float64 results assume fewer
  than \<open>2 ^ 50\<close> events. Caches of five or more entries are covered (the code uses 1000 and 10000). The limiter's
  properties assume a clock that does not go back.

  \<^bold>\<open>What the properties show.\<close> The algorithms that work, work as meant: ancestor search, round assignment, witness
  collection, the store and its invariant, the threshold tests, finalisation safety, block construction, the
  sort and the selection of transactions, token transfers, minting and the initial distribution, the validator
  set, the caches, the message queue, the rate limiter; every request is answered and leaves every mutex free, and
  every response is well formed but for the list of peers, which JSON cannot encode. Composed, the
  system makes no progress (\<open>node_never_progresses\<close>), and the library says why: the vote count can
  never reach its minimum (\<open>fame_voting_never_decides\<close>), so no Clotho is selected, nothing is finalised and no block
  is built (\<open>program_finalises_nothing\<close>, \<open>system_commits_nothing\<close>); independently, the pipeline runs once
  (\<open>pipeline_runs_once\<close>) and \<open>DAG.AddEvent\<close>, \<open>Blockchain.AddBlock\<close> and the writers of \<open>StateDB\<close> wait for mutexes
  they hold, and a plain transfer is paid twice, the second time through the processor's own callback
  (\<open>transfer_paid_twice\<close>). Through the interface, validators replace each other (\<open>api_validators_collapse\<close>), anyone can take from any
  account (\<open>api_transfer_takes\<close>) and a repeated distribution passes the cap (\<open>distribution_repeated\<close>).

  \<^bold>\<open>Not modelled.\<close> libp2p, the router, the JSON coder, sockets and the listener, which are libraries: their results
  are arguments (of the coder, \<open>Api_Server\<close> says which answers it refuses to encode). go-ethereum's machine and
  state are arguments too, with their documented behaviour as hypotheses. The delivery of signals, the sleeps of the performance tests, the figures of Go's runtime
  (\<open>runtime.MemStats\<close>), progress messages, types no code uses (\<open>StateManager\<close>, \<open>EVMContext\<close>, \<open>PeerDiscovery\<close>), and
  the accessors that return a field. \<open>evm.go\<close> uses a field of \<open>StateDB\<close> that does not exist; it is taken to be
  go-ethereum's state. \<open>NewClothoSelector\<close> is called with one argument of two: the missing one is taken to be the
  engine's fame voting. Data races between goroutines are not modelled: a step is atomic, and a worker's turn is two.

  \<^bold>\<open>Plan.\<close> Next: the order of \<open>Stop\<close> against the loops of the network manager, and the streams of \<open>network.go\<close>, for
  which no handler is registered, as part of the step relation.
\<close>

section \<open>Properties that span components\<close>

subsection \<open>From the engine to the chain\<close>

text \<open>
  C3. The system commits no block by its own work. Take events that carry no Atropos when they are submitted
  (\<open>Atropos\<close> is an exported field, but \<open>NewEvent\<close>, the program's only constructor, leaves it zero). In every
  state an engine reaches from a fresh start, whichever of these events are submitted and in whatever order
  its loops run, the blockchain it carries is still the new one, and \<open>ProcessAtroposEvents\<close> over the engine's
  events finds nothing to do: it returns without error, without needing the validator's key, and leaves the
  chain empty at height zero. The hypothesis is needed: an event that arrives with an Atropos counts as
  final, and \<open>process_atropos_events_spec\<close> says what happens then.
\<close>

theorem system_commits_nothing:
  assumes "\<forall>p. ev_Atropos (heap p) = 0"
    and "(ce_step x h2a a2h)\<^sup>*\<^sup>* (In_runConsensus, NewConsensusEngine now0 heap vheap config) (pl, ce)"
  shows "BC_ProcessAtroposEvents x g now v (ce_poset ce) (ce_blockchain ce) = Returns (None, ce_blockchain ce) \<and>
    bc_blocks (ce_blockchain ce) = [] \<and> BC_GetLatestBlockNumber (ce_blockchain ce) = Returns (0, ce_blockchain ce)"
proof -
  have ok: "engine_ok ce"
    by (rule ce_run_ok [OF assms(2), unfolded snd_conv, OF new_engine_ok [OF assms(1)]])
  have bc: "ce_blockchain ce = NewBlockchain" and q: "quiet (ce_poset ce)" using ok by (simp_all add: engine_ok_def)
  have free: "\<not> rw_writer (bc_mu (ce_blockchain ce))" by (simp add: bc NewBlockchain_def unlocked_def)
  have "pending (crypto.truncate x) (ce_poset ce) (ce_blockchain ce) = []"
    using q by (auto simp: pending_def events_seq_def quiet_def filter_empty_conv)
  then show ?thesis
    using process_run [OF free, of "ce_poset ce" x g now v] q GetLatestBlockNumber_free [OF free]
    by (simp add: quiet_def bc) (simp add: NewBlockchain_def latest_number_def)
qed

theorem system_commits_nothing_witness:
  "\<exists>ce. ce_step sample_block_crypto (\<lambda>_. 0) (\<lambda>_. []) (In_runConsensus, some_engine) (In_createBlocks, ce) \<and>
     bc_blocks (ce_blockchain ce) = []"
proof -
  obtain ce where s: "ce_step sample_block_crypto (\<lambda>_. 0) (\<lambda>_. []) (In_runConsensus, some_engine) (In_createBlocks, ce)"
    using some_engine_tick by blast
  have fresh: "\<forall>p. ev_Atropos ((\<lambda>_. zero_event) (p :: eref)) = 0" by (simp add: zero_event_def)
  have "(ce_step sample_block_crypto (\<lambda>_. 0) (\<lambda>_. []))\<^sup>*\<^sup>* (In_runConsensus,
      NewConsensusEngine 0 (\<lambda>_. zero_event) (\<lambda>_. chain_validator) some_config) (In_createBlocks, ce)"
    using s unfolding some_engine_def by (rule r_into_rtranclp)
  from system_commits_nothing [OF fresh this] s show ?thesis by blast
qed

subsection \<open>Two numberings in one round table\<close>

text \<open>
  C22. The poset and the DAG disagree about rounds. The engine's two components write the same round table. A
  new event without parents, the first of its creator in its time slot (no stored event of the creator in
  the slot has a smaller Lamport time; events in other slots do not matter), is entered by the poset as a
  witness of the round \<open>Lamport / block time\<close>; the next pass of round assignment gives the event
  round 0 and enters it there as witness and root, and does not take the first entry back. So when its time
  slot is not 0 it is listed as a witness of two rounds, one of them not its own.
\<close>

theorem two_round_numberings:
  assumes "p_mu P = unlocked" and "\<not> rw_writer (d_mu P)" and "block_millis P \<noteq> 0"
    and "go_get (d_Events P) (hash_of x (d_heap P p)) = None" and "ev_Parents (d_heap P p) = []"
    and "\<forall>(i, q) \<in> set (d_Events P). ev_CreatorID (d_heap P q) = ev_CreatorID (d_heap P p) \<longrightarrow>
      ev_Lamport (d_heap P q) div block_millis P = ev_Lamport (d_heap P p) div block_millis P \<longrightarrow>
      ev_Lamport (d_heap P p) \<le> ev_Lamport (d_heap P q)"
    and "ev_Lamport (d_heap P p) div block_millis P \<noteq> 0"
  defines "i \<equiv> hash_of x (d_heap P p)" and "r \<equiv> ev_Lamport (d_heap P p) div block_millis P"
  shows "\<exists>P1 P2 slot first. P_AddEvent x p P = Returns (None, P1) \<and> RA_AssignRound x p P1 = Returns P2 \<and>
    go_get (d_Rounds P2) r = Some slot \<and> go_get (ri_Witnesses slot) i = Some p \<and>
    go_get (d_Rounds P2) 0 = Some first \<and> go_get (ri_Witnesses first) i = Some p \<and>
    go_get (ri_Roots first) i = Some p \<and> ev_Round (d_heap P2 p) = 0 \<and> r \<noteq> 0"
proof -
  define S where "S = set_p_mu (unlocked\<lparr>rw_writer := True\<rparr>) ((snd (hash_ref x p P))
    \<lparr>d_Events := go_put i p (d_Events P), p_Heads := go_put (ev_CreatorID (d_heap P p)) i (p_Heads P)\<rparr>)"
  have here: "lamport_round p S = r" "hash_of x (d_heap S p) = i" "d_mu S = d_mu P"
    by (simp_all add: S_def lamport_round_def r_def i_def hash_ref_eq)
  have "block_millis S \<noteq> 0" using assms(3) by (simp add: S_def)
  then obtain P3 where P3: "P_updateRoundAssignment x p S = Returns P3"
    and rounds: "go_get (d_Rounds P3) r = Some ((round_before r S)\<lparr>ri_Witnesses := witnesses_after x p S,
      ri_Roots := (if root_after x p S then go_put i p (ri_Roots (round_before r S)) else ri_Roots (round_before r S))\<rparr>)"
    using update_spec [of S x p] unfolding here Let_def by auto
  have "first_in_slot p P" using assms(6) by (auto simp: first_in_slot_def)
  then have "first_in_slot p S"
    using first_in_slot_stored [of p P i x] assms(4)
    by (simp add: first_in_slot_def S_def go_put_fresh i_def)
  then have wit: "go_get (witnesses_after x p S) i = Some p" by (simp add: witnesses_after_def here Let_def)
  define P1 where "P1 = set_p_mu unlocked P3"
  have add: "P_AddEvent x p P = Returns (None, P1)"
    using assms(4) P3 unfolding AddEvent_run [OF assms(1)] Let_def P1_def S_def i_def by simp
  have P1: "d_heap P1 p = d_heap S p" "d_Rounds P1 = d_Rounds P3" "d_mu P1 = d_mu P"
    using update_fields [OF P3] update_keeps(1) [OF P3] here(3) by (simp_all add: P1_def)
  define P2 where "P2 = assign_with_parents x [] p P1"
  have "ev_Parents (d_heap P1 p) = []" using assms(5) P1 by (simp add: S_def hash_ref_eq)
  then have assign: "RA_AssignRound x p P1 = Returns P2"
    using RA_AssignRound_free [of P1 x p] assms(2) P1(3) by (simp add: P2_def)
  have cached: "ev_hash (d_heap P1 p) = Some i" using P1(1) by (simp add: S_def hash_ref_eq i_def)
  define D where "D = upd_event p (\<lambda>e. e\<lparr>ev_Round := 0, ev_IsRoot := True\<rparr>) P1"
  have P2': "P2 = register_root x p D" by (simp add: P2_def D_def assign_with_parents_def)
  have D: "ev_Round (d_heap D p) = 0" "hash_of x (d_heap D p) = i" "d_Rounds D = d_Rounds P3"
    using cached P1(2) by (simp_all add: D_def)
  define first where "first = (round_or_new D 0)\<lparr>ri_Witnesses := go_put i p (ri_Witnesses (round_or_new D 0)),
    ri_Roots := go_put i p (ri_Roots (round_or_new D 0))\<rparr>"
  have tab: "go_get (d_Rounds P2) = (go_get (d_Rounds P3))(0 \<mapsto> first)"
    by (simp add: P2' register_root_rounds D first_def Let_def)
  have r0: "r \<noteq> 0" using assms(7) by (simp add: r_def)
  have "go_get (d_Rounds P2) r = go_get (d_Rounds P3) r" using r0 by (simp add: tab)
  moreover have "ev_Round (d_heap P2 p) = 0" using D(1) by (simp add: P2')
  moreover have "go_get (d_Rounds P2) 0 = Some first" "go_get (ri_Witnesses first) i = Some p" "go_get (ri_Roots first) i = Some p"
    by (simp_all add: tab first_def)
  ultimately show ?thesis using add assign rounds wit r0 by force
qed

text \<open>The second event of a creator, in a later slot than the first.\<close>

definition second_slot_poset :: poset where
  "second_slot_poset = empty_poset\<lparr>d_heap := (\<lambda>_. zero_event)(11 := zero_event\<lparr>ev_Lamport := 4000\<rparr>),
     d_Events := [(77, 3)]\<rparr>"

theorem two_round_numberings_witness:
  "\<exists>P1 P2 first. P_AddEvent sample_crypto 11 second_slot_poset = Returns (None, P1) \<and>
     RA_AssignRound sample_crypto 11 P1 = Returns P2 \<and> go_get (d_Rounds P2) 0 = Some first"
proof -
  have "block_millis second_slot_poset = block_millis empty_poset" by (simp add: block_millis_def second_slot_poset_def)
  then have bm: "block_millis second_slot_poset = 2000" by simp
  have e: "d_heap second_slot_poset 11 = zero_event\<lparr>ev_Lamport := 4000\<rparr>" "d_Events second_slot_poset = [(77, 3)]"
    "d_heap second_slot_poset 3 = zero_event" "p_mu second_slot_poset = unlocked" "d_mu second_slot_poset = unlocked"
    by (simp_all add: second_slot_poset_def) (simp_all add: empty_poset_def NewPoset_def NewDAG_def dag.defs)
  have h: "hash_of sample_crypto (zero_event\<lparr>ev_Lamport := 4000\<rparr>) \<noteq> 77"
    by (simp add: hash_of_def Event_Hash_def zero_event_def sample_crypto_def Let_def)
  obtain P1 P2 first where "P_AddEvent sample_crypto 11 second_slot_poset = Returns (None, P1)"
    "RA_AssignRound sample_crypto 11 P1 = Returns P2" "go_get (d_Rounds P2) 0 = Some first"
    using two_round_numberings [of second_slot_poset sample_crypto 11, unfolded bm e] h
    by (auto simp: e(3) zero_event_def unlocked_def)
  then show ?thesis by blast
qed

end
